(* ===== verification/Prelude.thy ===== *)
theory Prelude
  imports Main "HOL-Library.List_Lexorder" "HOL-Library.Char_ord" "HOL-Library.Multiset"
    "HOL-Library.Word" "HOL-Library.AList"
begin

text \<open>
  Shared base of the development: the named theorem collections, the pieces of Go's standard
  library the source uses (\<^verbatim>\<open>strings\<close>, \<^verbatim>\<open>sort\<close>, \<^verbatim>\<open>strconv\<close>, maps) and
  generic lemmas about lists and multisets.

  A Go \<^verbatim>\<open>string\<close> or \<^verbatim>\<open>[]byte\<close> is a HOL \<open>string\<close>, one \<open>char\<close> per byte. A Go map
  is an association list with distinct keys; its order stands for the (arbitrary) order in which
  one particular \<^verbatim>\<open>range\<close> loop meets the entries.
\<close>

named_theorems wp_rules "how the weakest precondition of a statement unfolds"
named_theorems wp_raw "how the weakest precondition of a native call unfolds"
named_theorems wp_intros "introduction rules for the weakest precondition of an operation"

section \<open>Decimal numbers\<close>

definition digit_char :: "nat \<Rightarrow> char" where
  "digit_char d = char_of (48 + d :: nat)"

fun show_nat :: "nat \<Rightarrow> string" where
  "show_nat n = (if n < 10 then [digit_char n] else show_nat (n div 10) @ [digit_char (n mod 10)])"

declare show_nat.simps [simp del]

text \<open>\<^verbatim>\<open>strconv.Itoa\<close> and \<^verbatim>\<open>strconv.FormatInt(_, 10)\<close>.\<close>

definition itoa :: "int \<Rightarrow> string" where
  "itoa i = (if i < 0 then CHR ''-'' # show_nat (nat (- i)) else show_nat (nat i))"

text \<open>\<^verbatim>\<open>strconv.FormatBool\<close>.\<close>

definition format_bool :: "bool \<Rightarrow> string" where
  "format_bool b = (if b then ''true'' else ''false'')"

definition digit_value :: "char \<Rightarrow> nat" where
  "digit_value c = of_char c - 48"

definition read_nat :: "string \<Rightarrow> nat" where
  "read_nat s = foldl (\<lambda>n c. 10 * n + digit_value c) 0 s"

lemma digit_value_char [simp]: "d < 10 \<Longrightarrow> digit_value (digit_char d) = d"
  by (simp add: digit_value_def digit_char_def)

lemma read_nat_show [simp]: "read_nat (show_nat n) = n"
proof (induction n rule: show_nat.induct)
  case (1 n)
  show ?case
  proof (cases "n < 10")
    case True
    then show ?thesis by (simp add: show_nat.simps [of n] read_nat_def)
  next
    case False
    with 1 have "read_nat (show_nat (n div 10)) = n div 10" by simp
    with False show ?thesis by (simp add: show_nat.simps [of n] read_nat_def)
  qed
qed

lemma show_nat_inject [simp]: "show_nat m = show_nat n \<longleftrightarrow> m = n"
  by (metis read_nat_show)

lemma show_nat_nonempty [simp]: "show_nat n \<noteq> []"
  by (subst show_nat.simps) simp

definition is_digit_char :: "char \<Rightarrow> bool" where
  "is_digit_char c \<longleftrightarrow> (48::nat) \<le> of_char c \<and> of_char c \<le> (57::nat)"

lemma is_digit_char_digit: "d < 10 \<Longrightarrow> is_digit_char (digit_char d)"
  by (simp add: is_digit_char_def digit_char_def)

lemma show_nat_digits: "\<forall>c \<in> set (show_nat n). is_digit_char c"
proof (induction n rule: show_nat.induct)
  case (1 n)
  show ?case
  proof (cases "n < 10")
    case True
    then show ?thesis by (simp add: show_nat.simps [of n] is_digit_char_digit)
  next
    case False
    with 1 have "\<forall>c \<in> set (show_nat (n div 10)). is_digit_char c" by simp
    with False show ?thesis by (simp add: show_nat.simps [of n] is_digit_char_digit)
  qed
qed

lemma minus_not_digit: "\<not> is_digit_char (CHR ''-'')"
  by (simp add: is_digit_char_def)

lemma itoa_inject: "itoa i = itoa j \<longleftrightarrow> i = j"
proof
  have not_minus: "show_nat m \<noteq> CHR ''-'' # s" for m s
    using show_nat_digits [of m] minus_not_digit by force
  assume "itoa i = itoa j"
  then show "i = j"
    using not_minus not_minus [THEN not_sym] by (auto simp: itoa_def split: if_splits)
qed simp

section \<open>White space: strings.Fields, strings.TrimSpace, strings.Join\<close>

text \<open>
  The UTF-8 encodings of the code points for which \<^verbatim>\<open>unicode.IsSpace\<close> holds. UTF-8 is
  self-synchronising, so matching these byte sequences at the current position decides the same
  question as decoding the rune there.
\<close>

definition byte :: "nat \<Rightarrow> char" where
  "byte n = char_of n"

definition space_runes :: "string list" where
  "space_runes =
     map (\<lambda>b. [byte b]) [9, 10, 11, 12, 13, 32] @
     [[byte 0xC2, byte 0x85], [byte 0xC2, byte 0xA0], [byte 0xE1, byte 0x9A, byte 0x80]] @
     map (\<lambda>b. [byte 0xE2, byte 0x80, byte b]) ([0x80..<0x8B] @ [0xA8, 0xA9, 0xAF]) @
     [[byte 0xE2, byte 0x81, byte 0x9F], [byte 0xE3, byte 0x80, byte 0x80]]"

fun starts_with :: "string \<Rightarrow> string \<Rightarrow> bool" where
  "starts_with [] s = True"
| "starts_with (x # p) [] = False"
| "starts_with (x # p) (y # s) = (x = y \<and> starts_with p s)"

definition leading_space :: "string \<Rightarrow> nat" where
  "leading_space s =
     (case List.find (\<lambda>e. starts_with e s) space_runes of None \<Rightarrow> 0 | Some e \<Rightarrow> length e)"

lemma starts_with_length: "starts_with p s \<Longrightarrow> length p \<le> length s"
  by (induction p s rule: starts_with.induct) auto

lemma leading_space_le: "leading_space s \<le> length s"
  by (auto simp: leading_space_def find_Some_iff starts_with_length split: option.splits)

lemma leading_space_Nil [simp]: "leading_space [] = 0"
  using leading_space_le [of "[]"] by simp

function fields_aux :: "string \<Rightarrow> string \<Rightarrow> string list" where
  "fields_aux acc [] = (if acc = [] then [] else [rev acc])"
| "fields_aux acc (c # s) =
     (let n = leading_space (c # s) in
      if n = 0 then fields_aux (c # acc) s
      else if acc = [] then fields_aux [] (drop n (c # s))
      else rev acc # fields_aux [] (drop n (c # s)))"
  by pat_completeness auto
termination
  by (relation "measure (\<lambda>(acc, s). length s)") (auto simp: Let_def)

declare fields_aux.simps(2) [simp del]

text \<open>\<^verbatim>\<open>strings.Fields\<close>.\<close>

definition split_fields :: "string \<Rightarrow> string list" where
  "split_fields s = fields_aux [] s"

text \<open>\<^verbatim>\<open>strings.TrimSpace(s) == ""\<close>: nothing is left once the white space is gone.\<close>

definition is_blank :: "string \<Rightarrow> bool" where
  "is_blank s \<longleftrightarrow> split_fields s = []"

text \<open>\<^verbatim>\<open>strings.Join\<close>.\<close>

fun join_with :: "string \<Rightarrow> string list \<Rightarrow> string" where
  "join_with sep [] = []"
| "join_with sep [x] = x"
| "join_with sep (x # xs) = x @ sep @ join_with sep xs"

section \<open>Sorting and maps\<close>

text \<open>\<^verbatim>\<open>sort.Strings\<close>: byte-wise lexicographic order, which is the order of
  \<^verbatim>\<open>HOL-Library.List_Lexorder\<close> on strings.\<close>

definition sort_strings :: "string list \<Rightarrow> string list" where
  "sort_strings xs = sort xs"

lemma sort_strings_set [simp]: "set (sort_strings xs) = set xs"
  by (simp add: sort_strings_def)

lemma sort_strings_sorted [simp]: "sorted (sort_strings xs)"
  by (simp add: sort_strings_def)

lemma sort_strings_distinct [simp]: "distinct (sort_strings xs) = distinct xs"
  by (simp add: sort_strings_def)

lemma sort_strings_cong: "mset xs = mset ys \<Longrightarrow> sort_strings xs = sort_strings ys"
  by (simp add: sort_strings_def properties_for_sort)

text \<open>Two enumerations of one map have the same keys.\<close>

lemma map_of_keys:
  assumes "distinct (map fst m)" "distinct (map fst m')" "map_of m = map_of m'"
  shows "mset (map fst m) = mset (map fst m')" "length m = length m'"
proof -
  show "mset (map fst m) = mset (map fst m')"
    using assms by (metis dom_map_of_conv_image_fst image_set set_eq_iff_mset_eq_distinct)
  then show "length m = length m'" by (metis length_map size_mset)
qed

text \<open>\<^verbatim>\<open>m[k] = v\<close> and \<^verbatim>\<open>maps.Copy(dst, src)\<close>.\<close>

definition map_set :: "'k \<Rightarrow> 'v \<Rightarrow> ('k \<times> 'v) list \<Rightarrow> ('k \<times> 'v) list" where
  "map_set k v m = AList.update k v m"

definition map_copy :: "('k \<times> 'v) list \<Rightarrow> ('k \<times> 'v) list \<Rightarrow> ('k \<times> 'v) list" where
  "map_copy dst src = foldl (\<lambda>m (k, v). map_set k v m) dst src"

lemma map_of_map_set [simp]: "map_of (map_set k v m) = (map_of m)(k \<mapsto> v)"
  by (simp add: map_set_def update_conv')

lemma distinct_map_set [simp]: "distinct (map fst m) \<Longrightarrow> distinct (map fst (map_set k v m))"
  by (simp add: map_set_def distinct_update)

lemma dom_map_set [simp]: "fst ` set (map_set k v m) = insert k (fst ` set m)"
  by (simp add: map_set_def dom_update)

lemma map_of_map_copy: "distinct (map fst src) \<Longrightarrow> map_of (map_copy dst src) = map_of dst ++ map_of src"
proof (induction src arbitrary: dst)
  case Nil
  then show ?case by (simp add: map_copy_def)
next
  case (Cons kv src)
  obtain k v where kv: "kv = (k, v)" by force
  from Cons have "k \<notin> dom (map_of src)" by (simp add: kv dom_map_of_conv_image_fst)
  moreover from Cons have "map_of (map_copy (map_set k v dst) src) = map_of (map_set k v dst) ++ map_of src"
    by simp
  ultimately show ?case
    by (auto simp: kv map_copy_def fun_eq_iff map_add_def split: option.splits)
qed

lemma distinct_map_copy: "distinct (map fst dst) \<Longrightarrow> distinct (map fst (map_copy dst src))"
  by (induction src arbitrary: dst) (auto simp: map_copy_def)

section \<open>Lists and multisets\<close>

lemma sum_lessThan_upd:
  fixes f g :: "nat \<Rightarrow> 'a multiset"
  assumes "i < n" and "\<And>j. j \<noteq> i \<Longrightarrow> g j = f j"
  shows "(\<Sum>j<n. g j) + f i = (\<Sum>j<n. f j) + g i"
proof -
  have split: "(\<Sum>j<n. h j) = h i + (\<Sum>j\<in>{..<n} - {i}. h j)" for h :: "nat \<Rightarrow> 'a multiset"
    using assms(1) by (simp add: sum.remove)
  have "(\<Sum>j\<in>{..<n} - {i}. g j) = (\<Sum>j\<in>{..<n} - {i}. f j)"
    using assms(2) by (intro sum.cong) auto
  then show ?thesis
    by (simp add: split [of g] split [of f] ac_simps)
qed

lemma subset_add_mset [simp]: "A \<subseteq># add_mset x A"
  by (metis add_mset_add_single mset_subset_eq_add_left)

lemma subset_add_mset_trans: "A \<subseteq># B \<Longrightarrow> A \<subseteq># add_mset x B"
  by (rule subset_mset.order_trans [OF _ subset_add_mset])

lemma in_minus_single [simp]: "x \<noteq> y \<Longrightarrow> x \<in># M - {#y#} \<longleftrightarrow> x \<in># M"
  by (simp add: in_diff_count)

end
