(* ===== verification/Nix32.thy ===== *)
theory Nix32
  imports Prelude
begin

unbundle bit_operations_syntax

text \<open>
  \<^verbatim>\<open>pkg/utils/nix32.go\<close>: Nix's base-32 encoding of a 20-byte hash, related to the 160-bit
  number the bytes spell and inverted by a decoder.
\<close>

section \<open>The encoder\<close>

definition nix32_alphabet :: string where
  "nix32_alphabet = ''0123456789abcdfghijklmnpqrsvwxyz''"

text \<open>The body of the loop: the five-bit group number \<open>n\<close>, read as a \<^verbatim>\<open>uint16\<close>.\<close>

definition nix32_value :: "8 word list \<Rightarrow> nat \<Rightarrow> 16 word" where
  "nix32_value data n =
     (let b = n * 5; i = b div 8; j = b mod 8;
          v = drop_bit j (ucast (data ! i) :: 16 word);
          v = (if i < length data - 1 then v OR push_bit (8 - j) (ucast (data ! (i + 1))) else v)
      in v AND 0x1f)"

text \<open>The loop \<^verbatim>\<open>for n := 31; n >= 0; n--\<close>, with \<^verbatim>\<open>n + 1\<close> rounds left.\<close>

fun nix32_loop :: "8 word list \<Rightarrow> string \<Rightarrow> nat \<Rightarrow> string" where
  "nix32_loop data encoded 0 = encoded"
| "nix32_loop data encoded (Suc n) =
     nix32_loop data (encoded @ [nix32_alphabet ! unat (nix32_value data n)]) n"

definition encode_nix32 :: "8 word list \<Rightarrow> string" where
  "encode_nix32 data = nix32_loop data [] 32"

section \<open>What it computes\<close>

lemma nix32_loop_eq:
  "nix32_loop data acc n = acc @ map (\<lambda>i. nix32_alphabet ! unat (nix32_value data i)) (rev [0..<n])"
  by (induction n arbitrary: acc) auto

lemma encode_nix32_eq:
  "encode_nix32 data = map (\<lambda>i. nix32_alphabet ! unat (nix32_value data i)) (rev [0..<32])"
  by (simp add: encode_nix32_def nix32_loop_eq)

text \<open>Bit \<open>k\<close> of group \<open>n\<close> is bit \<open>5 * n + k\<close> of the data.\<close>

definition data_bit :: "8 word list \<Rightarrow> nat \<Rightarrow> bool" where
  "data_bit data p = bit (data ! (p div 8)) (p mod 8)"

lemma nix32_value_mask:
  "nix32_value data n =
     (let b = n * 5; i = b div 8; j = b mod 8;
          v = drop_bit j (ucast (data ! i) :: 16 word);
          v = (if i < length data - 1 then v OR push_bit (8 - j) (ucast (data ! (i + 1))) else v)
      in take_bit 5 v)"
proof -
  have "(0x1f :: 16 word) = mask 5" by (simp add: mask_eq_exp_minus_1)
  then show ?thesis by (simp add: nix32_value_def Let_def take_bit_eq_mask del: push_bit_and)
qed

lemma div_8: "m < 8 \<Longrightarrow> (8 * i + m) div 8 = i" "m < 8 \<Longrightarrow> (8 * i + m) mod 8 = m" for i m :: nat
  by simp_all

lemma bit_nix32_value:
  assumes "length data = 20" and "n < 32"
  shows "bit (nix32_value data n) k \<longleftrightarrow> k < 5 \<and> data_bit data (5 * n + k)"
proof (cases "k < 5")
  case True
  define i j where "i = n * 5 div 8" and "j = n * 5 mod 8"
  have n5: "5 * n = 8 * i + j" and j: "j < 8" by (simp_all add: i_def j_def)
  have i: "i < 20" using n5 assms(2) by linarith
  have last: "i = 19 \<Longrightarrow> j = 3" using n5 assms(2) j by presburger
  have ub: "bit b m \<Longrightarrow> m < 8" for b :: "8 word" and m
    using bit_imp_le_length [of b m] by simp
  have "bit (nix32_value data n) k \<longleftrightarrow>
      bit (data ! i) (j + k) \<or> (i < 19 \<and> 8 - j \<le> k \<and> bit (data ! Suc i) (k - (8 - j)))"
    using True assms(1) j
    by (auto simp: nix32_value_mask Let_def i_def [symmetric] j_def [symmetric] bit_simps
        ac_simps dest: ub)
  also have "\<dots> \<longleftrightarrow> data_bit data (5 * n + k)"
  proof (cases "j + k < 8")
    case True
    then have "(5 * n + k) div 8 = i" "(5 * n + k) mod 8 = j + k"
      using div_8 [of "j + k" i] n5 by (simp_all add: add.assoc)
    with True show ?thesis by (auto simp: data_bit_def)
  next
    case False
    with j n5 have "5 * n + k = 8 * Suc i + (j + k - 8)" "j + k - 8 < 8"
      using \<open>k < 5\<close> by simp_all
    then have "(5 * n + k) div 8 = Suc i" "(5 * n + k) mod 8 = j + k - 8"
      using div_8 [of "j + k - 8" "Suc i"] by simp_all
    moreover have "i < 19" using False last i \<open>k < 5\<close> by (cases "i = 19") auto
    moreover have "\<not> bit (data ! i) (j + k)" using False ub by blast
    moreover have "k - (8 - j) = j + k - 8" using False j by simp
    ultimately show ?thesis using False by (auto simp: data_bit_def)
  qed
  finally show ?thesis using True by simp
qed (simp add: nix32_value_mask Let_def bit_simps)

lemma nix32_value_less: "unat (nix32_value data n) < 32"
proof -
  have "unat (take_bit 5 v) < 32" for v :: "16 word"
    using take_bit_nat_less_exp [of 5 "unat v"] by (simp add: unsigned_take_bit_eq)
  then show ?thesis by (simp add: nix32_value_mask Let_def)
qed

section \<open>The 160-bit number\<close>

text \<open>The bytes as a little-endian number; the encoding is its base-32 numeral, most significant
  digit first.\<close>

definition hash_number :: "8 word list \<Rightarrow> int" where
  "hash_number data = horner_sum uint 256 data"

lemma bit_hash_number:
  "bit (hash_number data) p \<longleftrightarrow> p div 8 < length data \<and> data_bit data p"
  using bit_horner_sum_uint_exp_iff [of data p] by (simp add: hash_number_def data_bit_def)

lemma nix32_value_digit:
  assumes "length data = 20" and "n < 32"
  shows "int (unat (nix32_value data n)) = hash_number data div 32 ^ n mod 32"
proof -
  have "uint (nix32_value data n) = take_bit 5 (drop_bit (5 * n) (hash_number data))"
  proof (rule bit_eqI)
    fix k
    have "k < 5 \<Longrightarrow> (5 * n + k) div 8 < 20" using assms(2) by linarith
    moreover have "bit (uint (nix32_value data n)) k = bit (nix32_value data n) k"
      using bit_imp_le_length [of "nix32_value data n" k] by (auto simp: bit_uint_iff)
    ultimately show "bit (uint (nix32_value data n)) k
        = bit (take_bit 5 (drop_bit (5 * n) (hash_number data))) k"
      using assms by (auto simp: bit_nix32_value bit_take_bit_iff bit_drop_bit_eq bit_hash_number)
  qed
  also have "\<dots> = hash_number data div 32 ^ n mod 32"
    by (simp add: take_bit_eq_mod drop_bit_eq_div power_mult)
  finally show ?thesis by simp
qed

lemma hash_number_inject:
  assumes "length data = length data'" and "hash_number data = hash_number data'"
  shows "data = data'"
proof (rule nth_equalityI)
  fix i assume i: "i < length data"
  show "data ! i = data' ! i"
  proof (rule bit_word_eqI)
    fix k
    assume "k < LENGTH(8)"
    then have "(8 * i + k) div 8 = i" "(8 * i + k) mod 8 = k" by simp_all
    then show "bit (data ! i) k = bit (data' ! i) k"
      using bit_hash_number [of data "8 * i + k"] bit_hash_number [of data' "8 * i + k"] assms i
      by (simp add: data_bit_def)
  qed
qed (rule assms)

section \<open>The decoder\<close>

definition nix32_digit :: "char \<Rightarrow> nat option" where
  "nix32_digit c = map_of (zip nix32_alphabet [0..<32]) c"

fun nix32_number :: "string \<Rightarrow> int \<Rightarrow> int option" where
  "nix32_number [] n = Some n"
| "nix32_number (c # s) n =
     (case nix32_digit c of None \<Rightarrow> None | Some d \<Rightarrow> nix32_number s (32 * n + int d))"

definition number_bytes :: "int \<Rightarrow> 8 word list" where
  "number_bytes n = map (\<lambda>i. word_of_int (n div 256 ^ i)) [0..<20]"

definition decode_nix32 :: "string \<Rightarrow> 8 word list option" where
  "decode_nix32 s =
     (if length s = 32 then map_option number_bytes (nix32_number s 0) else None)"

lemma length_alphabet [simp]: "length nix32_alphabet = 32"
  by (simp add: nix32_alphabet_def)

lemma distinct_alphabet: "distinct nix32_alphabet"
  by (simp add: nix32_alphabet_def)

lemma nix32_digit_nth [simp]: "d < 32 \<Longrightarrow> nix32_digit (nix32_alphabet ! d) = Some d"
  using map_of_zip_nth [of nix32_alphabet "[0..<32]" d] distinct_alphabet
  by (simp add: nix32_digit_def)

lemma nix32_number_digits:
  "(\<forall>i. f i < 32) \<Longrightarrow> nix32_number (map (\<lambda>i. nix32_alphabet ! f i) (rev [0..<n])) a
     = Some (a * 32 ^ n + (\<Sum>i<n. int (f i) * 32 ^ i))"
  by (induction n arbitrary: a) (simp_all add: algebra_simps)

lemma number_digits: "(\<Sum>i<n. (N div 32 ^ i mod 32) * 32 ^ i) = (N :: int) mod 32 ^ n"
proof (induction n)
  case (Suc n)
  have "N mod (32 ^ n * 32) = 32 ^ n * (N div 32 ^ n mod 32) + N mod 32 ^ n"
    using zmod_zmult2_eq [of 32 N "32 ^ n"] by (simp add: zmod_zmult2_eq)
  with Suc show ?case by (simp add: mult.commute)
qed simp

lemma hash_number_bound: "length data = 20 \<Longrightarrow> hash_number data = hash_number data mod 32 ^ 32"
proof -
  assume "length data = 20"
  then have "hash_number data = take_bit 160 (hash_number data)"
    by (intro bit_eqI) (auto simp: bit_take_bit_iff bit_hash_number)
  then show ?thesis by (simp add: take_bit_eq_mod)
qed

lemma number_bytes_hash: "length data = 20 \<Longrightarrow> number_bytes (hash_number data) = data"
proof (rule nth_equalityI)
  assume len: "length data = 20"
  show "length (number_bytes (hash_number data)) = length data" by (simp add: number_bytes_def len)
  fix i assume "i < length (number_bytes (hash_number data))"
  then have i: "i < 20" by (simp add: number_bytes_def)
  have "word_of_int (hash_number data div 256 ^ i) = data ! i"
  proof (rule bit_word_eqI)
    fix k assume "k < LENGTH(8)"
    then have "k < 8" "(8 * i + k) div 8 = i" "(8 * i + k) mod 8 = k" by simp_all
    moreover have "hash_number data div 256 ^ i = drop_bit (8 * i) (hash_number data)"
      by (simp add: drop_bit_eq_div power_mult)
    ultimately show "bit (word_of_int (hash_number data div 256 ^ i) :: 8 word) k = bit (data ! i) k"
      using i len by (simp add: bit_word_of_int_iff bit_drop_bit_eq bit_hash_number data_bit_def)
  qed
  then show "number_bytes (hash_number data) ! i = data ! i"
    using i by (simp add: number_bytes_def)
qed

lemma decode_encode_nix32:
  assumes "length data = 20" shows "decode_nix32 (encode_nix32 data) = Some data"
proof -
  have "(\<Sum>i<32. int (unat (nix32_value data i)) * 32 ^ i) = hash_number data"
    using number_digits [of "hash_number data" 32] hash_number_bound [OF assms]
    by (simp add: nix32_value_digit [OF assms] del: unat_of_nat int_nat_eq of_nat_unat)
  then have "nix32_number (encode_nix32 data) 0 = Some (hash_number data)"
    by (simp add: encode_nix32_eq nix32_number_digits nix32_value_less)
  then show ?thesis
    by (simp add: decode_nix32_def encode_nix32_eq number_bytes_hash assms)
qed

lemma length_encode_nix32: "length (encode_nix32 data) = 32"
  by (simp add: encode_nix32_eq)

lemma encode_nix32_inject:
  "length data = 20 \<Longrightarrow> length data' = 20 \<Longrightarrow> encode_nix32 data = encode_nix32 data' \<longleftrightarrow> data = data'"
  by (metis decode_encode_nix32 option.inject)

section \<open>Properties\<close>

text \<open>
  C22: the encoding of a 20-byte hash has 32 characters, and they are the base-32 digits, in
  Nix's alphabet and most significant first, of the number the bytes spell in little-endian order.
\<close>

theorem encode_nix32_digits:
  assumes "length data = 20"
  shows "length (encode_nix32 data) = 32 \<and> (\<forall>n < 32. encode_nix32 data ! n =
    nix32_alphabet ! nat (hash_number data div 32 ^ (31 - n) mod 32))"
proof -
  have "unat (nix32_value data i) = nat (hash_number data div 32 ^ i mod 32)" if "i < 32" for i
    using nix32_value_digit [OF assms that] by linarith
  then show ?thesis by (simp add: encode_nix32_eq rev_nth)
qed

lemma encode_nix32_digits_witness:
  "length (encode_nix32 (replicate 20 255)) = 32
   \<and> encode_nix32 (replicate 20 255) ! 0 =
     nix32_alphabet ! nat (hash_number (replicate 20 255) div 32 ^ (31 - 0) mod 32)"
  using encode_nix32_digits [of "replicate 20 255"] by simp

text \<open>
  C21: encoding loses nothing. Decoding the encoding of a 20-byte hash gives the hash back; in
  particular two hashes with the same encoding are equal.
\<close>

theorem nix32_roundtrip:
  assumes "length data = 20"
  shows "decode_nix32 (encode_nix32 data) = Some data"
  using assms by (rule decode_encode_nix32)

lemma nix32_roundtrip_witness:
  "decode_nix32 (encode_nix32 (map of_nat [0..<20])) = Some (map of_nat [0..<20])
   \<and> encode_nix32 (map of_nat [0..<20]) = ''2c91240g1q6hq2qa1440f1h50h1h4080''"
proof
  show "decode_nix32 (encode_nix32 (map of_nat [0..<20])) = Some (map of_nat [0..<20])"
    by (rule nix32_roundtrip) simp
  show "encode_nix32 (map of_nat [0..<20]) = ''2c91240g1q6hq2qa1440f1h50h1h4080''"
    by code_simp
qed

end
