(* ===== verification/System_Id.thy ===== *)
theory System_Id
  imports Prelude
begin

text \<open>
  \<^verbatim>\<open>system.go\<close>: Nix system identifiers. \<^verbatim>\<open>OS\<close> and \<^verbatim>\<open>Arch\<close>
  are open string types with named constants; \<^verbatim>\<open>runtime.GOOS\<close> and
  \<^verbatim>\<open>runtime.GOARCH\<close> are arguments of \<open>default_system\<close>.
\<close>

section \<open>Operating systems and architectures\<close>

type_synonym os = string
type_synonym arch = string

definition OSAIX :: os where "OSAIX = ''aix''"
definition OSAndroid :: os where "OSAndroid = ''android''"
definition OSCygwin :: os where "OSCygwin = ''cygwin''"
definition OSDarwin :: os where "OSDarwin = ''darwin''"
definition OSDragonFly :: os where "OSDragonFly = ''dragonfly''"
definition OSFreeBSD :: os where "OSFreeBSD = ''freebsd''"
definition OSGenode :: os where "OSGenode = ''genode''"
definition OSGHCJS :: os where "OSGHCJS = ''ghcjs''"
definition OSHurd :: os where "OSHurd = ''hurd''"
definition OSIllumos :: os where "OSIllumos = ''illumos''"
definition OSIOS :: os where "OSIOS = ''ios''"
definition OSLinux :: os where "OSLinux = ''linux''"
definition OSMMIXWare :: os where "OSMMIXWare = ''mmixware''"
definition OSNetBSD :: os where "OSNetBSD = ''netbsd''"
definition OSNone :: os where "OSNone = ''none''"
definition OSOpenBSD :: os where "OSOpenBSD = ''openbsd''"
definition OSPlan9 :: os where "OSPlan9 = ''plan9''"
definition OSRedox :: os where "OSRedox = ''redox''"
definition OSSolaris :: os where "OSSolaris = ''solaris''"
definition OSUEFI :: os where "OSUEFI = ''uefi''"
definition OSWasi :: os where "OSWasi = ''wasi''"
definition OSWasip1 :: os where "OSWasip1 = ''wasip1''"
definition OSWindows :: os where "OSWindows = ''windows''"

definition ArchAarch64 :: arch where "ArchAarch64 = ''aarch64''"
definition ArchAarch64BE :: arch where "ArchAarch64BE = ''aarch64_be''"
definition ArchArc :: arch where "ArchArc = ''arc''"
definition ArchArm :: arch where "ArchArm = ''arm''"
definition ArchArmv5tel :: arch where "ArchArmv5tel = ''armv5tel''"
definition ArchArmv6l :: arch where "ArchArmv6l = ''armv6l''"
definition ArchArmv7a :: arch where "ArchArmv7a = ''armv7a''"
definition ArchArmv7l :: arch where "ArchArmv7l = ''armv7l''"
definition ArchAvr :: arch where "ArchAvr = ''avr''"
definition ArchI686 :: arch where "ArchI686 = ''i686''"
definition Arch386 :: arch where "Arch386 = ArchI686"
definition ArchJavascript :: arch where "ArchJavascript = ''javascript''"
definition ArchLoongArch64 :: arch where "ArchLoongArch64 = ''loongarch64''"
definition ArchLoong64 :: arch where "ArchLoong64 = ArchLoongArch64"
definition ArchM68k :: arch where "ArchM68k = ''m68k''"
definition ArchMicroBlaze :: arch where "ArchMicroBlaze = ''microblaze''"
definition ArchMicroBlazeEL :: arch where "ArchMicroBlazeEL = ''microblazeel''"
definition ArchMIPS :: arch where "ArchMIPS = ''mips''"
definition ArchMIPS64 :: arch where "ArchMIPS64 = ''mips64''"
definition ArchMIPS64EL :: arch where "ArchMIPS64EL = ''mips64el''"
definition ArchMIPSEL :: arch where "ArchMIPSEL = ''mipsel''"
definition ArchMIPSLE :: arch where "ArchMIPSLE = ArchMIPSEL"
definition ArchMMIX :: arch where "ArchMMIX = ''mmix''"
definition ArchMSP430 :: arch where "ArchMSP430 = ''msp430''"
definition ArchOR1K :: arch where "ArchOR1K = ''or1k''"
definition ArchPowerPC :: arch where "ArchPowerPC = ''powerpc''"
definition ArchPowerPC64 :: arch where "ArchPowerPC64 = ''powerpc64''"
definition ArchPPC64 :: arch where "ArchPPC64 = ArchPowerPC64"
definition ArchPowerPC64LE :: arch where "ArchPowerPC64LE = ''powerpc64le''"
definition ArchPPC64LE :: arch where "ArchPPC64LE = ArchPowerPC64LE"
definition ArchPowerPCLE :: arch where "ArchPowerPCLE = ''powerpcle''"
definition ArchRISCV32 :: arch where "ArchRISCV32 = ''riscv32''"
definition ArchRISCV64 :: arch where "ArchRISCV64 = ''riscv64''"
definition ArchRX :: arch where "ArchRX = ''rx''"
definition ArchS390 :: arch where "ArchS390 = ''s390''"
definition ArchS390X :: arch where "ArchS390X = ''s390x''"
definition ArchSH4 :: arch where "ArchSH4 = ''sh4''"
definition ArchVC4 :: arch where "ArchVC4 = ''vc4''"
definition ArchWasm32 :: arch where "ArchWasm32 = ''wasm32''"
definition ArchWasm64 :: arch where "ArchWasm64 = ''wasm64''"
definition ArchX86_64 :: arch where "ArchX86_64 = ''x86_64''"

lemmas os_defs = OSAIX_def OSAndroid_def OSCygwin_def OSDarwin_def OSDragonFly_def OSFreeBSD_def
  OSGenode_def OSGHCJS_def OSHurd_def OSIllumos_def OSIOS_def OSLinux_def
  OSMMIXWare_def OSNetBSD_def OSNone_def OSOpenBSD_def OSPlan9_def OSRedox_def
  OSSolaris_def OSUEFI_def OSWasi_def OSWasip1_def OSWindows_def

lemmas arch_defs = Arch386_def ArchAarch64_def ArchAarch64BE_def ArchArc_def ArchArm_def
  ArchArmv5tel_def ArchArmv6l_def ArchArmv7a_def ArchArmv7l_def ArchAvr_def
  ArchI686_def ArchJavascript_def ArchLoong64_def ArchLoongArch64_def ArchM68k_def
  ArchMicroBlaze_def ArchMicroBlazeEL_def ArchMIPS_def ArchMIPS64_def ArchMIPS64EL_def
  ArchMIPSEL_def ArchMIPSLE_def ArchMMIX_def ArchMSP430_def ArchOR1K_def
  ArchPPC64_def ArchPPC64LE_def ArchPowerPC_def ArchPowerPC64_def ArchPowerPC64LE_def
  ArchPowerPCLE_def ArchRISCV32_def ArchRISCV64_def ArchRX_def ArchS390_def
  ArchS390X_def ArchSH4_def ArchVC4_def ArchWasm32_def ArchWasm64_def
  ArchX86_64_def

definition os_constants :: "os list" where
  "os_constants =
   [OSAIX, OSAndroid, OSCygwin, OSDarwin, OSDragonFly, OSFreeBSD, OSGenode, OSGHCJS, OSHurd,
    OSIllumos, OSIOS, OSLinux, OSMMIXWare, OSNetBSD, OSNone, OSOpenBSD, OSPlan9, OSRedox,
    OSSolaris, OSUEFI, OSWasi, OSWasip1, OSWindows]"

definition arch_constants :: "arch list" where
  "arch_constants =
   [Arch386, ArchAarch64, ArchAarch64BE, ArchArc, ArchArm, ArchArmv5tel, ArchArmv6l, ArchArmv7a,
    ArchArmv7l, ArchAvr, ArchI686, ArchJavascript, ArchLoong64, ArchLoongArch64, ArchM68k,
    ArchMicroBlaze, ArchMicroBlazeEL, ArchMIPS, ArchMIPS64, ArchMIPS64EL, ArchMIPSEL, ArchMIPSLE,
    ArchMMIX, ArchMSP430, ArchOR1K, ArchPPC64, ArchPPC64LE, ArchPowerPC, ArchPowerPC64,
    ArchPowerPC64LE, ArchPowerPCLE, ArchRISCV32, ArchRISCV64, ArchRX, ArchS390, ArchS390X,
    ArchSH4, ArchVC4, ArchWasm32, ArchWasm64, ArchX86_64]"

text \<open>\<^verbatim>\<open>OS.String\<close> and \<^verbatim>\<open>Arch.String\<close>.\<close>

definition os_string :: "os \<Rightarrow> string" where "os_string s = s"

definition arch_string :: "arch \<Rightarrow> string" where "arch_string a = a"

section \<open>From Go's names to Nix's\<close>

definition make_os :: "string \<Rightarrow> os" where
  "make_os goos =
    (if goos = ''aix'' then OSAIX
     else if goos = ''android'' then OSAndroid
     else if goos = ''darwin'' then OSDarwin
     else if goos = ''dragonfly'' then OSDragonFly
     else if goos = ''freebsd'' then OSFreeBSD
     else if goos = ''hurd'' then OSHurd
     else if goos = ''illumos'' then OSIllumos
     else if goos = ''ios'' then OSIOS
     else if goos = ''linux'' then OSLinux
     else if goos = ''netbsd'' then OSNetBSD
     else if goos = ''openbsd'' then OSOpenBSD
     else if goos = ''plan9'' then OSPlan9
     else if goos = ''solaris'' then OSSolaris
     else if goos = ''wasip1'' then OSWasi
     else if goos = ''windows'' then OSWindows
     else goos)"

definition make_arch :: "string \<Rightarrow> arch" where
  "make_arch goarch =
    (if goarch = ''386'' then ArchI686
     else if goarch = ''amd64'' then ArchX86_64
     else if goarch = ''arm'' then ArchArm
     else if goarch = ''arm64'' then ArchAarch64
     else if goarch = ''loong64'' then ArchLoongArch64
     else if goarch = ''mips'' then ArchMIPS
     else if goarch = ''mipsle'' then ArchMIPSEL
     else if goarch = ''mips64'' then ArchMIPS64
     else if goarch = ''mips64le'' then ArchMIPS64EL
     else if goarch = ''ppc64'' then ArchPowerPC64
     else if goarch = ''ppc64le'' then ArchPowerPC64LE
     else if goarch = ''riscv64'' then ArchRISCV64
     else if goarch = ''s390x'' then ArchS390X
     else if goarch = ''wasm'' then ArchWasm32
     else goarch)"

definition make_system :: "os \<Rightarrow> arch \<Rightarrow> string" where
  "make_system os arch = arch_string arch @ ''-'' @ os_string os"

definition default_system :: "string \<Rightarrow> string \<Rightarrow> string" where
  "default_system goos goarch =
     (if goos = ''js'' \<and> goarch = ''wasm''
      then arch_string ArchJavascript @ ''-'' @ os_string OSGHCJS
      else make_system (make_os goos) (make_arch goarch))"

text \<open>The names the two switches know.\<close>

definition go_oses :: "string list" where
  "go_oses =
   [''aix'', ''android'', ''darwin'', ''dragonfly'', ''freebsd'', ''hurd'', ''illumos'', ''ios'',
    ''linux'', ''netbsd'', ''openbsd'', ''plan9'', ''solaris'', ''wasip1'', ''windows'']"

definition go_archs :: "string list" where
  "go_archs =
   [''386'', ''amd64'', ''arm'', ''arm64'', ''loong64'', ''mips'', ''mipsle'', ''mips64'',
    ''mips64le'', ''ppc64'', ''ppc64le'', ''riscv64'', ''s390x'', ''wasm'']"

section \<open>Properties\<close>

lemma distinct_map_inj: "distinct (map f xs) \<Longrightarrow> inj_on f (set xs)"
  by (simp add: distinct_map)

lemma make_os_inj: "inj_on make_os (set go_oses)"
  by (rule distinct_map_inj) code_simp

lemma make_arch_inj: "inj_on make_arch (set go_archs)"
  by (rule distinct_map_inj) code_simp

lemma make_os_constants: "list_all (\<lambda>g. make_os g \<in> set os_constants) go_oses"
  by code_simp

lemma make_arch_constants: "list_all (\<lambda>g. make_arch g \<in> set arch_constants) go_archs"
  by code_simp

lemma arch_no_dash: "list_all (\<lambda>a. CHR ''-'' \<notin> set a) arch_constants"
  by code_simp

lemma make_os_idem: "make_os (make_os s) = make_os s"
  by (simp add: make_os_def os_defs)

lemma make_arch_idem: "make_arch (make_arch s) = make_arch s"
  by (simp add: make_arch_def arch_defs)

text \<open>The architecture is what precedes the first dash, so a system identifier can be taken apart.\<close>

lemma split_at_dash:
  "CHR ''-'' \<notin> set a \<Longrightarrow> CHR ''-'' \<notin> set b \<Longrightarrow>
   a @ CHR ''-'' # s = b @ CHR ''-'' # t \<longleftrightarrow> a = b \<and> s = t"
  by (induction a arbitrary: b) (case_tac b; auto)+

lemma make_system_inject:
  assumes "a \<in> set arch_constants" "b \<in> set arch_constants"
  shows "make_system s a = make_system t b \<longleftrightarrow> s = t \<and> a = b"
  using assms arch_no_dash
  by (auto simp: make_system_def arch_string_def os_string_def split_at_dash list_all_iff)

text \<open>
  The system identifier of a platform is unique to it. Two of the platforms Go knows get
  the same \<^verbatim>\<open>DefaultSystem\<close> only if both their \<^verbatim>\<open>GOOS\<close> and their
  \<^verbatim>\<open>GOARCH\<close> are the same.
\<close>

theorem default_system_inject:
  assumes "o1 \<in> set go_oses" "a1 \<in> set go_archs" "o2 \<in> set go_oses" "a2 \<in> set go_archs"
    and "default_system o1 a1 = default_system o2 a2"
  shows "o1 = o2 \<and> a1 = a2"
proof -
  have "os \<in> set go_oses \<Longrightarrow> os \<noteq> ''js''" for os by (auto simp: go_oses_def)
  with assms have "make_system (make_os o1) (make_arch a1) = make_system (make_os o2) (make_arch a2)"
    by (simp add: default_system_def)
  moreover have "make_arch a1 \<in> set arch_constants" "make_arch a2 \<in> set arch_constants"
    using make_arch_constants assms by (auto simp: list_all_iff)
  ultimately have "make_os o1 = make_os o2" "make_arch a1 = make_arch a2"
    by (simp_all add: make_system_inject)
  then show ?thesis
    using assms make_os_inj make_arch_inj by (auto dest: inj_onD)
qed

lemma default_system_inject_witness:
  "\<not> (default_system ''linux'' ''amd64'' = default_system ''linux'' ''arm64'')
   \<and> default_system ''darwin'' ''arm64'' = ''aarch64-darwin''"
proof -
  have "default_system ''linux'' ''amd64'' \<noteq> default_system ''linux'' ''arm64''"
  proof
    assume "default_system ''linux'' ''amd64'' = default_system ''linux'' ''arm64''"
    then have "''linux'' = ''linux'' \<and> ''amd64'' = ''arm64''"
      by (intro default_system_inject) (simp_all add: go_oses_def go_archs_def)
    then show False by simp
  qed
  moreover have "default_system ''darwin'' ''arm64'' = ''aarch64-darwin''" by code_simp
  ultimately show ?thesis by simp
qed

end
