(* ===== verification/Json.thy ===== *)
theory Json
  imports Prelude
begin

text \<open>
  The values of \<^verbatim>\<open>encoding/json\<close>. What \<^verbatim>\<open>json.Marshal\<close> writes and
  \<^verbatim>\<open>json.Unmarshal\<close> reads is modelled by the syntax tree of the document; the concrete
  syntax (escapes, spacing) belongs to the standard library and is left out, with one exception
  that changes data: \<^verbatim>\<open>Marshal\<close> replaces every byte of a string that is not part of a
  valid UTF-8 encoding by the encoding of U+FFFD.
\<close>

datatype json =
    JNull
  | JBool bool
  | JNum string
  | JStr string
  | JArr "json list"
  | JObj "(string \<times> json) list"

section \<open>UTF-8\<close>

definition byte_in :: "nat \<Rightarrow> nat \<Rightarrow> char \<Rightarrow> bool" where
  "byte_in lo hi c \<longleftrightarrow> lo \<le> of_char c \<and> of_char c \<le> hi"

text \<open>The number of bytes \<^verbatim>\<open>utf8.DecodeRuneInString\<close> reads as a valid rune at the start
  of \<open>s\<close>, 0 if there is none.\<close>

definition rune_length :: "string \<Rightarrow> nat" where
  "rune_length s =
     (case s of
        [] \<Rightarrow> 0
      | a # s1 \<Rightarrow>
          if byte_in 0 0x7F a then 1
          else (case s1 of
            [] \<Rightarrow> 0
          | b # s2 \<Rightarrow>
              if byte_in 0xC2 0xDF a \<and> byte_in 0x80 0xBF b then 2
              else (case s2 of
                [] \<Rightarrow> 0
              | c # s3 \<Rightarrow>
                  if byte_in 0x80 0xBF c \<and>
                     (byte_in 0xE0 0xE0 a \<and> byte_in 0xA0 0xBF b \<or>
                      byte_in 0xE1 0xEC a \<and> byte_in 0x80 0xBF b \<or>
                      byte_in 0xED 0xED a \<and> byte_in 0x80 0x9F b \<or>
                      byte_in 0xEE 0xEF a \<and> byte_in 0x80 0xBF b) then 3
                  else (case s3 of
                    [] \<Rightarrow> 0
                  | d # s4 \<Rightarrow>
                      if byte_in 0x80 0xBF c \<and> byte_in 0x80 0xBF d \<and>
                         (byte_in 0xF0 0xF0 a \<and> byte_in 0x90 0xBF b \<or>
                          byte_in 0xF1 0xF3 a \<and> byte_in 0x80 0xBF b \<or>
                          byte_in 0xF4 0xF4 a \<and> byte_in 0x80 0x8F b) then 4
                      else 0))))"

definition replacement :: string where
  "replacement = [byte 0xEF, byte 0xBF, byte 0xBD]"

text \<open>The string that is read back after a string was marshalled.\<close>

function coerce_utf8 :: "string \<Rightarrow> string" where
  "coerce_utf8 [] = []"
| "coerce_utf8 (c # s) =
     (let n = rune_length (c # s) in
      if n = 0 then replacement @ coerce_utf8 s
      else take n (c # s) @ coerce_utf8 (drop n (c # s)))"
  by pat_completeness auto
termination
  by (relation "measure length") (auto simp: Let_def)

declare coerce_utf8.simps(2) [simp del]

function valid_utf8 :: "string \<Rightarrow> bool" where
  "valid_utf8 [] = True"
| "valid_utf8 (c # s) =
     (let n = rune_length (c # s) in n \<noteq> 0 \<and> valid_utf8 (drop (n - 1) s))"
  by pat_completeness auto
termination
  by (relation "measure length") (auto simp: Let_def)

declare valid_utf8.simps(2) [simp del]

lemma coerce_valid: "valid_utf8 s \<Longrightarrow> coerce_utf8 s = s"
proof (induction s rule: coerce_utf8.induct)
  case (2 c s)
  then have "rune_length (c # s) \<noteq> 0" by (auto simp: valid_utf8.simps Let_def)
  moreover from this have "drop (rune_length (c # s)) (c # s) = drop (rune_length (c # s) - 1) s"
    by (simp add: drop_Cons')
  ultimately show ?case
    using 2 append_take_drop_id [of "rune_length (c # s)" "c # s"]
    by (simp add: coerce_utf8.simps valid_utf8.simps Let_def)
qed simp

lemma rune_length_ascii: "byte_in 0 0x7F c \<Longrightarrow> rune_length (c # s) = 1"
  by (simp add: rune_length_def)

lemma valid_ascii: "(\<forall>c \<in> set s. byte_in 0 0x7F c) \<Longrightarrow> valid_utf8 s"
  by (induction s) (simp_all add: valid_utf8.simps rune_length_ascii)

text \<open>A marshalled tree as it is read back: every string and every key coerced.\<close>

fun coerce_json :: "json \<Rightarrow> json" where
  "coerce_json (JStr s) = JStr (coerce_utf8 s)"
| "coerce_json (JArr xs) = JArr (map coerce_json xs)"
| "coerce_json (JObj kvs) = JObj (map (\<lambda>(k, v). (coerce_utf8 k, coerce_json v)) kvs)"
| "coerce_json v = v"

end
