(* ===== verification/Store_Config.thy ===== *)
theory Store_Config
  imports Json "HOL-Library.Sublist"
begin

text \<open>
  \<^verbatim>\<open>store/config.go\<close>, \<^verbatim>\<open>store/store_options.go\<close> and
  \<^verbatim>\<open>store/const.go\<close>: the typed store settings, the options that set them, and
  \<^verbatim>\<open>Params\<close>, which turns them into Nix store parameters by way of JSON.
\<close>

section \<open>Backend names\<close>

definition DefaultDir :: string where "DefaultDir = ''/nix/store''"
definition Auto :: string where "Auto = ''auto''"
definition Local :: string where "Local = ''local''"
definition Daemon :: string where "Daemon = ''daemon''"
definition Dummy :: string where "Dummy = ''dummy://''"
definition Unix :: string where "Unix = ''unix://''"
definition File :: string where "File = ''file://''"
definition HTTP :: string where "HTTP = ''http://''"
definition HTTPS :: string where "HTTPS = ''https://''"
definition SSH :: string where "SSH = ''ssh://''"
definition SSHNG :: string where "SSHNG = ''ssh-ng://''"
definition MountedSSH :: string where "MountedSSH = ''mounted-ssh://''"
definition S3 :: string where "S3 = ''s3://''"

section \<open>Config\<close>

record store_config =
  StoreDir :: string
  PathInfoCacheSize :: int
  Trusted :: bool
  Priority :: int
  WantMassQuery :: bool
  SystemFeatures :: "string list"
  ReadOnly :: bool
  BuildDir :: string
  LogDir :: string
  RealStoreDir :: string
  RequireSignatures :: bool
  RootDir :: string
  StateDir :: string

definition zero_config :: store_config where
  "zero_config = \<lparr>StoreDir = '''', PathInfoCacheSize = 0, Trusted = False, Priority = 0,
     WantMassQuery = False, SystemFeatures = [], ReadOnly = False, BuildDir = '''', LogDir = '''',
     RealStoreDir = '''', RequireSignatures = False, RootDir = '''', StateDir = ''''\<rparr>"

text \<open>An option mutates the configuration.\<close>

type_synonym store_option = "store_config \<Rightarrow> store_config"

definition WithStoreDir :: "string \<Rightarrow> store_option" where
  "WithStoreDir path c = c\<lparr>StoreDir := path\<rparr>"

definition WithPathInfoCacheSize :: "int \<Rightarrow> store_option" where
  "WithPathInfoCacheSize n c = c\<lparr>PathInfoCacheSize := n\<rparr>"

definition WithTrusted :: "bool \<Rightarrow> store_option" where
  "WithTrusted trusted c = c\<lparr>Trusted := trusted\<rparr>"

definition WithPriority :: "int \<Rightarrow> store_option" where
  "WithPriority priority c = c\<lparr>Priority := priority\<rparr>"

definition WithWantMassQuery :: "bool \<Rightarrow> store_option" where
  "WithWantMassQuery want c = c\<lparr>WantMassQuery := want\<rparr>"

definition WithSystemFeatures :: "string list \<Rightarrow> store_option" where
  "WithSystemFeatures features c = c\<lparr>SystemFeatures := features\<rparr>"

definition WithReadOnly :: "bool \<Rightarrow> store_option" where
  "WithReadOnly read_only c = c\<lparr>ReadOnly := read_only\<rparr>"

definition WithBuildDir :: "string \<Rightarrow> store_option" where
  "WithBuildDir path c = c\<lparr>BuildDir := path\<rparr>"

definition WithLogDir :: "string \<Rightarrow> store_option" where
  "WithLogDir path c = c\<lparr>LogDir := path\<rparr>"

definition WithRealStoreDir :: "string \<Rightarrow> store_option" where
  "WithRealStoreDir path c = c\<lparr>RealStoreDir := path\<rparr>"

definition WithRequireSignatures :: "bool \<Rightarrow> store_option" where
  "WithRequireSignatures require c = c\<lparr>RequireSignatures := require\<rparr>"

definition WithRootDir :: "string \<Rightarrow> store_option" where
  "WithRootDir path c = c\<lparr>RootDir := path\<rparr>"

definition WithStateDir :: "string \<Rightarrow> store_option" where
  "WithStateDir path c = c\<lparr>StateDir := path\<rparr>"

definition apply_options :: "('c \<Rightarrow> 'c) list \<Rightarrow> 'c \<Rightarrow> 'c" where
  "apply_options opts c = foldl (\<lambda>c opt. opt c) c opts"

section \<open>Params\<close>

text \<open>The fields a struct tag with \<^verbatim>\<open>omitempty\<close> leaves out.\<close>

definition omit_string :: "string \<Rightarrow> string \<Rightarrow> (string \<times> json) list" where
  "omit_string k s = (if s = '''' then [] else [(k, JStr s)])"

definition omit_int :: "string \<Rightarrow> int \<Rightarrow> (string \<times> json) list" where
  "omit_int k i = (if i = 0 then [] else [(k, JNum (itoa i))])"

definition omit_bool :: "string \<Rightarrow> bool \<Rightarrow> (string \<times> json) list" where
  "omit_bool k b = (if b then [(k, JBool True)] else [])"

definition omit_strings :: "string \<Rightarrow> string list \<Rightarrow> (string \<times> json) list" where
  "omit_strings k xs = (if xs = [] then [] else [(k, JArr (map JStr xs))])"

definition marshal_config :: "store_config \<Rightarrow> json" where
  "marshal_config c = JObj
     (omit_string ''store'' (StoreDir c) @
      omit_int ''path-info-cache-size'' (PathInfoCacheSize c) @
      omit_bool ''trusted'' (Trusted c) @
      omit_int ''priority'' (Priority c) @
      omit_bool ''want-mass-query'' (WantMassQuery c) @
      omit_strings ''system-features'' (SystemFeatures c) @
      omit_bool ''read-only'' (ReadOnly c) @
      omit_string ''build-dir'' (BuildDir c) @
      omit_string ''log'' (LogDir c) @
      omit_string ''real'' (RealStoreDir c) @
      omit_bool ''require-sigs'' (RequireSignatures c) @
      omit_string ''root'' (RootDir c) @
      omit_string ''state'' (StateDir c))"

text \<open>\<^verbatim>\<open>fmt.Sprintf("%s", v)\<close> for a decoded JSON value, which the \<^verbatim>\<open>default\<close> branch of
  \<^verbatim>\<open>stringParam\<close> uses for objects. Maps print in key order.\<close>

fun sprint_s :: "json \<Rightarrow> string" where
  "sprint_s JNull = ''%!s(<nil>)''"
| "sprint_s (JBool b) = ''%!s(bool='' @ format_bool b @ '')''"
| "sprint_s (JNum n) = n"
| "sprint_s (JStr s) = s"
| "sprint_s (JArr xs) = ''['' @ join_with '' '' (map sprint_s xs) @ '']''"
| "sprint_s (JObj kvs) =
     ''map['' @ join_with '' '' (map snd (sort_key fst (map (\<lambda>(k, v). (k, k @ '':'' @ sprint_s v)) kvs))) @ '']''"

fun string_param :: "json \<Rightarrow> string" where
  "string_param JNull = ''''"
| "string_param (JStr s) = s"
| "string_param (JBool b) = format_bool b"
| "string_param (JNum n) = n"
| "string_param (JArr xs) = join_with '' '' (map string_param xs)"
| "string_param (JObj kvs) = sprint_s (JObj kvs)"

text \<open>\<^verbatim>\<open>Params\<close>: marshal, decode into a map, convert. The two error returns cannot happen
  for this struct, whose marshalled form always decodes into an object.\<close>

definition config_params :: "store_config \<Rightarrow> (string \<times> string) list" where
  "config_params c =
     (case coerce_json (marshal_config c) of
        JObj values \<Rightarrow> map (\<lambda>(k, v). (k, string_param v)) values
      | _ \<Rightarrow> [])"

section \<open>What Params returns\<close>

text \<open>The parameters as documented: one entry for each field that is not zero, booleans as
  \<^verbatim>\<open>true\<close>, numbers in decimal, lists joined with spaces.\<close>

definition documented_params :: "store_config \<Rightarrow> (string \<times> string) list" where
  "documented_params c =
     (let str = (\<lambda>k s. if s = '''' then [] else [(k, s)]);
          num = (\<lambda>k i. if i = (0::int) then [] else [(k, itoa i)]);
          flag = (\<lambda>k b. if b then [(k, ''true'')] else [])
      in str ''store'' (StoreDir c) @ num ''path-info-cache-size'' (PathInfoCacheSize c) @
         flag ''trusted'' (Trusted c) @ num ''priority'' (Priority c) @
         flag ''want-mass-query'' (WantMassQuery c) @
         (if SystemFeatures c = [] then []
          else [(''system-features'', join_with '' '' (SystemFeatures c))]) @
         flag ''read-only'' (ReadOnly c) @ str ''build-dir'' (BuildDir c) @ str ''log'' (LogDir c) @
         str ''real'' (RealStoreDir c) @ flag ''require-sigs'' (RequireSignatures c) @
         str ''root'' (RootDir c) @ str ''state'' (StateDir c))"

definition config_strings :: "store_config \<Rightarrow> string list" where
  "config_strings c =
     [StoreDir c, BuildDir c, LogDir c, RealStoreDir c, RootDir c, StateDir c] @ SystemFeatures c"

lemma coerce_key: "list_all (\<lambda>k. coerce_utf8 k = k)
   [''store'', ''path-info-cache-size'', ''trusted'', ''priority'', ''want-mass-query'',
    ''system-features'', ''read-only'', ''build-dir'', ''log'', ''real'', ''require-sigs'', ''root'',
    ''state'']"
  by code_simp

text \<open>
  C35: for settings in valid UTF-8, \<^verbatim>\<open>Params\<close> is exactly the documented list of
  parameters; the detour through JSON changes nothing.
\<close>

theorem config_params_documented:
  assumes "\<forall>s \<in> set (config_strings c). valid_utf8 s"
  shows "config_params c = documented_params c"
proof -
  have id: "coerce_utf8 s = s" if "s \<in> set (config_strings c)" for s
    using that assms by (simp add: coerce_valid)
  have "map (\<lambda>s. coerce_utf8 s) (SystemFeatures c) = SystemFeatures c"
    using id by (intro map_idI) (simp add: config_strings_def)
  with id coerce_key show ?thesis
    by (simp add: config_params_def documented_params_def marshal_config_def omit_string_def
        omit_int_def omit_bool_def omit_strings_def config_strings_def Let_def format_bool_def comp_def)
qed

lemma config_params_documented_witness:
  "config_params (WithSystemFeatures [''kvm'', ''big-parallel''] (WithTrusted True zero_config))
   = [(''trusted'', ''true''), (''system-features'', ''kvm big-parallel'')]"
  by (subst config_params_documented)
    (simp_all add: config_strings_def WithSystemFeatures_def WithTrusted_def zero_config_def
      valid_ascii byte_in_def documented_params_def)

text \<open>The names of the parameters, in the order of the fields.\<close>

definition config_keys :: "string list" where
  "config_keys =
     [''store''] @ [''path-info-cache-size''] @ [''trusted''] @ [''priority''] @
     [''want-mass-query''] @ [''system-features''] @ [''read-only''] @ [''build-dir''] @ [''log''] @
     [''real''] @ [''require-sigs''] @ [''root''] @ [''state'']"

lemma subseq_distinct: "subseq xs ys \<Longrightarrow> distinct ys \<Longrightarrow> distinct xs"
  by (metis subseqs_distinctD subseqs_refl in_set_subseqs)

lemma subseq_subset: "subseq xs ys \<Longrightarrow> set xs \<subseteq> set ys"
  using subseqs_powset [of ys] by (metis PowD image_eqI in_set_subseqs)

lemma distinct_config_keys: "distinct config_keys"
  by code_simp

lemma omit_keys:
  "subseq (map fst (omit_string k s)) [k]" "subseq (map fst (omit_int k i)) [k]"
  "subseq (map fst (omit_bool k b)) [k]" "subseq (map fst (omit_strings k xs)) [k]"
  by (simp_all add: omit_string_def omit_int_def omit_bool_def omit_strings_def)

lemma config_params_keys:
  "map fst (config_params c) = map coerce_utf8 (case marshal_config c of JObj kvs \<Rightarrow> map fst kvs)"
  by (simp add: config_params_def marshal_config_def comp_def case_prod_beta)

text \<open>
  No parameter is given twice and none is invented: whatever the settings are, the names in
  \<^verbatim>\<open>Params\<close> are among those of the fields, each at most once.
\<close>

theorem config_params_distinct:
  "distinct (map fst (config_params c)) \<and> set (map fst (config_params c)) \<subseteq> set config_keys"
proof -
  have "subseq (case marshal_config c of JObj kvs \<Rightarrow> map fst kvs) config_keys"
    unfolding marshal_config_def config_keys_def map_append json.case
    by (intro list_emb_append_mono omit_keys)
  then have "subseq (map fst (config_params c)) (map coerce_utf8 config_keys)"
    unfolding config_params_keys by (rule subseq_map)
  also have "map coerce_utf8 config_keys = config_keys"
    using coerce_key by (simp add: config_keys_def)
  finally show ?thesis
    by (meson subseq_distinct subseq_subset distinct_config_keys)
qed

text \<open>Options that set different fields commute; the last option on a field wins.\<close>

lemma apply_options_append: "apply_options (os @ os') c = apply_options os' (apply_options os c)"
  by (simp add: apply_options_def)

lemma apply_options_Cons [simp]: "apply_options (opt # opts) c = apply_options opts (opt c)"
  by (simp add: apply_options_def)

lemma apply_options_Nil [simp]: "apply_options [] c = c"
  by (simp add: apply_options_def)

end
