(* ===== verification/Go_Fields.thy ===== *)
theory Go_Fields
  imports Prelude
begin

text \<open>
  \<^verbatim>\<open>strings.Fields\<close> and \<^verbatim>\<open>strings.Join\<close> with a space are inverse to each other on
  lists of solid fields: nonempty strings without white space. The lemmas here carry the theorems
  about Nix list settings.
\<close>

definition solid :: "string \<Rightarrow> bool" where
  "solid f \<longleftrightarrow> f \<noteq> [] \<and> (\<forall>i < length f. leading_space (drop i f) = 0)"

definition space :: string where
  "space = [byte 32]"

lemma space_eq: "space = '' ''"
  by code_simp

lemma space_rune_bytes:
  "e \<in> set space_runes \<Longrightarrow> e \<noteq> [] \<and> byte 32 \<notin> set (tl e)"
proof -
  have "list_all (\<lambda>e. e \<noteq> [] \<and> byte 32 \<notin> set (tl e)) space_runes"
    by code_simp
  then show "e \<in> set space_runes \<Longrightarrow> e \<noteq> [] \<and> byte 32 \<notin> set (tl e)"
    by (simp add: list_all_iff)
qed

lemma leading_space_0: "leading_space s = 0 \<longleftrightarrow> (\<forall>e \<in> set space_runes. \<not> starts_with e s)"
  using space_rune_bytes by (auto simp: leading_space_def find_None_iff find_Some_iff split: option.splits)

lemma starts_with_iff: "starts_with p s \<longleftrightarrow> (\<exists>t. s = p @ t)"
  by (induction p s rule: starts_with.induct) auto

lemma leading_space_append_0: "leading_space (s @ t) = 0 \<Longrightarrow> leading_space s = 0"
  by (auto simp: leading_space_0 starts_with_iff)

text \<open>No white space rune straddles the border between a solid piece and a space.\<close>

lemma leading_space_border:
  assumes "leading_space s = 0" and "s \<noteq> []"
  shows "leading_space (s @ byte 32 # t) = 0"
  unfolding leading_space_0
proof (intro ballI notI)
  fix e assume e: "e \<in> set space_runes" and "starts_with e (s @ byte 32 # t)"
  then obtain u where u: "s @ byte 32 # t = e @ u" by (auto simp: starts_with_iff)
  have "\<not> starts_with e s" using assms(1) e by (simp add: leading_space_0)
  with u obtain v where "e = s @ byte 32 # v"
    by (auto simp: append_eq_append_conv2 starts_with_iff Cons_eq_append_conv)
  with assms(2) have "byte 32 \<in> set (tl e)" by (cases s) auto
  with e show False using space_rune_bytes by blast
qed

lemma space_rune_head: "e \<in> set space_runes \<Longrightarrow> e = [byte 32] \<or> hd e \<noteq> byte 32"
proof -
  have "list_all (\<lambda>e. e = [byte 32] \<or> hd e \<noteq> byte 32) space_runes"
    by code_simp
  then show "e \<in> set space_runes \<Longrightarrow> e = [byte 32] \<or> hd e \<noteq> byte 32"
    by (simp add: list_all_iff)
qed

lemma leading_space_32: "leading_space (byte 32 # s) = 1"
proof -
  have rune: "starts_with e (byte 32 # t) \<longleftrightarrow> e = [byte 32]" if "e \<in> set space_runes" for e t
    using space_rune_head [OF that] space_rune_bytes [OF that] by (cases e) auto
  have "List.find (\<lambda>e. starts_with e (byte 32 # s)) space_runes =
      List.find (\<lambda>e. starts_with e [byte 32]) space_runes"
    by (intro find_cong) (simp_all add: rune)
  moreover have "leading_space [byte 32] = 1" by code_simp
  ultimately show ?thesis by (simp add: leading_space_def)
qed

lemma solid_drop: "solid f \<Longrightarrow> i < length f \<Longrightarrow> solid (drop i f)"
  by (auto simp: solid_def)

text \<open>Every field is solid.\<close>

lemma fields_aux_solid:
  assumes "\<forall>i < length acc. leading_space (drop i (rev acc @ s)) = 0" "x \<in> set (fields_aux acc s)"
  shows "solid x"
  using assms
proof (induction acc s arbitrary: x rule: fields_aux.induct)
  case (1 acc)
  then show ?case by (auto simp: solid_def split: if_splits)
next
  case (2 acc c s)
  define n where "n = leading_space (c # s)"
  have acc: "solid (rev acc)" if "acc \<noteq> []"
    unfolding solid_def
  proof (intro conjI allI impI)
    fix i assume i: "i < length (rev acc)"
    then have "leading_space (drop i (rev acc) @ (c # s)) = 0"
      using 2(4) by (metis append_eq_conv_conj drop_append diff_is_0_eq' drop0 length_rev less_imp_le)
    then show "leading_space (drop i (rev acc)) = 0" by (rule leading_space_append_0)
  qed (use that in simp)
  show ?case
  proof (cases "n = 0")
    case True
    then have "x \<in> set (fields_aux (c # acc) s)"
      using 2(5) by (simp add: fields_aux.simps(2) n_def)
    moreover have "\<forall>i < length (c # acc). leading_space (drop i (rev (c # acc) @ s)) = 0"
      using 2(4) True by (auto simp: n_def less_Suc_eq)
    ultimately show ?thesis
      using 2(1) [OF n_def True] by blast
  next
    case False
    show ?thesis
    proof (cases "acc = []")
      case True
      then have "x \<in> set (fields_aux [] (drop n (c # s)))"
        using 2(5) False by (simp add: fields_aux.simps(2) n_def Let_def)
      then show ?thesis using 2(2) [OF n_def False True] by simp
    next
      case nonempty: False
      then have "x = rev acc \<or> x \<in> set (fields_aux [] (drop n (c # s)))"
        using 2(5) False by (simp add: fields_aux.simps(2) n_def Let_def)
      then show ?thesis using 2(3) [OF n_def False nonempty] acc [OF nonempty] by auto
    qed
  qed
qed

lemma fields_solid: "x \<in> set (split_fields s) \<Longrightarrow> solid x"
  using fields_aux_solid [of "[]" s x] by (simp add: split_fields_def)

text \<open>Fields are read back from a joined list.\<close>

lemma fields_aux_solid_append:
  assumes "f = [] \<or> solid f" "acc \<noteq> [] \<or> f \<noteq> []"
  shows "fields_aux acc (f @ byte 32 # t) = (rev acc @ f) # fields_aux [] t"
  using assms
proof (induction f arbitrary: acc)
  case Nil
  then show ?case using leading_space_32 [of t] by (simp add: fields_aux.simps(2))
next
  case (Cons c f)
  then have "leading_space (c # f) = 0" by (auto simp: solid_def)
  then have "leading_space (c # f @ byte 32 # t) = 0"
    using leading_space_border [of "c # f" t] by simp
  moreover have "f = [] \<or> solid f" using Cons.prems solid_drop [of "c # f" 1] by auto
  ultimately show ?case using Cons.IH [of "c # acc"] by (simp add: fields_aux.simps(2))
qed

lemma fields_aux_solid_end:
  assumes "f = [] \<or> solid f" "acc \<noteq> [] \<or> f \<noteq> []"
  shows "fields_aux acc f = [rev acc @ f]"
  using assms
proof (induction f arbitrary: acc)
  case (Cons c f)
  then have "leading_space (c # f) = 0" by (auto simp: solid_def)
  moreover have "f = [] \<or> solid f" using Cons.prems solid_drop [of "c # f" 1] by auto
  ultimately show ?case using Cons.IH [of "c # acc"] by (simp add: fields_aux.simps(2))
qed simp

theorem fields_join: "\<forall>f \<in> set fs. solid f \<Longrightarrow> split_fields (join_with '' '' fs) = fs"
proof (induction "'' ''" fs rule: join_with.induct)
  case (2 x)
  then show ?case
    using fields_aux_solid_end [of x "[]"] by (simp add: split_fields_def solid_def)
next
  case (3 x y ys)
  then show ?case
    using fields_aux_solid_append [of x "[]" "join_with '' '' (y # ys)"] space_eq
    by (simp add: split_fields_def solid_def space_def)
qed (simp add: split_fields_def)

section \<open>Printable ASCII\<close>

text \<open>Strings of printable ASCII characters are solid; this decides concrete cases quickly.\<close>

definition graphic :: "char \<Rightarrow> bool" where
  "graphic c \<longleftrightarrow> (33::nat) \<le> of_char c \<and> of_char c \<le> (126::nat)"

lemma space_rune_not_graphic: "e \<in> set space_runes \<Longrightarrow> e \<noteq> [] \<and> \<not> graphic (hd e)"
proof -
  have "list_all (\<lambda>e. e \<noteq> [] \<and> \<not> graphic (hd e)) space_runes"
    by code_simp
  then show "e \<in> set space_runes \<Longrightarrow> e \<noteq> [] \<and> \<not> graphic (hd e)"
    by (simp add: list_all_iff)
qed

lemma leading_space_graphic: "graphic c \<Longrightarrow> leading_space (c # s) = 0"
  unfolding leading_space_0
proof (intro ballI notI)
  fix e assume "graphic c" "e \<in> set space_runes" "starts_with e (c # s)"
  then show False using space_rune_not_graphic [of e] by (cases e) auto
qed

lemma solid_graphic:
  assumes "f \<noteq> []" "\<forall>c \<in> set f. graphic c"
  shows "solid f"
  unfolding solid_def
proof (intro conjI allI impI)
  fix i assume i: "i < length f"
  then have "drop i f = f ! i # drop (Suc i) f" by (simp add: Cons_nth_drop_Suc)
  moreover have "graphic (f ! i)" using assms(2) i by simp
  ultimately show "leading_space (drop i f) = 0" by (simp add: leading_space_graphic)
qed (rule assms)

lemma split_fields_solid: "solid f \<Longrightarrow> split_fields f = [f]"
  using fields_join [of "[f]"] by simp

end
