(* ===== verification/Go_Error.thy ===== *)
theory Go_Error
  imports Prelude
begin

text \<open>
  Go errors as values: the sentinel errors of the packages, the structured errors
  (\<^verbatim>\<open>NixError\<close>, \<^verbatim>\<open>ValueTypeError\<close>, the unmarshalling errors), the wrapping done by
  \<^verbatim>\<open>fmt.Errorf\<close> with \<^verbatim>\<open>%w\<close> and the joining done by \<^verbatim>\<open>errors.Join\<close>;
  \<open>errors_is\<close> is \<^verbatim>\<open>errors.Is\<close> for a sentinel. The reflected Go types that
  the unmarshalling errors mention are here too.
\<close>

section \<open>Reflected types\<close>

record field_tag =
  f_name :: string
  f_pkgpath :: string
  f_nix :: string
  f_validate :: string

text \<open>
  \<^verbatim>\<open>reflect.Type\<close> as far as the code inspects it. The number in \<open>GInt\<close>, \<open>GUint\<close> and
  \<open>GFloat\<close> is the width in bits. Types are finite trees: a Go type that refers to itself is
  outside the model.
\<close>

datatype gtype =
    GBool
  | GString
  | GInt nat
  | GUint nat
  | GFloat nat
  | GSlice gtype
  | GArray nat gtype
  | GMap gtype gtype
  | GStruct "(field_tag \<times> gtype) list"
  | GPtr gtype
  | GInterface
  | GOther string

section \<open>Nix value types (eval/value.go)\<close>

text \<open>
  \<^verbatim>\<open>type ValueType int\<close> with its constants; values outside the constants are possible, since
  the code converts whatever number the native library returns.
\<close>

type_synonym value_type = int

definition ValueTypeThunk :: value_type where "ValueTypeThunk = 0"
definition ValueTypeInt :: value_type where "ValueTypeInt = 1"
definition ValueTypeFloat :: value_type where "ValueTypeFloat = 2"
definition ValueTypeBool :: value_type where "ValueTypeBool = 3"
definition ValueTypeString :: value_type where "ValueTypeString = 4"
definition ValueTypePath :: value_type where "ValueTypePath = 5"
definition ValueTypeNull :: value_type where "ValueTypeNull = 6"
definition ValueTypeAttrs :: value_type where "ValueTypeAttrs = 7"
definition ValueTypeList :: value_type where "ValueTypeList = 8"
definition ValueTypeFunction :: value_type where "ValueTypeFunction = 9"
definition ValueTypeExternal :: value_type where "ValueTypeExternal = 10"
definition ValueTypeFailed :: value_type where "ValueTypeFailed = 11"

lemmas value_type_defs = ValueTypeThunk_def ValueTypeInt_def ValueTypeFloat_def ValueTypeBool_def
  ValueTypeString_def ValueTypePath_def ValueTypeNull_def ValueTypeAttrs_def ValueTypeList_def
  ValueTypeFunction_def ValueTypeExternal_def ValueTypeFailed_def

section \<open>Errors\<close>

record nix_error =
  ne_code :: int
  ne_message :: string
  ne_name :: string
  ne_info :: string

datatype fmt_arg = AStr string | ANum int

text \<open>
  \<open>Errorf fmt args cause\<close> is \<^verbatim>\<open>fmt.Errorf(fmt, args..., cause)\<close>; \<open>NilNixError\<close> is the
  interface value that holds a nil \<^verbatim>\<open>*NixError\<close>, which Go does not compare equal to nil.
\<close>

datatype err =
    ErrClosed
  | ErrConcurrentUse
  | ErrPathNotFound
  | ContextErr string
  | Errno int
  | NixErr nix_error
  | NilNixError
  | ValueTypeErr value_type value_type
  | InvalidUnmarshalErr "gtype option"
  | UnmarshalTypeErr string gtype string
  | MissingAttrErr string string
  | UnsupportedTypeErr gtype string
  | JsonErr string
  | Errorf string "fmt_arg list" "err option"
  | Joined "err list"

type_synonym 'a res = "err + 'a"

definition errorf :: "string \<Rightarrow> fmt_arg list \<Rightarrow> err" where
  "errorf fmt args = Errorf fmt args None"

definition wrapf :: "string \<Rightarrow> fmt_arg list \<Rightarrow> err \<Rightarrow> err" where
  "wrapf fmt args e = Errorf fmt args (Some e)"

text \<open>\<^verbatim>\<open>errors.Join\<close>: nil when there is no error to join.\<close>

definition errors_join :: "err option list \<Rightarrow> err option" where
  "errors_join es =
     (let es' = List.map_filter (\<lambda>e. e) es in if es' = [] then None else Some (Joined es'))"

text \<open>\<^verbatim>\<open>errors.Is(err, target)\<close> for a comparable sentinel.\<close>

fun errors_is :: "err \<Rightarrow> err \<Rightarrow> bool" where
  "errors_is target (Errorf fmt args (Some e)) =
     (target = Errorf fmt args (Some e) \<or> errors_is target e)"
| "errors_is target (Joined es) = (target = Joined es \<or> (\<exists>e \<in> set es. errors_is target e))"
| "errors_is target e = (target = e)"

lemma errors_is_refl [simp]: "errors_is e e"
proof (cases e)
  case (Errorf f a c)
  then show ?thesis by (cases c) auto
qed auto

lemma errors_is_wrapf [simp]: "errors_is t e \<Longrightarrow> errors_is t (wrapf fmt args e)"
  by (simp add: wrapf_def)

lemma errors_is_join:
  "errors_join es = Some e \<Longrightarrow> Some e' \<in> set es \<Longrightarrow> errors_is t e' \<Longrightarrow> errors_is t e"
  by (fastforce simp: errors_join_def Let_def map_filter_def split: if_splits)

lemma errors_join_None [simp]: "errors_join es = None \<longleftrightarrow> (\<forall>e \<in> set es. e = None)"
  by (auto simp: errors_join_def Let_def map_filter_def filter_empty_conv)

end
