(* ===== verification/Native.thy ===== *)
theory Native
  imports Go_Error "HOL-Library.State_Monad"
begin

text \<open>
  The boundary \<^verbatim>\<open>pkg/raw\<close>: the native calls the Go code makes, as data, with the three
  tables that say which native handles a call needs alive, which it releases and which kind of
  handle it returns. The native library itself is not under \<^verbatim>\<open>src/\<close>; what it answers is a
  parameter, the record \<open>native\<close>, and no theorem restricts it: an answer may depend on the whole
  history of calls.
\<close>

section \<open>Handles\<close>

type_synonym ptr = nat

datatype kind =
    KContext | KString | KFetchers | KFlakeSettings
  | KStore | KStorePath | KRealiseResults | KPathArray | KRoots | KGCResults | KDerivation
  | KStateBuilder | KState | KValue | KListBuilder | KBindings | KRealisedString
  | KParseFlags | KRefResult | KRef | KLockFlags | KLockedFlake
  | KFd

type_synonym handle = "kind \<times> ptr"

section \<open>Calls\<close>

text \<open>Library contexts, settings, error records, interrupts (\<^verbatim>\<open>nix_go_util.h\<close>).\<close>

datatype util_call =
    CContextCreate
  | CContextFree ptr
  | LibutilInit ptr
  | LibstoreInit ptr
  | LibstoreInitNoLoadConfig ptr
  | LibexprInit ptr
  | SettingGet ptr string
  | SettingSet ptr string string
  | RawSetVerbosity ptr int
  | RawSetLogFormat ptr string
  | LogSinkInstall ptr string
  | ErrCode ptr
  | ErrMsg "ptr option" ptr
  | ErrName "ptr option" ptr
  | ErrInfoMsg "ptr option" ptr
  | ClearErr "ptr option"
  | StringFree ptr
  | FetchersSettingsNew ptr
  | FetchersSettingsFree ptr
  | FlakeSettingsNew ptr
  | FlakeSettingsFree ptr
  | RawInterruptRequest
  | RawInterruptRequested
  | RawInterruptClear

text \<open>Stores and store paths (\<^verbatim>\<open>nix_go_store.h\<close>).\<close>

datatype store_call =
    StoreOpen ptr string "(string \<times> string) list"
  | StoreFree ptr
  | StoreGetUri ptr ptr
  | StoreGetStoredir ptr ptr
  | StoreGetVersion ptr ptr
  | StoreParsePath ptr ptr string
  | StoreQueryPathFromHashPart ptr ptr string
  | StoreRealPath ptr ptr ptr
  | StoreIsValidPath ptr ptr ptr
  | RawStoreInterrupt ptr ptr
  | StorePathName ptr
  | StorePathHash ptr ptr
  | StoreCreateFromParts ptr "8 word list" string nat
  | StorePathClone ptr
  | StorePathFree ptr
  | StoreCopyClosure ptr ptr ptr ptr
  | StoreCopyPath ptr ptr ptr ptr bool bool
  | DerivationFromJson ptr ptr string
  | StoreDrvFromStorePath ptr ptr ptr
  | RawAddDerivation ptr ptr ptr
  | DerivationToJson ptr ptr
  | DerivationClone ptr
  | DerivationFree ptr
  | DaemonProcessConnectionStore ptr ptr int int bool bool

text \<open>The result objects of realisation, closures and garbage collection.\<close>

datatype gc_call =
    StoreRealiseToArray ptr ptr ptr
  | StoreRealiseResultsCount ptr
  | StoreRealiseResultsOutname ptr nat
  | StoreRealiseResultsPathClone ptr nat
  | StoreRealiseResultsFree ptr
  | StoreRealiseOutput ptr ptr ptr string
  | StoreGetFsClosureArray ptr ptr ptr bool bool bool
  | StorePathArrayCount ptr
  | StorePathArrayPathClone ptr nat
  | StorePathArrayFree ptr
  | StoreAddTempRoot ptr ptr ptr
  | StoreAddPermanentRoot ptr ptr ptr string
  | StoreFindRoots ptr ptr bool
  | StoreRootsCount ptr
  | StoreRootsPathClone ptr nat
  | StoreRootsLink ptr nat
  | StoreRootsFree ptr
  | StoreCollectGarbage ptr ptr int bool "ptr list" "64 word"
  | StoreGCResultsCount ptr
  | StoreGCResultsBytesFreed ptr
  | StoreGCResultsPath ptr nat
  | StoreGCResultsFree ptr

text \<open>\<^verbatim>\<open>StringItem\<close> and \<^verbatim>\<open>StringArray\<close>: what the caller sets of a list of byte strings.\<close>

record raw_string_item =
  item_value :: string
  item_len :: "64 word"

record raw_string_array =
  array_items :: "raw_string_item list"
  array_len :: "64 word"

text \<open>Evaluation states and values (\<^verbatim>\<open>nix_go_expr.h\<close>).\<close>

datatype eval_call =
    EvalStateBuilderNew ptr ptr
  | EvalStateBuilderSetLookupPath ptr ptr raw_string_array
  | FlakeSettingsAddToEvalStateBuilder ptr ptr ptr
  | EvalStateBuild ptr ptr
  | EvalStateBuilderFree ptr
  | StateFree ptr
  | AllocValue ptr ptr
  | ExprEvalFromString ptr ptr string string ptr
  | ValueForce ptr ptr ptr
  | ValueForceDeep ptr ptr ptr
  | ValueCall ptr ptr ptr ptr ptr
  | ValueCallMulti ptr ptr ptr "ptr list" ptr
  | GetListByidx ptr ptr ptr "32 word"
  | GetAttrByname ptr ptr ptr string
  | GetAttrBynameLazy ptr ptr ptr string
  | GetAttrByidx ptr ptr ptr "32 word"
  | GetAttrNameByidx ptr ptr ptr "32 word"
  | HasAttrByname ptr ptr ptr string
  | ValueDecref ptr ptr

text \<open>Reading and building values.\<close>

datatype value_call =
    GetType ptr ptr
  | GetTypename ptr ptr
  | GetBool ptr ptr
  | GetInt ptr ptr
  | GetFloat ptr ptr
  | GetString ptr ptr
  | GetPathString ptr ptr
  | GetListSize ptr ptr
  | GetAttrsSize ptr ptr
  | InitNull ptr ptr
  | InitBool ptr ptr bool
  | InitInt ptr ptr "64 word"
  | InitFloat ptr ptr "64 word"
  | InitString ptr ptr string
  | InitPathString ptr ptr ptr string
  | MakeListBuilder ptr ptr nat
  | ListBuilderInsert ptr ptr "32 word" ptr
  | ListBuilderFree ptr
  | MakeList ptr ptr ptr
  | MakeBindingsBuilder ptr ptr nat
  | BindingsBuilderInsert ptr ptr string ptr
  | BindingsBuilderFree ptr
  | MakeAttrs ptr ptr ptr
  | InitApply ptr ptr ptr ptr
  | CopyValue ptr ptr ptr
  | StringRealise ptr ptr ptr bool
  | RealisedStringGetBuffer ptr
  | RealisedStringGetBufferSize ptr
  | RealisedStringGetStorePathCount ptr
  | RealisedStringGetStorePath ptr nat
  | RealisedStringFree ptr

text \<open>Flakes (\<^verbatim>\<open>nix_go_flake.h\<close>), and the system calls on file descriptors.\<close>

datatype flake_call =
    FlakeReferenceParseFlagsNew ptr ptr
  | FlakeReferenceParseFlagsFree ptr
  | FlakeReferenceParseFlagsSetBaseDirectory ptr ptr string nat
  | FlakeReferenceAndFragmentFromString ptr ptr ptr ptr string nat
  | FlakeReferenceResultTakeReference ptr
  | FlakeReferenceResultTakeFragment ptr
  | FlakeReferenceResultFree ptr
  | FlakeReferenceFree ptr
  | FlakeLockFlagsNew ptr ptr
  | FlakeLockFlagsFree ptr
  | FlakeLockFlagsSetModeVirtual ptr ptr
  | FlakeLockFlagsSetModeCheck ptr ptr
  | FlakeLockFlagsSetModeWriteAsNeeded ptr ptr
  | FlakeLockFlagsSetReferenceLockJson ptr ptr string nat
  | FlakeLockFlagsAddInputOverride ptr ptr string "ptr option"
  | FlakeLock ptr ptr ptr ptr ptr "ptr option"
  | LockedFlakeGetLockJson ptr ptr
  | LockedFlakeGetFingerprint ptr ptr ptr ptr
  | LockedFlakeGetOutputAttrs ptr ptr ptr ptr
  | LockedFlakeFree ptr
  | SysDup int
  | SysSetNonblock ptr bool
  | SysClose ptr

datatype call =
    U util_call | S store_call | G gc_call | E eval_call | V value_call | F flake_call

end
