(* ===== verification/Ledger.thy ===== *)
theory Ledger
  imports Native
begin

text \<open>
  The machine the Go code runs on. Its state is a \<open>world\<close>: the native library (a parameter), the
  history of native calls, a ledger of live native handles with a fault flag that is set as soon as
  a call is made with a handle that is not live, and the \<^verbatim>\<open>ptr\<close> fields of the Go
  wrapper structs. \<open>sound T w\<close> says that the live handles are exactly those owned by the open
  wrappers plus the temporaries \<open>T\<close>: nothing leaked, nothing freed twice, no use after free.
\<close>

section \<open>The tables of the boundary\<close>

definition ctx_opt :: "ptr option \<Rightarrow> handle list" where
  "ctx_opt c = (case c of None \<Rightarrow> [] | Some p \<Rightarrow> [(KContext, p)])"

definition ref_opt :: "ptr option \<Rightarrow> handle list" where
  "ref_opt c = (case c of None \<Rightarrow> [] | Some p \<Rightarrow> [(KRef, p)])"

lemma ctx_opt_simps [simp]: "ctx_opt None = []" "ctx_opt (Some p) = [(KContext, p)]"
  by (simp_all add: ctx_opt_def)

lemma ref_opt_simps [simp]: "ref_opt None = []" "ref_opt (Some p) = [(KRef, p)]"
  by (simp_all add: ref_opt_def)

text \<open>Handles that must be alive when the call is made.\<close>

fun util_uses :: "util_call \<Rightarrow> handle list" where
  "util_uses (LibutilInit c) = [(KContext, c)]"
| "util_uses (LibstoreInit c) = [(KContext, c)]"
| "util_uses (LibstoreInitNoLoadConfig c) = [(KContext, c)]"
| "util_uses (LibexprInit c) = [(KContext, c)]"
| "util_uses (SettingGet c k) = [(KContext, c)]"
| "util_uses (SettingSet c k v) = [(KContext, c)]"
| "util_uses (RawSetVerbosity c n) = [(KContext, c)]"
| "util_uses (RawSetLogFormat c f) = [(KContext, c)]"
| "util_uses (LogSinkInstall c d) = [(KContext, c)]"
| "util_uses (ErrCode c) = [(KContext, c)]"
| "util_uses (ErrMsg b c) = ctx_opt b @ [(KContext, c)]"
| "util_uses (ErrName b c) = ctx_opt b @ [(KContext, c)]"
| "util_uses (ErrInfoMsg b c) = ctx_opt b @ [(KContext, c)]"
| "util_uses (ClearErr c) = ctx_opt c"
| "util_uses (FetchersSettingsNew c) = [(KContext, c)]"
| "util_uses (FlakeSettingsNew c) = [(KContext, c)]"
| "util_uses c = []"

fun store_uses :: "store_call \<Rightarrow> handle list" where
  "store_uses (StoreOpen c u ps) = [(KContext, c)]"
| "store_uses (StoreGetUri c s) = [(KContext, c), (KStore, s)]"
| "store_uses (StoreGetStoredir c s) = [(KContext, c), (KStore, s)]"
| "store_uses (StoreGetVersion c s) = [(KContext, c), (KStore, s)]"
| "store_uses (StoreParsePath c s t) = [(KContext, c), (KStore, s)]"
| "store_uses (StoreQueryPathFromHashPart c s t) = [(KContext, c), (KStore, s)]"
| "store_uses (StoreRealPath c s p) = [(KContext, c), (KStore, s), (KStorePath, p)]"
| "store_uses (StoreIsValidPath c s p) = [(KContext, c), (KStore, s), (KStorePath, p)]"
| "store_uses (RawStoreInterrupt c s) = [(KContext, c), (KStore, s)]"
| "store_uses (StorePathName p) = [(KStorePath, p)]"
| "store_uses (StorePathHash c p) = [(KContext, c), (KStorePath, p)]"
| "store_uses (StoreCreateFromParts c h n l) = [(KContext, c)]"
| "store_uses (StorePathClone p) = [(KStorePath, p)]"
| "store_uses (StoreCopyClosure c s d p) = [(KContext, c), (KStore, s), (KStore, d), (KStorePath, p)]"
| "store_uses (StoreCopyPath c s d p r k) = [(KContext, c), (KStore, s), (KStore, d), (KStorePath, p)]"
| "store_uses (DerivationFromJson c s j) = [(KContext, c), (KStore, s)]"
| "store_uses (StoreDrvFromStorePath c s p) = [(KContext, c), (KStore, s), (KStorePath, p)]"
| "store_uses (RawAddDerivation c s d) = [(KContext, c), (KStore, s), (KDerivation, d)]"
| "store_uses (DerivationToJson c d) = [(KContext, c), (KDerivation, d)]"
| "store_uses (DerivationClone d) = [(KDerivation, d)]"
| "store_uses (DaemonProcessConnectionStore c s a b t r) =
     [(KContext, c), (KStore, s), (KFd, nat a), (KFd, nat b)]"
| "store_uses c = []"

fun gc_uses :: "gc_call \<Rightarrow> handle list" where
  "gc_uses (StoreRealiseToArray c s p) = [(KContext, c), (KStore, s), (KStorePath, p)]"
| "gc_uses (StoreRealiseResultsCount r) = [(KRealiseResults, r)]"
| "gc_uses (StoreRealiseResultsOutname r i) = [(KRealiseResults, r)]"
| "gc_uses (StoreRealiseResultsPathClone r i) = [(KRealiseResults, r)]"
| "gc_uses (StoreRealiseOutput c s p n) = [(KContext, c), (KStore, s), (KStorePath, p)]"
| "gc_uses (StoreGetFsClosureArray c s p x y z) = [(KContext, c), (KStore, s), (KStorePath, p)]"
| "gc_uses (StorePathArrayCount a) = [(KPathArray, a)]"
| "gc_uses (StorePathArrayPathClone a i) = [(KPathArray, a)]"
| "gc_uses (StoreAddTempRoot c s p) = [(KContext, c), (KStore, s), (KStorePath, p)]"
| "gc_uses (StoreAddPermanentRoot c s p r) = [(KContext, c), (KStore, s), (KStorePath, p)]"
| "gc_uses (StoreFindRoots c s b) = [(KContext, c), (KStore, s)]"
| "gc_uses (StoreRootsCount r) = [(KRoots, r)]"
| "gc_uses (StoreRootsPathClone r i) = [(KRoots, r)]"
| "gc_uses (StoreRootsLink r i) = [(KRoots, r)]"
| "gc_uses (StoreCollectGarbage c s a l ps m) =
     [(KContext, c), (KStore, s)] @ map (Pair KStorePath) ps"
| "gc_uses (StoreGCResultsCount r) = [(KGCResults, r)]"
| "gc_uses (StoreGCResultsBytesFreed r) = [(KGCResults, r)]"
| "gc_uses (StoreGCResultsPath r i) = [(KGCResults, r)]"
| "gc_uses c = []"

fun eval_uses :: "eval_call \<Rightarrow> handle list" where
  "eval_uses (EvalStateBuilderNew c s) = [(KContext, c), (KStore, s)]"
| "eval_uses (EvalStateBuilderSetLookupPath c b l) = [(KContext, c), (KStateBuilder, b)]"
| "eval_uses (FlakeSettingsAddToEvalStateBuilder c f b) =
     [(KContext, c), (KFlakeSettings, f), (KStateBuilder, b)]"
| "eval_uses (EvalStateBuild c b) = [(KContext, c), (KStateBuilder, b)]"
| "eval_uses (AllocValue c e) = [(KContext, c), (KState, e)]"
| "eval_uses (ExprEvalFromString c e x p v) = [(KContext, c), (KState, e), (KValue, v)]"
| "eval_uses (ValueForce c e v) = [(KContext, c), (KState, e), (KValue, v)]"
| "eval_uses (ValueForceDeep c e v) = [(KContext, c), (KState, e), (KValue, v)]"
| "eval_uses (ValueCall c e f a v) =
     [(KContext, c), (KState, e), (KValue, f), (KValue, a), (KValue, v)]"
| "eval_uses (ValueCallMulti c e f as v) =
     [(KContext, c), (KState, e), (KValue, f), (KValue, v)] @ map (Pair KValue) as"
| "eval_uses (GetListByidx c v e i) = [(KContext, c), (KState, e), (KValue, v)]"
| "eval_uses (GetAttrByname c v e n) = [(KContext, c), (KState, e), (KValue, v)]"
| "eval_uses (GetAttrBynameLazy c v e n) = [(KContext, c), (KState, e), (KValue, v)]"
| "eval_uses (GetAttrByidx c v e i) = [(KContext, c), (KState, e), (KValue, v)]"
| "eval_uses (GetAttrNameByidx c v e i) = [(KContext, c), (KState, e), (KValue, v)]"
| "eval_uses (HasAttrByname c v e n) = [(KContext, c), (KState, e), (KValue, v)]"
| "eval_uses (ValueDecref c v) = [(KContext, c)]"
| "eval_uses c = []"

fun value_uses :: "value_call \<Rightarrow> handle list" where
  "value_uses (GetType c v) = [(KContext, c), (KValue, v)]"
| "value_uses (GetTypename c v) = [(KContext, c), (KValue, v)]"
| "value_uses (GetBool c v) = [(KContext, c), (KValue, v)]"
| "value_uses (GetInt c v) = [(KContext, c), (KValue, v)]"
| "value_uses (GetFloat c v) = [(KContext, c), (KValue, v)]"
| "value_uses (GetString c v) = [(KContext, c), (KValue, v)]"
| "value_uses (GetPathString c v) = [(KContext, c), (KValue, v)]"
| "value_uses (GetListSize c v) = [(KContext, c), (KValue, v)]"
| "value_uses (GetAttrsSize c v) = [(KContext, c), (KValue, v)]"
| "value_uses (InitNull c v) = [(KContext, c), (KValue, v)]"
| "value_uses (InitBool c v b) = [(KContext, c), (KValue, v)]"
| "value_uses (InitInt c v i) = [(KContext, c), (KValue, v)]"
| "value_uses (InitFloat c v x) = [(KContext, c), (KValue, v)]"
| "value_uses (InitString c v s) = [(KContext, c), (KValue, v)]"
| "value_uses (InitPathString c e v s) = [(KContext, c), (KState, e), (KValue, v)]"
| "value_uses (MakeListBuilder c e n) = [(KContext, c), (KState, e)]"
| "value_uses (ListBuilderInsert c b i v) = [(KContext, c), (KListBuilder, b), (KValue, v)]"
| "value_uses (MakeList c b v) = [(KContext, c), (KListBuilder, b), (KValue, v)]"
| "value_uses (MakeBindingsBuilder c e n) = [(KContext, c), (KState, e)]"
| "value_uses (BindingsBuilderInsert c b n v) = [(KContext, c), (KBindings, b), (KValue, v)]"
| "value_uses (MakeAttrs c v b) = [(KContext, c), (KBindings, b), (KValue, v)]"
| "value_uses (InitApply c v f a) = [(KContext, c), (KValue, v), (KValue, f), (KValue, a)]"
| "value_uses (CopyValue c v s) = [(KContext, c), (KValue, v), (KValue, s)]"
| "value_uses (StringRealise c e v b) = [(KContext, c), (KState, e), (KValue, v)]"
| "value_uses (RealisedStringGetBuffer r) = [(KRealisedString, r)]"
| "value_uses (RealisedStringGetBufferSize r) = [(KRealisedString, r)]"
| "value_uses (RealisedStringGetStorePathCount r) = [(KRealisedString, r)]"
| "value_uses (RealisedStringGetStorePath r i) = [(KRealisedString, r)]"
| "value_uses c = []"

fun flake_uses :: "flake_call \<Rightarrow> handle list" where
  "flake_uses (FlakeReferenceParseFlagsNew c f) = [(KContext, c), (KFlakeSettings, f)]"
| "flake_uses (FlakeReferenceParseFlagsSetBaseDirectory c p d n) = [(KContext, c), (KParseFlags, p)]"
| "flake_uses (FlakeReferenceAndFragmentFromString c g f p r n) =
     [(KContext, c), (KFetchers, g), (KFlakeSettings, f), (KParseFlags, p)]"
| "flake_uses (FlakeReferenceResultTakeReference r) = [(KRefResult, r)]"
| "flake_uses (FlakeReferenceResultTakeFragment r) = [(KRefResult, r)]"
| "flake_uses (FlakeLockFlagsNew c f) = [(KContext, c), (KFlakeSettings, f)]"
| "flake_uses (FlakeLockFlagsSetModeVirtual c l) = [(KContext, c), (KLockFlags, l)]"
| "flake_uses (FlakeLockFlagsSetModeCheck c l) = [(KContext, c), (KLockFlags, l)]"
| "flake_uses (FlakeLockFlagsSetModeWriteAsNeeded c l) = [(KContext, c), (KLockFlags, l)]"
| "flake_uses (FlakeLockFlagsSetReferenceLockJson c l j n) = [(KContext, c), (KLockFlags, l)]"
| "flake_uses (FlakeLockFlagsAddInputOverride c l p r) = [(KContext, c), (KLockFlags, l)] @ ref_opt r"
| "flake_uses (FlakeLock c g f e l r) =
     [(KContext, c), (KFetchers, g), (KFlakeSettings, f), (KState, e), (KLockFlags, l)] @ ref_opt r"
| "flake_uses (LockedFlakeGetLockJson c l) = [(KContext, c), (KLockedFlake, l)]"
| "flake_uses (LockedFlakeGetFingerprint c s g l) =
     [(KContext, c), (KStore, s), (KFetchers, g), (KLockedFlake, l)]"
| "flake_uses (LockedFlakeGetOutputAttrs c f e l) =
     [(KContext, c), (KFlakeSettings, f), (KState, e), (KLockedFlake, l)]"
| "flake_uses (SysSetNonblock d b) = [(KFd, d)]"
| "flake_uses c = []"

fun uses :: "call \<Rightarrow> handle list" where
  "uses (U c) = util_uses c"
| "uses (S c) = store_uses c"
| "uses (G c) = gc_uses c"
| "uses (E c) = eval_uses c"
| "uses (V c) = value_uses c"
| "uses (F c) = flake_uses c"

text \<open>The handle a call releases.\<close>

fun util_frees :: "util_call \<Rightarrow> handle option" where
  "util_frees (CContextFree c) = Some (KContext, c)"
| "util_frees (StringFree p) = Some (KString, p)"
| "util_frees (FetchersSettingsFree p) = Some (KFetchers, p)"
| "util_frees (FlakeSettingsFree p) = Some (KFlakeSettings, p)"
| "util_frees c = None"

fun store_frees :: "store_call \<Rightarrow> handle option" where
  "store_frees (StoreFree s) = Some (KStore, s)"
| "store_frees (StorePathFree p) = Some (KStorePath, p)"
| "store_frees (DerivationFree d) = Some (KDerivation, d)"
| "store_frees c = None"

fun gc_frees :: "gc_call \<Rightarrow> handle option" where
  "gc_frees (StoreRealiseResultsFree r) = Some (KRealiseResults, r)"
| "gc_frees (StorePathArrayFree a) = Some (KPathArray, a)"
| "gc_frees (StoreRootsFree r) = Some (KRoots, r)"
| "gc_frees (StoreGCResultsFree r) = Some (KGCResults, r)"
| "gc_frees c = None"

fun eval_frees :: "eval_call \<Rightarrow> handle option" where
  "eval_frees (EvalStateBuilderFree b) = Some (KStateBuilder, b)"
| "eval_frees (StateFree e) = Some (KState, e)"
| "eval_frees (ValueDecref c v) = Some (KValue, v)"
| "eval_frees c = None"

fun value_frees :: "value_call \<Rightarrow> handle option" where
  "value_frees (ListBuilderFree b) = Some (KListBuilder, b)"
| "value_frees (BindingsBuilderFree b) = Some (KBindings, b)"
| "value_frees (RealisedStringFree r) = Some (KRealisedString, r)"
| "value_frees c = None"

fun flake_frees :: "flake_call \<Rightarrow> handle option" where
  "flake_frees (FlakeReferenceParseFlagsFree p) = Some (KParseFlags, p)"
| "flake_frees (FlakeReferenceResultFree r) = Some (KRefResult, r)"
| "flake_frees (FlakeReferenceFree r) = Some (KRef, r)"
| "flake_frees (FlakeLockFlagsFree l) = Some (KLockFlags, l)"
| "flake_frees (LockedFlakeFree l) = Some (KLockedFlake, l)"
| "flake_frees (SysClose d) = Some (KFd, d)"
| "flake_frees c = None"

fun frees :: "call \<Rightarrow> handle option" where
  "frees (U c) = util_frees c"
| "frees (S c) = store_frees c"
| "frees (G c) = gc_frees c"
| "frees (E c) = eval_frees c"
| "frees (V c) = value_frees c"
| "frees (F c) = flake_frees c"

text \<open>The kind of handle a pointer-returning call returns; calls that return a C string or a
  number have \<open>KString\<close> here.\<close>

fun kind_of :: "call \<Rightarrow> kind" where
  "kind_of (U CContextCreate) = KContext"
| "kind_of (U (FetchersSettingsNew c)) = KFetchers"
| "kind_of (U (FlakeSettingsNew c)) = KFlakeSettings"
| "kind_of (S (StoreOpen c u ps)) = KStore"
| "kind_of (S (StoreParsePath c s t)) = KStorePath"
| "kind_of (S (StoreQueryPathFromHashPart c s t)) = KStorePath"
| "kind_of (S (StoreCreateFromParts c h n l)) = KStorePath"
| "kind_of (S (StorePathClone p)) = KStorePath"
| "kind_of (S (RawAddDerivation c s d)) = KStorePath"
| "kind_of (S (DerivationFromJson c s j)) = KDerivation"
| "kind_of (S (StoreDrvFromStorePath c s p)) = KDerivation"
| "kind_of (S (DerivationClone d)) = KDerivation"
| "kind_of (G (StoreRealiseToArray c s p)) = KRealiseResults"
| "kind_of (G (StoreRealiseResultsPathClone r i)) = KStorePath"
| "kind_of (G (StoreRealiseOutput c s p n)) = KStorePath"
| "kind_of (G (StoreGetFsClosureArray c s p x y z)) = KPathArray"
| "kind_of (G (StorePathArrayPathClone a i)) = KStorePath"
| "kind_of (G (StoreFindRoots c s b)) = KRoots"
| "kind_of (G (StoreRootsPathClone r i)) = KStorePath"
| "kind_of (G (StoreCollectGarbage c s a l ps m)) = KGCResults"
| "kind_of (E (EvalStateBuilderNew c s)) = KStateBuilder"
| "kind_of (E (EvalStateBuild c b)) = KState"
| "kind_of (E (AllocValue c e)) = KValue"
| "kind_of (E (GetListByidx c v e i)) = KValue"
| "kind_of (E (GetAttrByname c v e n)) = KValue"
| "kind_of (E (GetAttrBynameLazy c v e n)) = KValue"
| "kind_of (E (GetAttrByidx c v e i)) = KValue"
| "kind_of (V (MakeListBuilder c e n)) = KListBuilder"
| "kind_of (V (MakeBindingsBuilder c e n)) = KBindings"
| "kind_of (V (StringRealise c e v b)) = KRealisedString"
| "kind_of (V (RealisedStringGetStorePath r i)) = KStorePath"
| "kind_of (F (FlakeReferenceParseFlagsNew c f)) = KParseFlags"
| "kind_of (F (FlakeReferenceAndFragmentFromString c g f p r n)) = KRefResult"
| "kind_of (F (FlakeReferenceResultTakeReference r)) = KRef"
| "kind_of (F (FlakeLockFlagsNew c f)) = KLockFlags"
| "kind_of (F (FlakeLock c g f e l r)) = KLockedFlake"
| "kind_of (F (LockedFlakeGetOutputAttrs c f e l)) = KValue"
| "kind_of (F (SysDup d)) = KFd"
| "kind_of c = KString"

section \<open>The world\<close>

text \<open>
  The native library: for each sort of answer, a function of the calls made before (latest first)
  and of the call. A C string comes with its address and the bytes found there; a hash is the
  20-byte struct; a 64-bit or 32-bit integer is a word.
\<close>

record native =
  ans_ptr :: "call list \<Rightarrow> call \<Rightarrow> ptr option"
  ans_code :: "call list \<Rightarrow> call \<Rightarrow> int"
  ans_str :: "call list \<Rightarrow> call \<Rightarrow> (ptr \<times> string) option"
  ans_bool :: "call list \<Rightarrow> call \<Rightarrow> bool"
  ans_size :: "call list \<Rightarrow> call \<Rightarrow> nat"
  ans_u32 :: "call list \<Rightarrow> call \<Rightarrow> 32 word"
  ans_64 :: "call list \<Rightarrow> call \<Rightarrow> 64 word"
  ans_bytes :: "call list \<Rightarrow> call \<Rightarrow> 8 word list"

record world =
  nix :: native
  hist :: "call list"
  live :: "handle multiset"
  fault :: bool
  next_ref :: nat
  cells :: "nat \<Rightarrow> handle option"

type_synonym 'a io = "(world, 'a) state"

text \<open>
  \<open>cells w i\<close> is the \<^verbatim>\<open>ptr\<close> (or \<^verbatim>\<open>state\<close>) field of the wrapper struct with
  identity \<open>i\<close>, \<open>None\<close> for nil. The other fields of a wrapper never change after construction;
  they are fields of the HOL record that stands for the Go pointer.
\<close>

definition opt_mset :: "'a option \<Rightarrow> 'a multiset" where
  "opt_mset x = (case x of None \<Rightarrow> {#} | Some a \<Rightarrow> {#a#})"

lemma opt_mset_simps [simp]: "opt_mset None = {#}" "opt_mset (Some a) = {#a#}"
  by (simp_all add: opt_mset_def)

definition owned :: "world \<Rightarrow> handle multiset" where
  "owned w = (\<Sum>i<next_ref w. opt_mset (cells w i))"

definition wf_cells :: "world \<Rightarrow> bool" where
  "wf_cells w \<longleftrightarrow> (\<forall>i. next_ref w \<le> i \<longrightarrow> cells w i = None)"

definition sound :: "handle multiset \<Rightarrow> world \<Rightarrow> bool" where
  "sound T w \<longleftrightarrow> live w = owned w + T \<and> \<not> fault w \<and> wf_cells w"

text \<open>The effect of a native call on history, ledger and fault flag; a handle gained; a wrapper
  object allocated; the \<^verbatim>\<open>ptr\<close> field of a wrapper set to nil.\<close>

definition legal :: "call \<Rightarrow> world \<Rightarrow> bool" where
  "legal c w \<longleftrightarrow> (\<forall>h \<in> set (uses c). h \<in># live w) \<and>
     (case frees c of None \<Rightarrow> True | Some h \<Rightarrow> h \<in># live w)"

definition tick :: "call \<Rightarrow> world \<Rightarrow> world" where
  "tick c w = w\<lparr>hist := c # hist w, live := live w - opt_mset (frees c),
     fault := (fault w \<or> \<not> legal c w)\<rparr>"

definition gain :: "handle \<Rightarrow> world \<Rightarrow> world" where
  "gain h w = w\<lparr>live := add_mset h (live w)\<rparr>"

definition alloc_cell :: "handle \<Rightarrow> world \<Rightarrow> world" where
  "alloc_cell h w = w\<lparr>cells := (cells w)(next_ref w := Some h), next_ref := Suc (next_ref w)\<rparr>"

definition clear_cell :: "nat \<Rightarrow> world \<Rightarrow> world" where
  "clear_cell i w = w\<lparr>cells := (cells w)(i := None)\<rparr>"

end
