(* ===== verification/Machine.thy ===== *)
theory Machine
  imports Ledger
begin

text \<open>
  The statements the models are written with (native calls, reading and writing \<^verbatim>\<open>ptr\<close> fields,
  Go's \<^verbatim>\<open>if err != nil\<close>), the weakest precondition \<open>wp m Q w\<close> of a computation, and the rules
  by which soundness of the ledger is pushed through a computation.
\<close>

section \<open>Statements\<close>

definition ok :: "'a \<Rightarrow> 'a res io" where
  "ok x = State_Monad.return (Inr x)"

definition fail :: "err \<Rightarrow> 'a res io" where
  "fail e = State_Monad.return (Inl e)"

text \<open>\<open>attempt m k h\<close>: run \<open>m\<close>; on an error \<open>e\<close> continue with \<open>h e\<close>, else with \<open>k\<close> on the result.
  \<open>chk m wrap k\<close> is the common case \<^verbatim>\<open>if err != nil { return wrap(err) }\<close>.\<close>

definition attempt :: "'a res io \<Rightarrow> (err \<Rightarrow> 'b io) \<Rightarrow> ('a \<Rightarrow> 'b io) \<Rightarrow> 'b io" where
  "attempt m h k = do { r \<leftarrow> m; (case r of Inl e \<Rightarrow> h e | Inr x \<Rightarrow> k x) }"

definition chk :: "'a res io \<Rightarrow> (err \<Rightarrow> err) \<Rightarrow> ('a \<Rightarrow> 'b res io) \<Rightarrow> 'b res io" where
  "chk m wrap k = attempt m (\<lambda>e. fail (wrap e)) k"

definition raw_unit :: "call \<Rightarrow> unit io" where
  "raw_unit c = State (\<lambda>w. ((), tick c w))"

text \<open>A call that releases a handle.\<close>

definition raw_free :: "call \<Rightarrow> unit io" where
  "raw_free c = raw_unit c"

definition raw_ptr :: "call \<Rightarrow> ptr option io" where
  "raw_ptr c = State (\<lambda>w. (case ans_ptr (nix w) (hist w) c of
     None \<Rightarrow> (None, tick c w) | Some p \<Rightarrow> (Some p, gain (kind_of c, p) (tick c w))))"

definition raw_str :: "call \<Rightarrow> (ptr \<times> string) option io" where
  "raw_str c = State (\<lambda>w. (case ans_str (nix w) (hist w) c of
     None \<Rightarrow> (None, tick c w) | Some s \<Rightarrow> (Some s, gain (KString, fst s) (tick c w))))"

definition raw_code :: "call \<Rightarrow> int io" where
  "raw_code c = State (\<lambda>w. (ans_code (nix w) (hist w) c, tick c w))"

definition raw_bool :: "call \<Rightarrow> bool io" where
  "raw_bool c = State (\<lambda>w. (ans_bool (nix w) (hist w) c, tick c w))"

definition raw_size :: "call \<Rightarrow> nat io" where
  "raw_size c = State (\<lambda>w. (ans_size (nix w) (hist w) c, tick c w))"

definition raw_u32 :: "call \<Rightarrow> 32 word io" where
  "raw_u32 c = State (\<lambda>w. (ans_u32 (nix w) (hist w) c, tick c w))"

definition raw_64 :: "call \<Rightarrow> 64 word io" where
  "raw_64 c = State (\<lambda>w. (ans_64 (nix w) (hist w) c, tick c w))"

definition raw_bytes :: "call \<Rightarrow> 8 word list io" where
  "raw_bytes c = State (\<lambda>w. (ans_bytes (nix w) (hist w) c, tick c w))"

text \<open>A call with an out-parameter: the status code and the bytes written.\<close>

definition raw_code_bytes :: "call \<Rightarrow> (int \<times> 8 word list) io" where
  "raw_code_bytes c = State (\<lambda>w. ((ans_code (nix w) (hist w) c, ans_bytes (nix w) (hist w) c), tick c w))"

definition ptr_at :: "kind \<Rightarrow> nat \<Rightarrow> world \<Rightarrow> ptr option" where
  "ptr_at k i w = (case cells w i of None \<Rightarrow> None | Some (k', p) \<Rightarrow> if k' = k then Some p else None)"

definition get_ptr :: "kind \<Rightarrow> nat \<Rightarrow> ptr option io" where
  "get_ptr k i = State (\<lambda>w. (ptr_at k i w, w))"

definition new_cell :: "kind \<Rightarrow> ptr \<Rightarrow> nat io" where
  "new_cell k p = State (\<lambda>w. (next_ref w, alloc_cell (k, p) w))"

definition set_nil :: "nat \<Rightarrow> unit io" where
  "set_nil i = State (\<lambda>w. ((), clear_cell i w))"

section \<open>Weakest preconditions\<close>

definition wp :: "'a io \<Rightarrow> ('a \<Rightarrow> world \<Rightarrow> bool) \<Rightarrow> world \<Rightarrow> bool" where
  "wp m Q w = (case run_state m w of (r, w') \<Rightarrow> Q r w')"

text \<open>The rules are equations between predicates on worlds, so that they also rewrite inside
  continuations.\<close>

lemma wp_return [wp_rules]: "wp (State_Monad.return x) Q = Q x"
  by (rule ext) (simp add: wp_def)

lemma wp_bind [wp_rules]: "wp (m \<bind> f) Q = wp m (\<lambda>x. wp (f x) Q)"
  by (rule ext) (simp add: wp_def split: prod.split)

lemma wp_ok [wp_rules]: "wp (ok x) Q = Q (Inr x)"
  by (simp add: ok_def wp_return)

lemma wp_fail [wp_rules]: "wp (fail e) Q = Q (Inl e)"
  by (simp add: fail_def wp_return)

lemma wp_if [wp_rules]: "wp (if b then m else n) Q = (\<lambda>w. if b then wp m Q w else wp n Q w)"
  by simp

lemma wp_option [wp_rules]:
  "wp (case x of None \<Rightarrow> m | Some y \<Rightarrow> f y) Q =
   (\<lambda>w. case x of None \<Rightarrow> wp m Q w | Some y \<Rightarrow> wp (f y) Q w)"
  by (simp split: option.split)

lemma wp_sum [wp_rules]:
  "wp (case x of Inl e \<Rightarrow> h e | Inr y \<Rightarrow> f y) Q =
   (\<lambda>w. case x of Inl e \<Rightarrow> wp (h e) Q w | Inr y \<Rightarrow> wp (f y) Q w)"
  by (simp split: sum.split)

lemma wp_list [wp_rules]:
  "wp (case x of [] \<Rightarrow> m | y # ys \<Rightarrow> f y ys) Q =
   (\<lambda>w. case x of [] \<Rightarrow> wp m Q w | y # ys \<Rightarrow> wp (f y ys) Q w)"
  by (simp split: list.split)

lemma wp_prod [wp_rules]: "wp (case x of (a, b) \<Rightarrow> f a b) Q = wp (f (fst x) (snd x)) Q"
  by (simp split: prod.split)

lemma wp_let [wp_rules]: "wp (let x = t in f x) Q = wp (f t) Q"
  by simp

lemma wp_attempt [wp_rules]:
  "wp (attempt m h k) Q = wp m (\<lambda>r w. case r of Inl e \<Rightarrow> wp (h e) Q w | Inr x \<Rightarrow> wp (k x) Q w)"
  by (simp add: attempt_def wp_bind wp_sum)

lemma wp_chk [wp_rules]:
  "wp (chk m wrap k) Q = wp m (\<lambda>r w. case r of Inl e \<Rightarrow> Q (Inl (wrap e)) w | Inr x \<Rightarrow> wp (k x) Q w)"
  by (simp add: chk_def wp_attempt wp_fail cong: sum.case_cong)

lemma wp_raw_unit [wp_raw]: "wp (raw_unit c) Q = (\<lambda>w. Q () (tick c w))"
  by (simp add: raw_unit_def wp_def fun_eq_iff)

lemma wp_raw_ptr [wp_raw]:
  "wp (raw_ptr c) Q = (\<lambda>w. case ans_ptr (nix w) (hist w) c of
     None \<Rightarrow> Q None (tick c w) | Some p \<Rightarrow> Q (Some p) (gain (kind_of c, p) (tick c w)))"
  by (simp add: raw_ptr_def wp_def fun_eq_iff split: option.split)

lemma wp_raw_str [wp_raw]:
  "wp (raw_str c) Q = (\<lambda>w. case ans_str (nix w) (hist w) c of
     None \<Rightarrow> Q None (tick c w) | Some s \<Rightarrow> Q (Some s) (gain (KString, fst s) (tick c w)))"
  by (simp add: raw_str_def wp_def fun_eq_iff split: option.split)

lemma wp_raw_code [wp_raw]: "wp (raw_code c) Q = (\<lambda>w. Q (ans_code (nix w) (hist w) c) (tick c w))"
  by (simp add: raw_code_def wp_def fun_eq_iff)

lemma wp_raw_bool [wp_raw]: "wp (raw_bool c) Q = (\<lambda>w. Q (ans_bool (nix w) (hist w) c) (tick c w))"
  by (simp add: raw_bool_def wp_def fun_eq_iff)

lemma wp_raw_size [wp_raw]: "wp (raw_size c) Q = (\<lambda>w. Q (ans_size (nix w) (hist w) c) (tick c w))"
  by (simp add: raw_size_def wp_def fun_eq_iff)

lemma wp_raw_u32 [wp_raw]: "wp (raw_u32 c) Q = (\<lambda>w. Q (ans_u32 (nix w) (hist w) c) (tick c w))"
  by (simp add: raw_u32_def wp_def fun_eq_iff)

lemma wp_raw_64 [wp_raw]: "wp (raw_64 c) Q = (\<lambda>w. Q (ans_64 (nix w) (hist w) c) (tick c w))"
  by (simp add: raw_64_def wp_def fun_eq_iff)

lemma wp_raw_bytes [wp_raw]:
  "wp (raw_bytes c) Q = (\<lambda>w. Q (ans_bytes (nix w) (hist w) c) (tick c w))"
  by (simp add: raw_bytes_def wp_def fun_eq_iff)

lemma wp_raw_code_bytes [wp_raw]:
  "wp (raw_code_bytes c) Q =
   (\<lambda>w. Q (ans_code (nix w) (hist w) c, ans_bytes (nix w) (hist w) c) (tick c w))"
  by (simp add: raw_code_bytes_def wp_def fun_eq_iff)

lemma wp_get_ptr [wp_rules]: "wp (get_ptr k i) Q = (\<lambda>w. Q (ptr_at k i w) w)"
  by (simp add: get_ptr_def wp_def fun_eq_iff)

lemma wp_new_cell [wp_rules]: "wp (new_cell k p) Q = (\<lambda>w. Q (next_ref w) (alloc_cell (k, p) w))"
  by (simp add: new_cell_def wp_def fun_eq_iff)

lemma wp_set_nil [wp_rules]: "wp (set_nil i) Q = (\<lambda>w. Q () (clear_cell i w))"
  by (simp add: set_nil_def wp_def fun_eq_iff)

lemma wp_mono: "wp m Q w \<Longrightarrow> (\<And>r w'. Q r w' \<Longrightarrow> Q' r w') \<Longrightarrow> wp m Q' w"
  by (auto simp: wp_def split: prod.splits)

lemma wp_always: "(\<And>r w'. Q r w') \<Longrightarrow> wp m Q w"
  by (simp add: wp_def split: prod.split)

lemma wp_const: "wp m (\<lambda>x w. P) = (\<lambda>w. P)"
  by (auto simp: wp_def split: prod.split)

lemma wp_conj: "wp m Q w \<Longrightarrow> wp m Q' w \<Longrightarrow> wp m (\<lambda>r w'. Q r w' \<and> Q' r w') w"
  by (auto simp: wp_def split: prod.splits)

lemma wp_run: "run_state m w = (r, w') \<Longrightarrow> wp m Q w \<Longrightarrow> Q r w'"
  by (simp add: wp_def)

section \<open>Fields after a step\<close>

lemma tick_simps [simp]:
  "nix (tick c w) = nix w" "hist (tick c w) = c # hist w"
  "live (tick c w) = live w - opt_mset (frees c)" "fault (tick c w) = (fault w \<or> \<not> legal c w)"
  "next_ref (tick c w) = next_ref w" "cells (tick c w) = cells w"
  "owned (tick c w) = owned w" "wf_cells (tick c w) = wf_cells w"
  by (simp_all add: tick_def owned_def wf_cells_def)

lemma gain_simps [simp]:
  "nix (gain h w) = nix w" "hist (gain h w) = hist w" "live (gain h w) = add_mset h (live w)"
  "fault (gain h w) = fault w" "next_ref (gain h w) = next_ref w" "cells (gain h w) = cells w"
  "owned (gain h w) = owned w" "wf_cells (gain h w) = wf_cells w"
  by (simp_all add: gain_def owned_def wf_cells_def)

lemma alloc_cell_simps [simp]:
  "nix (alloc_cell h w) = nix w" "hist (alloc_cell h w) = hist w" "live (alloc_cell h w) = live w"
  "fault (alloc_cell h w) = fault w" "next_ref (alloc_cell h w) = Suc (next_ref w)"
  "cells (alloc_cell h w) = (cells w)(next_ref w := Some h)"
  by (simp_all add: alloc_cell_def)

lemma clear_cell_simps [simp]:
  "nix (clear_cell i w) = nix w" "hist (clear_cell i w) = hist w" "live (clear_cell i w) = live w"
  "fault (clear_cell i w) = fault w" "next_ref (clear_cell i w) = next_ref w"
  "cells (clear_cell i w) = (cells w)(i := None)"
  by (simp_all add: clear_cell_def)

text \<open>\<open>with_hist h w\<close>: the world after calls that left no trace but in the history.\<close>

definition with_hist :: "call list \<Rightarrow> world \<Rightarrow> world" where
  "with_hist h w = w\<lparr>hist := h\<rparr>"

lemma with_hist_simps [simp]:
  "nix (with_hist h w) = nix w" "hist (with_hist h w) = h" "live (with_hist h w) = live w"
  "fault (with_hist h w) = fault w" "next_ref (with_hist h w) = next_ref w"
  "cells (with_hist h w) = cells w" "owned (with_hist h w) = owned w"
  "wf_cells (with_hist h w) = wf_cells w" "with_hist h (with_hist h' w) = with_hist h w"
  by (simp_all add: with_hist_def owned_def wf_cells_def)

lemma with_hist_self [simp]: "with_hist (hist w) w = w"
  by (simp add: with_hist_def)

lemma sound_with_hist [simp]: "sound T (with_hist h w) = sound T w"
  by (simp add: sound_def)

lemma wf_alloc_cell [simp]: "wf_cells w \<Longrightarrow> wf_cells (alloc_cell h w)"
  by (simp add: wf_cells_def)

lemma wf_clear_cell [simp]: "wf_cells w \<Longrightarrow> wf_cells (clear_cell i w)"
  by (simp add: wf_cells_def)

lemma owned_alloc_cell [simp]: "owned (alloc_cell h w) = add_mset h (owned w)"
  by (simp add: owned_def)

lemma cells_bound: "wf_cells w \<Longrightarrow> cells w i = Some h \<Longrightarrow> i < next_ref w"
  by (rule ccontr) (simp add: wf_cells_def)

lemma owned_clear_cell: "wf_cells w \<Longrightarrow> cells w i = Some h \<Longrightarrow> owned w = add_mset h (owned (clear_cell i w))"
  using sum_lessThan_upd [of i "next_ref w" "\<lambda>j. opt_mset (((cells w)(i := None)) j)" "\<lambda>j. opt_mset (cells w j)"]
  by (simp add: owned_def cells_bound)

lemma ptr_at_Some: "ptr_at k i w = Some p \<longleftrightarrow> cells w i = Some (k, p)"
  by (auto simp: ptr_at_def split: option.splits)

lemma cell_owned: "wf_cells w \<Longrightarrow> cells w i = Some h \<Longrightarrow> h \<in># owned w"
  by (metis owned_clear_cell union_single_eq_member)

lemma cell_live: "sound T w \<Longrightarrow> cells w i = Some h \<Longrightarrow> h \<in># live w"
  by (auto simp: sound_def cell_owned)

section \<open>Soundness through the steps\<close>

lemma sound_tick:
  "legal c w \<Longrightarrow> frees c = None \<Longrightarrow> sound T (tick c w) = sound T w"
  by (simp add: sound_def)

lemma sound_free:
  "legal c w \<Longrightarrow> frees c = Some h \<Longrightarrow> sound T (tick c w) = sound (add_mset h T) w"
  by (auto simp: sound_def legal_def) (metis insert_DiffM)+

lemma sound_gain: "h \<in># T \<Longrightarrow> sound T (gain h w) = sound (T - {#h#}) w"
  by (auto simp: sound_def multiset_eq_iff dest!: multi_member_split)

lemma sound_alloc: "wf_cells w \<Longrightarrow> sound T (alloc_cell h w) = sound (add_mset h T) w"
  by (simp add: sound_def)

lemma sound_clear:
  "wf_cells w \<Longrightarrow> cells w i = Some h \<Longrightarrow> sound (add_mset h T) (clear_cell i w) = sound T w"
  by (simp add: sound_def owned_clear_cell)

lemma sound_wf: "sound T w \<Longrightarrow> wf_cells w"
  by (simp add: sound_def)

lemma sound_temp_live: "sound T w \<Longrightarrow> h \<in># T \<Longrightarrow> h \<in># live w"
  by (simp add: sound_def)

lemmas sound_steps = sound_tick sound_free sound_gain sound_alloc sound_clear

end
