(* ===== verification/Status.thy ===== *)
theory Status
  imports Machine
begin

text \<open>
  \<^verbatim>\<open>internal/status\<close> and \<^verbatim>\<open>pkg/utils/string.go\<close>: status codes, the snapshot of a
  pending Nix error (\<^verbatim>\<open>FromContext\<close>) and the copying of C strings (\<^verbatim>\<open>TakeCString\<close>).
\<close>

section \<open>Status codes\<close>

type_synonym error_code = int

definition ErrorCodeOK :: error_code where "ErrorCodeOK = 0"
definition ErrorCodeUnknown :: error_code where "ErrorCodeUnknown = -1"
definition ErrorCodeOverflow :: error_code where "ErrorCodeOverflow = -2"
definition ErrorCodeKey :: error_code where "ErrorCodeKey = -3"
definition ErrorCodeNix :: error_code where "ErrorCodeNix = -4"
definition ErrorCodeRecoverable :: error_code where "ErrorCodeRecoverable = -5"

lemmas error_code_defs = ErrorCodeOK_def ErrorCodeUnknown_def ErrorCodeOverflow_def ErrorCodeKey_def
  ErrorCodeNix_def ErrorCodeRecoverable_def

definition error_code_string :: "error_code \<Rightarrow> string" where
  "error_code_string code =
     (if code = ErrorCodeOK then ''NIX_OK''
      else if code = ErrorCodeOverflow then ''NIX_ERR_OVERFLOW''
      else if code = ErrorCodeKey then ''NIX_ERR_KEY''
      else if code = ErrorCodeNix then ''NIX_ERR_NIX_ERROR''
      else if code = ErrorCodeRecoverable then ''NIX_ERR_RECOVERABLE''
      else ''NIX_ERR_UNKNOWN'')"

text \<open>\<^verbatim>\<open>NixError.Error\<close>: the structured details are printed for \<^verbatim>\<open>ErrorCodeNix\<close> only.\<close>

definition nix_error_string :: "nix_error \<Rightarrow> string" where
  "nix_error_string e =
     (if ne_code e = ErrorCodeNix then
        error_code_string (ne_code e) @ '' ('' @ itoa (ne_code e) @ ''): message='' @ ne_message e @
        '' name='' @ ne_name e @ '' info='' @ ne_info e
      else error_code_string (ne_code e) @ '' ('' @ itoa (ne_code e) @ ''): message='' @ ne_message e)"

section \<open>C strings\<close>

text \<open>The loop of \<^verbatim>\<open>TakeCString\<close> that looks for the terminating zero byte.\<close>

fun c_strlen :: "string \<Rightarrow> nat" where
  "c_strlen [] = 0"
| "c_strlen (c # mem) = (if c = byte 0 then 0 else Suc (c_strlen mem))"

definition take_cstring :: "(ptr \<times> string) option \<Rightarrow> string io" where
  "take_cstring p =
     (case p of
        None \<Rightarrow> State_Monad.return ''''
      | Some (addr, mem) \<Rightarrow> do {
          let n = c_strlen mem;
          let s = take n mem;
          raw_free (U (StringFree addr));
          State_Monad.return s
        })"

text \<open>\<^verbatim>\<open>utils.TakeCString(raw.F(...))\<close>.\<close>

definition take_raw :: "call \<Rightarrow> string io" where
  "take_raw c = do { p \<leftarrow> raw_str c; take_cstring p }"

lemma c_strlen_takeWhile: "take (c_strlen mem) mem = takeWhile (\<lambda>c. c \<noteq> byte 0) mem"
  by (induction mem) auto

section \<open>FromContext\<close>

text \<open>
  \<^verbatim>\<open>FromContext(ctx)\<close> for a non-nil \<^verbatim>\<open>ctx\<close>; the result is \<open>None\<close> for the nil
  \<^verbatim>\<open>*NixError\<close>. The background context is not checked for nil in the code, so the model passes
  on whatever \<^verbatim>\<open>CContextCreate\<close> returned.
\<close>

definition free_context :: "ptr option \<Rightarrow> unit io" where
  "free_context c = (case c of None \<Rightarrow> State_Monad.return () | Some p \<Rightarrow> raw_free (U (CContextFree p)))"

text \<open>Reading the pending error through the background context: message, name and details.\<close>

definition read_error :: "ptr option \<Rightarrow> ptr \<Rightarrow> error_code \<Rightarrow> nix_error io" where
  "read_error bg ctx code = do {
     msg \<leftarrow> take_raw (U (ErrMsg bg ctx));
     (if code = ErrorCodeNix then do {
        name \<leftarrow> take_raw (U (ErrName bg ctx));
        raw_unit (U (ClearErr bg));
        (if name \<noteq> '''' then do {
           info \<leftarrow> take_raw (U (ErrInfoMsg bg ctx));
           raw_unit (U (ClearErr bg));
           State_Monad.return \<lparr>ne_code = code, ne_message = msg, ne_name = name, ne_info = info\<rparr>
         } else
           State_Monad.return \<lparr>ne_code = code, ne_message = msg, ne_name = name, ne_info = ''''\<rparr>)
      } else
        State_Monad.return \<lparr>ne_code = code, ne_message = msg, ne_name = '''', ne_info = ''''\<rparr>)
   }"

definition from_context :: "ptr \<Rightarrow> nix_error option io" where
  "from_context ctx = do {
     code \<leftarrow> raw_code (U (ErrCode ctx));
     (if code = ErrorCodeOK then State_Monad.return None
      else do {
        bg \<leftarrow> raw_ptr (U CContextCreate);
        e \<leftarrow> read_error bg ctx code;
        raw_unit (U (ClearErr (Some ctx)));
        free_context bg;
        State_Monad.return (Some e)
      })
   }"

text \<open>The error value that \<^verbatim>\<open>%w\<close> wraps when given the result of \<^verbatim>\<open>FromContext\<close>.\<close>

definition nix_err :: "nix_error option \<Rightarrow> err" where
  "nix_err e = (case e of None \<Rightarrow> NilNixError | Some n \<Rightarrow> NixErr n)"

text \<open>\<^verbatim>\<open>return ..., fmt.Errorf(fmt, args..., status.FromContext(rawCtx))\<close>.\<close>

definition fail_status :: "ptr \<Rightarrow> string \<Rightarrow> fmt_arg list \<Rightarrow> 'a res io" where
  "fail_status ctx fmt args = do { e \<leftarrow> from_context ctx; fail (wrapf fmt args (nix_err e)) }"

text \<open>\<^verbatim>\<open>if code := call; ErrorCode(code) != ErrorCodeOK { return fail_status }\<close>.\<close>

definition check_code :: "ptr \<Rightarrow> call \<Rightarrow> string \<Rightarrow> fmt_arg list \<Rightarrow> unit res io" where
  "check_code ctx c fmt args = do {
     code \<leftarrow> raw_code c;
     (if code \<noteq> ErrorCodeOK then fail_status ctx fmt args else ok ())
   }"

text \<open>The same for a call that also fills a 20-byte hash (\<^verbatim>\<open>hash.Bytes\<close>).\<close>

definition hash20 :: "8 word list \<Rightarrow> 8 word list" where
  "hash20 bs = take 20 (bs @ replicate 20 0)"

lemma length_hash20 [simp]: "length (hash20 bs) = 20"
  by (simp add: hash20_def)

definition check_code_bytes :: "ptr \<Rightarrow> call \<Rightarrow> string \<Rightarrow> fmt_arg list \<Rightarrow> (8 word list) res io" where
  "check_code_bytes ctx c fmt args = do {
     r \<leftarrow> raw_code_bytes c;
     (if fst r \<noteq> ErrorCodeOK then fail_status ctx fmt args else ok (hash20 (snd r)))
   }"

text \<open>\<^verbatim>\<open>if ptr == nil { return fail_status }\<close> after a call that returns a handle or a C string.\<close>

definition check_ptr :: "ptr \<Rightarrow> call \<Rightarrow> string \<Rightarrow> fmt_arg list \<Rightarrow> ptr res io" where
  "check_ptr ctx c fmt args = do {
     p \<leftarrow> raw_ptr c;
     (case p of None \<Rightarrow> fail_status ctx fmt args | Some p \<Rightarrow> ok p)
   }"

definition check_str :: "ptr \<Rightarrow> call \<Rightarrow> string \<Rightarrow> fmt_arg list \<Rightarrow> (ptr \<times> string) res io" where
  "check_str ctx c fmt args = do {
     p \<leftarrow> raw_str c;
     (case p of None \<Rightarrow> fail_status ctx fmt args | Some p \<Rightarrow> ok p)
   }"

text \<open>\<^verbatim>\<open>if err := status.FromContext(rawCtx); err != nil { return ..., wrap(err) }\<close> after a call
  that reports failure only through the context.\<close>

definition check_pending :: "ptr \<Rightarrow> string \<Rightarrow> fmt_arg list \<Rightarrow> unit res io" where
  "check_pending ctx fmt args = do {
     e \<leftarrow> from_context ctx;
     (case e of None \<Rightarrow> ok () | Some n \<Rightarrow> fail (wrapf fmt args (NixErr n)))
   }"

end
