(* ===== verification/Reasoning.thy ===== *)
theory Reasoning
  imports Status
begin

text \<open>
  How soundness of the ledger is pushed through the models: what every way of calling the native
  library leaves behind, and the collection \<open>wp_intros\<close> with which \<^theory_text>\<open>auto\<close>
  executes a model symbolically.
\<close>

section \<open>What these leave behind\<close>

lemma tick_quiet:
  assumes "set (uses c) \<subseteq> set_mset (live w)" and "frees c = None" and "\<not> fault w"
  shows "tick c w = with_hist (c # hist w) w"
  using assms by (intro world.equality) (auto simp: legal_def)

lemma tick_with_hist: "tick c (with_hist h w) = with_hist (c # h) (tick c w)"
  by (simp add: tick_def with_hist_def legal_def split: option.split)

lemma gain_with_hist: "gain x (with_hist h w) = with_hist h (gain x w)"
  by (simp add: gain_def with_hist_def)

lemma free_gained:
  assumes "frees c = Some h" and "uses c = []" and "\<not> fault w"
  shows "tick c (gain h w) = with_hist (c # hist w) w"
  using assms by (intro world.equality) (auto simp: legal_def)

lemma live_ctx_opt: "set (ctx_opt c) \<subseteq> set_mset M \<longleftrightarrow> (\<forall>p. c = Some p \<longrightarrow> (KContext, p) \<in># M)"
  by (cases c) auto

text \<open>Taking a C string: the string comes back copied, its memory is released.\<close>

lemma wp_take_cstring:
  "\<not> fault w \<Longrightarrow> (\<And>r h. Q r (with_hist h w)) \<Longrightarrow> wp (take_cstring (Some s)) Q (gain (KString, fst s) w)"
  by (cases s) (simp add: take_cstring_def wp_rules wp_raw raw_free_def free_gained)

lemma wp_take_raw:
  assumes "set (uses c) \<subseteq> set_mset (live w)" "frees c = None" "\<not> fault w" "\<And>r h. Q r (with_hist h w)"
  shows "wp (take_raw c) Q w"
  using assms wp_take_cstring [of "with_hist (c # hist w) w" Q]
  by (auto simp: take_raw_def wp_rules wp_raw raw_free_def tick_quiet take_cstring_def split: option.split)

lemma wp_quiet_unit:
  assumes "set (uses c) \<subseteq> set_mset (live w)" "frees c = None" "\<not> fault w" "\<And>h. Q () (with_hist h w)"
  shows "wp (raw_unit c) Q w"
  using assms by (simp add: wp_rules wp_raw raw_free_def tick_quiet)

text \<open>\<open>from_context\<close> leaves the ledger and the wrappers as they were.\<close>

lemma wp_read_error:
  assumes "(KContext, ctx) \<in># live w" "set (ctx_opt bg) \<subseteq> set_mset (live w)" "\<not> fault w"
    "\<And>r h. Q r (with_hist h w)"
  shows "wp (read_error bg ctx code) Q w"
  unfolding read_error_def wp_bind wp_if wp_return
  using assms by (auto intro!: wp_take_raw wp_quiet_unit)

lemma wp_free_background:
  "\<not> fault w \<Longrightarrow> (\<And>h. Q () (with_hist h w)) \<Longrightarrow>
   wp (free_context (Some p)) Q (with_hist h (gain (KContext, p) w))"
  by (simp add: free_context_def wp_rules wp_raw raw_free_def tick_with_hist free_gained)

lemma wp_from_context:
  assumes live: "(KContext, ctx) \<in># live w" and nf: "\<not> fault w" and Q: "\<And>r h. Q r (with_hist h w)"
  shows "wp (from_context ctx) Q w"
proof -
  have code: "tick (U (ErrCode ctx)) w = with_hist (U (ErrCode ctx) # hist w) w"
    using live nf by (intro tick_quiet) auto
  have create: "tick (U CContextCreate) (with_hist h w) = with_hist (U CContextCreate # h) w" for h
    using nf by (simp add: tick_with_hist tick_quiet)
  have none: "wp (read_error None ctx c) (\<lambda>e w'. wp (do { raw_unit (U (ClearErr (Some ctx)));
      free_context None; State_Monad.return (Some e) }) Q w') (with_hist h w)" for c h
    using live nf Q by (auto simp: wp_rules wp_raw raw_free_def free_context_def tick_with_hist tick_quiet
        intro!: wp_read_error)
  have some: "wp (read_error (Some p) ctx c) (\<lambda>e w'. wp (do { raw_unit (U (ClearErr (Some ctx)));
      free_context (Some p); State_Monad.return (Some e) }) Q w') (gain (KContext, p) (with_hist h w))"
    for p c h
  proof (rule wp_read_error)
    fix e h'
    have "tick (U (ClearErr (Some ctx))) (with_hist h' (gain (KContext, p) (with_hist h w)))
      = with_hist (U (ClearErr (Some ctx)) # h') (gain (KContext, p) (with_hist h w))"
      using live nf by (subst tick_quiet) auto
    then show "wp (do { raw_unit (U (ClearErr (Some ctx))); free_context (Some p);
        State_Monad.return (Some e) }) Q (with_hist h' (gain (KContext, p) (with_hist h w)))"
      using nf Q by (auto simp: wp_rules wp_raw raw_free_def intro!: wp_free_background)
  qed (use live nf in auto)
  show ?thesis
    using none some Q by (auto simp: from_context_def wp_rules wp_raw raw_free_def code create split: option.split)
qed

section \<open>Calls in a ready world\<close>

text \<open>
  \<open>ready w hs\<close>: no fault so far and the handles \<open>hs\<close> alive, which is what a native call needs.
  The rules below say what each way of calling the native library leaves: a world that differs in
  its history only, with the returned handle gained on success.
\<close>

definition ready :: "world \<Rightarrow> handle list \<Rightarrow> bool" where
  "ready w hs \<longleftrightarrow> \<not> fault w \<and> set hs \<subseteq> set_mset (live w)"

lemma ready_simps [simp]:
  "ready w [] \<longleftrightarrow> \<not> fault w"
  "ready w (x # hs) \<longleftrightarrow> x \<in># live w \<and> ready w hs"
  "ready w (hs @ hs') \<longleftrightarrow> ready w hs \<and> ready w hs'"
  "ready (with_hist h w) hs = ready w hs"
  by (auto simp: ready_def)

lemma ready_not_fault [dest]: "ready w hs \<Longrightarrow> \<not> fault w"
  by (simp add: ready_def)

lemma ready_gain [simp]: "ready w hs \<Longrightarrow> ready (gain x w) hs"
  by (auto simp: ready_def)

lemma ready_alloc [simp]: "ready (alloc_cell x w) hs = ready w hs"
  by (simp add: ready_def)

lemma ready_clear [simp]: "ready (clear_cell i w) hs = ready w hs"
  by (simp add: ready_def)

lemma tick_ready: "ready w (uses c) \<Longrightarrow> frees c = None \<Longrightarrow> tick c w = with_hist (c # hist w) w"
  by (simp add: ready_def tick_quiet)

lemma wp_fail_status:
  assumes "ready w [(KContext, ctx)]" "\<And>e h. Q (Inl (wrapf fmt args e)) (with_hist h w)"
  shows "wp (fail_status ctx fmt args) Q w"
  unfolding fail_status_def wp_bind wp_fail using assms by (auto intro: wp_from_context)

lemma wp_check_code:
  assumes "ready w ((KContext, ctx) # uses c)" "frees c = None"
    "\<And>h. Q (Inr ()) (with_hist h w)" "\<And>e h. Q (Inl (wrapf fmt args e)) (with_hist h w)"
  shows "wp (check_code ctx c fmt args) Q w"
  using assms by (auto simp: check_code_def wp_rules wp_raw raw_free_def tick_ready intro!: wp_fail_status)

lemma wp_check_ptr:
  assumes "ready w ((KContext, ctx) # uses c)" "frees c = None"
    "\<And>p h. Q (Inr p) (gain (kind_of c, p) (with_hist h w))" "\<And>e h. Q (Inl (wrapf fmt args e)) (with_hist h w)"
  shows "wp (check_ptr ctx c fmt args) Q w"
  using assms by (auto simp: check_ptr_def wp_rules wp_raw raw_free_def tick_ready intro!: wp_fail_status split: option.split)

lemma wp_check_str:
  assumes "ready w ((KContext, ctx) # uses c)" "frees c = None"
    "\<And>s h. Q (Inr s) (gain (KString, fst s) (with_hist h w))" "\<And>e h. Q (Inl (wrapf fmt args e)) (with_hist h w)"
  shows "wp (check_str ctx c fmt args) Q w"
  using assms by (auto simp: check_str_def wp_rules wp_raw raw_free_def tick_ready intro!: wp_fail_status split: option.split)

lemma wp_check_pending:
  assumes "ready w [(KContext, ctx)]"
    "\<And>h. Q (Inr ()) (with_hist h w)" "\<And>e h. Q (Inl (wrapf fmt args e)) (with_hist h w)"
  shows "wp (check_pending ctx fmt args) Q w"
  unfolding check_pending_def wp_rules using assms
  by (auto intro!: wp_from_context split: option.split)

lemma wp_take_gained:
  "ready w [] \<Longrightarrow> (\<And>r h. Q r (with_hist h w)) \<Longrightarrow>
   wp (take_cstring (Some s)) Q (gain (KString, fst s) w)"
  by (auto intro: wp_take_cstring)

lemma wp_quiet:
  assumes "ready w (uses c)" "frees c = None"
  shows "(\<And>h. Q () (with_hist h w)) \<Longrightarrow> wp (raw_unit c) Q w"
    and "(\<And>r h. Q' r (with_hist h w)) \<Longrightarrow> wp (raw_code c) Q' w"
    and "(\<And>r h. B r (with_hist h w)) \<Longrightarrow> wp (raw_bool c) B w"
    and "(\<And>r h. N r (with_hist h w)) \<Longrightarrow> wp (raw_size c) N w"
    and "(\<And>r h. X r (with_hist h w)) \<Longrightarrow> wp (raw_u32 c) X w"
    and "(\<And>r h. Y r (with_hist h w)) \<Longrightarrow> wp (raw_64 c) Y w"
    and "(\<And>r h. Z r (with_hist h w)) \<Longrightarrow> wp (raw_bytes c) Z w"
    and "(\<And>r h. Z' r (with_hist h w)) \<Longrightarrow> wp (take_raw c) Z' w"
  using assms by (auto simp: wp_rules wp_raw raw_free_def tick_ready ready_def intro!: wp_take_raw)

lemma wp_check_code_bytes:
  assumes "ready w ((KContext, ctx) # uses c)" "frees c = None"
    "\<And>b h. length b = 20 \<Longrightarrow> Q (Inr b) (with_hist h w)" "\<And>e h. Q (Inl (wrapf fmt args e)) (with_hist h w)"
  shows "wp (check_code_bytes ctx c fmt args) Q w"
  using assms
  by (auto simp: check_code_bytes_def wp_rules wp_raw tick_ready intro!: wp_fail_status)

lemma wp_raw_ptr_ready:
  assumes "ready w (uses c)" "frees c = None"
    "\<And>h. Q None (with_hist h w)" "\<And>p h. Q (Some p) (gain (kind_of c, p) (with_hist h w))"
  shows "wp (raw_ptr c) Q w"
  using assms by (auto simp: wp_rules wp_raw raw_free_def tick_ready split: option.split)

lemma wp_raw_str_ready:
  assumes "ready w (uses c)" "frees c = None"
    "\<And>h. Q None (with_hist h w)" "\<And>s h. Q (Some s) (gain (KString, fst s) (with_hist h w))"
  shows "wp (raw_str c) Q w"
  using assms by (auto simp: wp_rules wp_raw raw_free_def tick_ready split: option.split)

text \<open>Releasing a handle: what remains is a world in which it is no longer live.\<close>

definition drop_handle :: "handle \<Rightarrow> world \<Rightarrow> world" where
  "drop_handle h w = w\<lparr>live := live w - {#h#}\<rparr>"

lemma drop_handle_simps [simp]:
  "nix (drop_handle x w) = nix w" "hist (drop_handle x w) = hist w"
  "live (drop_handle x w) = live w - {#x#}" "fault (drop_handle x w) = fault w"
  "next_ref (drop_handle x w) = next_ref w" "cells (drop_handle x w) = cells w"
  "owned (drop_handle x w) = owned w" "wf_cells (drop_handle x w) = wf_cells w"
  by (simp_all add: drop_handle_def owned_def wf_cells_def)

lemma drop_gain [simp]: "drop_handle x (gain x w) = w"
  by (simp add: drop_handle_def gain_def)

lemma sound_drop: "x \<in># live w \<Longrightarrow> sound T (drop_handle x w) = sound (add_mset x T) w"
  by (auto simp: sound_def) (metis insert_DiffM)+

lemma drop_gain_other [simp]: "x \<in># live w \<Longrightarrow> drop_handle x (gain y w) = gain y (drop_handle x w)"
  by (rule world.equality) simp_all

lemma tick_free:
  assumes "frees c = Some x" "ready w (x # uses c)"
  shows "tick c w = with_hist (c # hist w) (drop_handle x w)"
  using assms by (intro world.equality) (auto simp: legal_def ready_def)

lemma wp_free:
  assumes "frees c \<noteq> None" "ready w (the (frees c) # uses c)"
    "\<And>h. Q () (with_hist h (drop_handle (the (frees c)) w))"
  shows "wp (raw_free c) Q w"
  using assms by (auto simp: wp_raw raw_free_def tick_free)

lemma wp_take_live:
  assumes "ready w [(KString, fst s)]" "\<And>r h. Q r (with_hist h (drop_handle (KString, fst s) w))"
  shows "wp (take_cstring (Some s)) Q w"
  using assms
  by (cases s) (simp add: take_cstring_def wp_rules wp_raw raw_free_def tick_free)

text \<open>The steps commute with forgetting the history.\<close>

lemma with_hist_through [simp]:
  "gain x (with_hist h w) = with_hist h (gain x w)"
  "alloc_cell x (with_hist h w) = with_hist h (alloc_cell x w)"
  "clear_cell i (with_hist h w) = with_hist h (clear_cell i w)"
  "drop_handle x (with_hist h w) = with_hist h (drop_handle x w)"
  by (simp_all add: gain_def alloc_cell_def clear_cell_def drop_handle_def with_hist_def)

lemma alloc_gain [simp]: "alloc_cell x (gain y w) = gain y (alloc_cell x w)"
  by (simp add: gain_def alloc_cell_def)

lemma clear_gain [simp]: "clear_cell i (gain y w) = gain y (clear_cell i w)"
  by (simp add: gain_def clear_cell_def)

lemma sound_not_fault: "sound T w \<Longrightarrow> \<not> fault w"
  by (simp add: sound_def)

lemma sound_close_cell:
  assumes "wf_cells w" "cells w i = Some x" "x \<in># live w"
  shows "sound T (clear_cell i (drop_handle x w)) = sound T w"
proof -
  have "owned (clear_cell i (drop_handle x w)) = owned (clear_cell i w)"
    by (simp add: owned_def)
  moreover have "owned w = add_mset x (owned (clear_cell i w))"
    using assms by (intro owned_clear_cell)
  ultimately show ?thesis
    using assms by (auto simp: sound_def) (metis insert_DiffM add_mset_add_single)+
qed

lemma owned_clear_fresh: "owned (clear_cell (next_ref w) (alloc_cell x w)) = owned w"
  by (simp add: owned_def)

lemma sound_clear_fresh:
  "wf_cells w \<Longrightarrow> sound T (clear_cell (next_ref w) (alloc_cell x w)) = sound T w"
  by (simp add: sound_def owned_clear_fresh)

lemma sound_gain_temp: "sound T w \<Longrightarrow> sound (add_mset x T) (gain x w)"
  by (simp add: sound_def)

lemmas sound_ops = sound_close_cell sound_clear_fresh sound_gain sound_alloc sound_wf sound_drop

lemmas [wp_intros] = wp_fail_status wp_check_code wp_check_ptr wp_check_str wp_check_pending
  wp_quiet wp_check_code_bytes wp_raw_ptr_ready wp_raw_str_ready wp_free wp_take_live

text \<open>\<open>ext w w'\<close>: the wrappers that exist in \<open>w\<close> are the same in \<open>w'\<close>, which may have more.\<close>

definition ext :: "world \<Rightarrow> world \<Rightarrow> bool" where
  "ext w w' \<longleftrightarrow> next_ref w \<le> next_ref w' \<and> nix w' = nix w \<and> (\<forall>i < next_ref w. cells w' i = cells w i)"

lemma ext_simps [simp]:
  "ext w w"
  "ext w (with_hist h w') = ext w w'" "ext w (gain x w') = ext w w'"
  "ext w (drop_handle x w') = ext w w'"
  by (simp_all add: ext_def)

lemma ext_alloc [simp]: "ext w w' \<Longrightarrow> ext w (alloc_cell x w')"
  by (auto simp: ext_def)

lemma ext_trans: "ext w w' \<Longrightarrow> ext w' w'' \<Longrightarrow> ext w w''"
  by (auto simp: ext_def)

lemma ext_cell: "wf_cells w \<Longrightarrow> ext w w' \<Longrightarrow> cells w i = Some x \<Longrightarrow> cells w' i = Some x"
  using cells_bound [of w i x] by (auto simp: ext_def)

lemma ext_fresh_clear [simp]: "ext w w' \<Longrightarrow> next_ref w \<le> i \<Longrightarrow> ext w (clear_cell i w')"
  by (auto simp: ext_def)

lemma ext_next: "ext w w' \<Longrightarrow> next_ref w \<le> next_ref w'"
  by (simp add: ext_def)

section \<open>Operations that only add wrappers\<close>

text \<open>
  \<open>safe w\<close>: soundness for some set of temporaries. \<open>grows w w'\<close> is the contract of an operation
  that closes nothing: the ledger stays balanced whatever the temporaries are, the existing wrappers
  keep their handles, and every live handle stays live.
\<close>

definition safe :: "world \<Rightarrow> bool" where
  "safe w \<longleftrightarrow> \<not> fault w \<and> wf_cells w \<and> owned w \<subseteq># live w"

definition balanced :: "world \<Rightarrow> world \<Rightarrow> bool" where
  "balanced w w' \<longleftrightarrow> (\<forall>T. sound T w' = sound T w)"

definition grows :: "world \<Rightarrow> world \<Rightarrow> bool" where
  "grows w w' \<longleftrightarrow> balanced w w' \<and> ext w w' \<and> live w \<subseteq># live w'"

lemma safe_iff: "safe w \<longleftrightarrow> (\<exists>T. sound T w)"
  by (auto simp: safe_def sound_def subset_mset.le_iff_add)

lemma sound_safe: "sound T w \<Longrightarrow> safe w"
  by (auto simp: safe_iff)

lemma safe_not_fault: "safe w \<Longrightarrow> \<not> fault w"
  by (simp add: safe_def)

lemma safe_wf: "safe w \<Longrightarrow> wf_cells w"
  by (simp add: safe_def)

lemma safe_cell_live: "safe w \<Longrightarrow> cells w i = Some h \<Longrightarrow> h \<in># live w"
  by (auto simp: safe_iff intro: cell_live)

lemma balanced_safe: "balanced w w' \<Longrightarrow> safe w' = safe w"
  by (simp add: balanced_def safe_iff)

lemma safe_with_hist [simp]: "safe (with_hist h w) = safe w"
  by (simp add: safe_iff)

lemma safe_gain [simp]: "safe w \<Longrightarrow> safe (gain x w)"
  by (simp add: safe_def subset_add_mset_trans)

lemma safe_gain_alloc [simp]: "safe w \<Longrightarrow> safe (gain x (alloc_cell x w))"
  by (simp add: safe_def)

lemma sound_gain_alloc [simp]: "wf_cells w \<Longrightarrow> sound T (gain x (alloc_cell x w)) = sound T w"
  by (auto simp: sound_def)

lemma safe_clear_fresh [simp]: "safe w \<Longrightarrow> safe (clear_cell (next_ref w) (alloc_cell x w))"
  by (simp add: safe_def owned_clear_fresh)

lemma safe_close [simp]:
  "safe w \<Longrightarrow> cells w i = Some x \<Longrightarrow> safe (clear_cell i (drop_handle x w))"
  by (metis safe_iff sound_close_cell sound_wf cell_live)

lemmas [simp] = safe_not_fault safe_wf

lemma grows_sound: "grows w w' \<Longrightarrow> sound T w' = sound T w"
  by (simp add: grows_def balanced_def)

lemma grows_safe: "grows w w' \<Longrightarrow> safe w' = safe w"
  by (simp add: grows_def balanced_safe)

lemma grows_live: "grows w w' \<Longrightarrow> x \<in># live w \<Longrightarrow> x \<in># live w'"
  by (auto simp: grows_def dest: mset_subset_eqD)

lemma grows_ext: "grows w w' \<Longrightarrow> ext w w'"
  by (simp add: grows_def)

lemma grows_cell: "grows w w' \<Longrightarrow> safe w \<Longrightarrow> cells w i = Some x \<Longrightarrow> cells w' i = Some x"
  using ext_cell [of w w' i x] by (simp add: grows_def)

lemma grows_next: "grows w w' \<Longrightarrow> next_ref w \<le> next_ref w'"
  by (simp add: grows_def ext_next)

lemma grows_refl [simp]: "grows w w"
  by (simp add: grows_def balanced_def)

lemma grows_trans: "grows w w' \<Longrightarrow> grows w' w'' \<Longrightarrow> grows w w''"
  by (auto simp: grows_def balanced_def intro: ext_trans subset_mset.order_trans)

lemma grows_with_hist [simp]: "grows w (with_hist h w') = grows w w'" "grows (with_hist h w) w' = grows w w'"
  by (auto simp: grows_def balanced_def ext_def)

lemma grows_alloc [simp]: "safe w' \<Longrightarrow> grows w w' \<Longrightarrow> grows w (gain x (alloc_cell x w'))"
  by (simp add: grows_def balanced_def subset_add_mset_trans)

lemma grows_clear_fresh [simp]:
  "safe w' \<Longrightarrow> grows w w' \<Longrightarrow> grows w (clear_cell (next_ref w') (alloc_cell x w'))"
  by (auto simp: grows_def balanced_def sound_clear_fresh ext_next)

text \<open>An operation run while a handle \<open>x\<close> is held as a temporary.\<close>

lemma grows_gain: "grows (gain x w) w' \<Longrightarrow> safe w \<Longrightarrow> sound (add_mset x T) w' = sound T w"
  by (simp add: grows_sound sound_gain)

lemma grows_gain_drop: "grows (gain x w) w' \<Longrightarrow> safe w \<Longrightarrow> grows w (drop_handle x w')"
  by (auto simp: grows_def balanced_def ext_def sound_drop sound_gain insert_subset_eq_iff
      dest: mset_subset_eqD)

lemma ptr_at_cell: "cells w i = Some (k, p) \<Longrightarrow> ptr_at k i w = Some p"
  by (simp add: ptr_at_def)

text \<open>Keeping the ledger balanced and the existing wrappers as they are is enough.\<close>

lemma ext_owned: "ext w w' \<Longrightarrow> owned w \<subseteq># owned w'"
proof -
  assume "ext w w'"
  then have le: "next_ref w \<le> next_ref w'" and same: "\<forall>i < next_ref w. cells w' i = cells w i"
    by (simp_all add: ext_def)
  have "owned w = (\<Sum>i<next_ref w. opt_mset (cells w' i))"
    using same by (auto simp: owned_def intro: sum.cong)
  moreover have "owned w' = (\<Sum>i<next_ref w. opt_mset (cells w' i)) +
      (\<Sum>i = next_ref w..<next_ref w'. opt_mset (cells w' i))"
    using le by (metis owned_def sum.atLeastLessThan_concat atLeast0LessThan zero_le)
  ultimately show ?thesis by simp
qed

lemma growsI:
  assumes "safe w" "balanced w w'" "ext w w'" shows "grows w w'"
proof -
  from assms(1) obtain T where T: "sound T w" by (auto simp: safe_iff)
  with assms(2) have "sound T w'" by (simp add: balanced_def)
  with T ext_owned [OF assms(3)] have "live w \<subseteq># live w'" by (simp add: sound_def)
  with assms show ?thesis by (simp add: grows_def)
qed

lemma grows_close_fresh:
  assumes "safe w" "grows w w'" "next_ref w \<le> i" "cells w' i = Some x"
  shows "grows w (clear_cell i (drop_handle x w'))"
proof (rule growsI)
  have safe: "safe w'" using assms by (simp add: grows_safe)
  then have "x \<in># live w'" using assms(4) by (rule safe_cell_live)
  with assms safe show "balanced w (clear_cell i (drop_handle x w'))"
    by (simp add: balanced_def sound_close_cell grows_sound)
  show "ext w (clear_cell i (drop_handle x w'))"
    using assms by (simp add: grows_ext)
qed (rule assms)

text \<open>\<open>created k w i w'\<close>: wrapper \<open>i\<close> did not exist in \<open>w\<close> and is open in \<open>w'\<close>.\<close>

definition created :: "kind \<Rightarrow> world \<Rightarrow> nat \<Rightarrow> world \<Rightarrow> bool" where
  "created k w i w' \<longleftrightarrow> next_ref w \<le> i \<and> (\<exists>p. cells w' i = Some (k, p))"

lemma created_simps [simp]:
  "created k (with_hist h w) i w' = created k w i w'" "created k w i (with_hist h w') = created k w i w'"
  "created k w i (gain x w') = created k w i w'" "created k w i (drop_handle x w') = created k w i w'"
  "created k (gain x w) i w' = created k w i w'"
  by (simp_all add: created_def)

lemma created_alloc [simp]:
  "i = next_ref w' \<Longrightarrow> created k w i (alloc_cell (k, p) w') = (next_ref w \<le> i)"
  by (simp add: created_def)

lemma created_trans: "grows w w' \<Longrightarrow> created k w' i w'' \<Longrightarrow> created k w i w''"
  by (auto simp: created_def dest: grows_next)

lemma created_grows: "created k w i w' \<Longrightarrow> safe w' \<Longrightarrow> grows w' w'' \<Longrightarrow> created k w i w''"
  by (auto simp: created_def intro: grows_cell)

lemma created_not_None: "created k w i w' \<Longrightarrow> ptr_at k i w' \<noteq> None"
  by (auto simp: created_def ptr_at_def)

text \<open>The contract of an operation that returns a new wrapper, as a postcondition.\<close>

definition creates :: "kind \<Rightarrow> ('r \<Rightarrow> nat) \<Rightarrow> world \<Rightarrow> 'r res \<Rightarrow> world \<Rightarrow> bool" where
  "creates k ident w r w' \<longleftrightarrow> grows w w' \<and> (\<forall>q. r = Inr q \<longrightarrow> created k w (ident q) w')"

lemma creates_Inl [simp]: "creates k f w (Inl e) w' = grows w w'"
  by (simp add: creates_def)

lemma creates_Inr [simp]: "creates k f w (Inr q) w' \<longleftrightarrow> grows w w' \<and> created k w (f q) w'"
  by (simp add: creates_def)

lemma creates_grows: "creates k f w r w' \<Longrightarrow> grows w w'"
  by (simp add: creates_def)

text \<open>The contracts as steps of a symbolic execution.\<close>

lemma wp_createsI:
  assumes "wp m (creates k f w) w" "\<And>e w'. grows w w' \<Longrightarrow> Q (Inl e) w'"
    "\<And>q w'. grows w w' \<Longrightarrow> created k w (f q) w' \<Longrightarrow> Q (Inr q) w'"
  shows "wp m Q w"
  using assms(1)
proof (rule wp_mono)
  fix r w' assume "creates k f w r w'"
  then show "Q r w'" using assms(2,3) by (cases r) auto
qed

lemma wp_growsI: "wp m (\<lambda>r w'. grows w w') w \<Longrightarrow> (\<And>r w'. grows w w' \<Longrightarrow> Q r w') \<Longrightarrow> wp m Q w"
  by (rule wp_mono)

text \<open>A call that releases a handle and returns a status code.\<close>

lemma wp_raw_code_free:
  assumes "frees c \<noteq> None" "ready w (the (frees c) # uses c)"
    "\<And>r h. Q r (with_hist h (drop_handle (the (frees c)) w))"
  shows "wp (raw_code c) Q w"
  using assms by (auto simp: wp_raw tick_free)

end
