(* ===== verification/Lifecycle.thy ===== *)
theory Lifecycle
  imports Reasoning
begin

text \<open>
  The contract shared by the wrappers of the SDK: a wrapper owns one native handle; \<^verbatim>\<open>Borrow\<close>
  lends it while the wrapper is open and reports \<^verbatim>\<open>ErrClosed\<close> afterwards; \<^verbatim>\<open>Close\<close>
  releases it exactly once and may be called any number of times. Every wrapper of the SDK but
  \<^verbatim>\<open>eval.Value\<close>, whose release needs its context, interprets this interface.
\<close>

section \<open>The interface\<close>

locale wrapper =
  fixes kind :: kind
    and ident :: "'r \<Rightarrow> nat"
    and free_call :: "ptr \<Rightarrow> call"
    and borrow :: "'r \<Rightarrow> ptr res io"
    and close :: "'r \<Rightarrow> unit res io"
  assumes frees_free: "frees (free_call p) = Some (kind, p)"
    and uses_free: "uses (free_call p) = []"
    and borrow_run: "run_state (borrow r) w =
      (case ptr_at kind (ident r) w of None \<Rightarrow> (Inl ErrClosed, w) | Some p \<Rightarrow> (Inr p, w))"
    and close_run: "run_state (close r) w =
      (case ptr_at kind (ident r) w of None \<Rightarrow> (Inr (), w)
       | Some p \<Rightarrow> (Inr (), clear_cell (ident r) (tick (free_call p) w)))"
begin

lemma close_ok: "fst (run_state (close r) w) = Inr ()"
  by (simp add: close_run split: option.split)

lemma ptr_after_close: "ptr_at kind (ident r) (snd (run_state (close r) w)) = None"
  by (simp add: close_run ptr_at_def split: option.split)

lemma close_idempotent: "run_state (do { close r; close r }) w = run_state (close r) w"
  using ptr_after_close [of r w] close_ok [of r w]
  by (cases "run_state (close r) w") (simp add: close_run [of r])

lemma borrow_after_close: "run_state (borrow r) (snd (run_state (close r) w)) =
    (Inl ErrClosed, snd (run_state (close r) w))"
  by (simp add: borrow_run ptr_after_close)

lemma close_other: "i \<noteq> ident r \<Longrightarrow> ptr_at k i (snd (run_state (close r) w)) = ptr_at k i w"
  by (simp add: close_run ptr_at_def split: option.split)

lemma close_frees_once:
  "hist (snd (run_state (close r) w)) =
     (case ptr_at kind (ident r) w of None \<Rightarrow> [] | Some p \<Rightarrow> [free_call p]) @ hist w"
  by (simp add: close_run split: option.split)

lemma close_sound:
  assumes "sound T w" shows "sound T (snd (run_state (close r) w))"
proof (cases "ptr_at kind (ident r) w")
  case None
  with assms show ?thesis by (simp add: close_run)
next
  case (Some p)
  then have cell: "cells w (ident r) = Some (kind, p)" by (simp add: ptr_at_Some)
  moreover from this assms have "(kind, p) \<in># live w" by (simp add: cell_live)
  moreover from this assms have "tick (free_call p) w = with_hist (free_call p # hist w) (drop_handle (kind, p) w)"
    by (intro tick_free) (auto simp: frees_free uses_free sound_not_fault)
  ultimately show ?thesis
    using assms by (simp add: close_run Some sound_close_cell sound_wf)
qed

text \<open>Closing removes the handle from what the wrappers own.\<close>

lemma close_disowns:
  assumes "sound T w" and "ptr_at kind (ident r) w = Some p"
  shows "owned w = add_mset (kind, p) (owned (snd (run_state (close r) w)))"
proof -
  have "cells w (ident r) = Some (kind, p)" using assms(2) by (simp add: ptr_at_Some)
  then have "owned w = add_mset (kind, p) (owned (clear_cell (ident r) w))"
    using assms(1) by (intro owned_clear_cell) (auto simp: sound_wf)
  then show ?thesis by (simp add: close_run assms(2) owned_def)
qed

text \<open>However often a wrapper is closed, in between other calls that leave it alone, its handle is
  released once: a second close makes no native call.\<close>

fun close_times :: "nat \<Rightarrow> 'r \<Rightarrow> unit res io" where
  "close_times 0 r = ok ()"
| "close_times (Suc n) r = do { x \<leftarrow> close r; close_times n r }"

lemma close_times_run:
  "run_state (close_times (Suc n) r) w = run_state (close r) w"
proof (induction n arbitrary: w)
  case 0
  show ?case using close_ok [of r w] by (cases "run_state (close r) w") (simp add: ok_def)
next
  case (Suc n)
  have "run_state (close_times (Suc (Suc n)) r) w =
      run_state (close_times (Suc n) r) (snd (run_state (close r) w))"
    by (simp split: prod.split)
  also have "\<dots> = run_state (close r) (snd (run_state (close r) w))"
    by (rule Suc)
  also have "\<dots> = run_state (close r) w"
    using close_idempotent [of r w] by (simp split: prod.splits)
  finally show ?case .
qed

text \<open>The two operations as steps of a symbolic execution.\<close>

lemma wp_borrow:
  assumes "safe w" "ptr_at kind (ident r) w = None \<Longrightarrow> Q (Inl ErrClosed) w"
    "\<And>p. cells w (ident r) = Some (kind, p) \<Longrightarrow> (kind, p) \<in># live w \<Longrightarrow> Q (Inr p) w"
  shows "wp (borrow r) Q w"
  using assms by (auto simp: wp_def borrow_run ptr_at_Some safe_cell_live split: option.split)

lemma wp_close:
  assumes "safe w" "ptr_at kind (ident r) w = None \<Longrightarrow> Q (Inr ()) w"
    "\<And>p h. cells w (ident r) = Some (kind, p) \<Longrightarrow> (kind, p) \<in># live w \<Longrightarrow>
      Q (Inr ()) (with_hist h (clear_cell (ident r) (drop_handle (kind, p) w)))"
  shows "wp (close r) Q w"
proof (cases "ptr_at kind (ident r) w")
  case None
  with assms show ?thesis by (simp add: wp_def close_run)
next
  case (Some p)
  then have cell: "cells w (ident r) = Some (kind, p)" by (simp add: ptr_at_Some)
  moreover from this assms(1) have live: "(kind, p) \<in># live w" by (simp add: safe_cell_live)
  moreover from this assms(1) have "tick (free_call p) w = with_hist (free_call p # hist w) (drop_handle (kind, p) w)"
    by (intro tick_free) (auto simp: frees_free uses_free)
  ultimately show ?thesis
    using assms(3) Some by (simp add: wp_def close_run)
qed

end

section \<open>Wrappers that can be cloned\<close>

locale cloneable = wrapper kind ident free_call borrow close
  for kind :: kind and ident :: "'r \<Rightarrow> nat" and free_call :: "ptr \<Rightarrow> call"
    and borrow :: "'r \<Rightarrow> ptr res io" and close :: "'r \<Rightarrow> unit res io" +
  fixes clone :: "'r \<Rightarrow> 'r res io"
  assumes clone_creates: "safe w \<Longrightarrow> wp (clone r) (creates kind ident w) w"
    and clone_closed: "ptr_at kind (ident r) w = None \<Longrightarrow> run_state (clone r) w = (Inl ErrClosed, w)"
begin

text \<open>A clone is independent of its original: whichever is closed first, the other stays open.\<close>

lemma clone_independent:
  assumes "safe w" "run_state (clone r) w = (Inr q, w')"
  shows "ident q \<noteq> ident r"
    and "ptr_at kind (ident q) (snd (run_state (close r) w')) \<noteq> None"
    and "ptr_at kind (ident r) (snd (run_state (close q) w')) = ptr_at kind (ident r) w"
proof -
  from wp_run [OF assms(2) clone_creates [OF assms(1)]]
  have g: "grows w w'" and c: "created kind w (ident q) w'" by simp_all
  have "ptr_at kind (ident r) w \<noteq> None"
    using clone_closed [of r w] assms(2) by fastforce
  then obtain p where cell: "cells w (ident r) = Some (kind, p)" by (auto simp: ptr_at_Some)
  then have "ident r < next_ref w" using assms(1) by (auto intro: cells_bound)
  then show neq: "ident q \<noteq> ident r" using c by (auto simp: created_def)
  then show "ptr_at kind (ident q) (snd (run_state (close r) w')) \<noteq> None"
    using created_not_None [OF c] by (simp add: close_other)
  have "cells w' (ident r) = cells w (ident r)"
    using cell g assms(1) by (simp add: grows_cell)
  then show "ptr_at kind (ident r) (snd (run_state (close q) w')) = ptr_at kind (ident r) w"
    using neq by (subst close_other) (auto simp: ptr_at_def)
qed

text \<open>Cloning and closing both leaves the ledger as closing the original alone would.\<close>

lemma clone_close_sound:
  assumes "sound T w" "run_state (clone r) w = (Inr q, w')"
  shows "sound T (snd (run_state (close q) w'))"
    and "sound T (snd (run_state (close r) (snd (run_state (close q) w'))))"
proof -
  have "sound T w'"
    using wp_run [OF assms(2) clone_creates [OF sound_safe [OF assms(1)]]] assms(1)
    by (auto simp: grows_sound)
  then show "sound T (snd (run_state (close q) w'))" by (rule close_sound)
  then show "sound T (snd (run_state (close r) (snd (run_state (close q) w'))))" by (rule close_sound)
qed

end

lemma close_run_eq:
  assumes "close = do { p \<leftarrow> get_ptr k i; (case p of None \<Rightarrow> ok ()
    | Some p \<Rightarrow> do { raw_free (c p); set_nil i; ok () }) }"
  shows "run_state close w = (case ptr_at k i w of None \<Rightarrow> (Inr (), w)
    | Some p \<Rightarrow> (Inr (), clear_cell i (tick (c p) w)))"
  unfolding assms
  by (simp add: get_ptr_def ok_def raw_free_def raw_unit_def set_nil_def split: option.split)

lemma borrow_run_eq:
  assumes "borrow = do { p \<leftarrow> get_ptr k i; (case p of None \<Rightarrow> fail ErrClosed | Some p \<Rightarrow> ok p) }"
  shows "run_state borrow w = (case ptr_at k i w of None \<Rightarrow> (Inl ErrClosed, w) | Some p \<Rightarrow> (Inr p, w))"
  unfolding assms by (simp add: get_ptr_def ok_def fail_def split: option.split)

end
