(* ===== verification/Nix_Context.thy ===== *)
theory Nix_Context
  imports Lifecycle
begin

text \<open>
  \<^verbatim>\<open>nixcontext/context.go\<close>: the Nix context, its initialisation, settings, verbosity and
  logging, and its lifecycle.
\<close>

text \<open>\<^verbatim>\<open>Verbosity\<close>, ordered as the Go integers it is.\<close>

datatype verbosity = Verbosity (verbosity_int: int)

instantiation verbosity :: linorder
begin

definition less_eq_verbosity :: "verbosity \<Rightarrow> verbosity \<Rightarrow> bool" where
  "less_eq_verbosity a b \<longleftrightarrow> verbosity_int a \<le> verbosity_int b"

definition less_verbosity :: "verbosity \<Rightarrow> verbosity \<Rightarrow> bool" where
  "less_verbosity a b \<longleftrightarrow> verbosity_int a < verbosity_int b"

instance
  by standard (auto simp: less_eq_verbosity_def less_verbosity_def intro: verbosity.expand)

end

definition VerbosityDefault :: verbosity where "VerbosityDefault = Verbosity 0"
definition VerbosityError :: verbosity where "VerbosityError = Verbosity 1"
definition VerbosityWarn :: verbosity where "VerbosityWarn = Verbosity 2"
definition VerbosityNotice :: verbosity where "VerbosityNotice = Verbosity 3"
definition VerbosityInfo :: verbosity where "VerbosityInfo = Verbosity 4"
definition VerbosityTalkative :: verbosity where "VerbosityTalkative = Verbosity 5"
definition VerbosityChatty :: verbosity where "VerbosityChatty = Verbosity 6"
definition VerbosityDebug :: verbosity where "VerbosityDebug = Verbosity 7"
definition VerbosityVomit :: verbosity where "VerbosityVomit = Verbosity 8"

type_synonym log_format = string

definition LogFormatRaw :: log_format where "LogFormatRaw = ''raw''"
definition LogFormatRawWithLogs :: log_format where "LogFormatRawWithLogs = ''raw-with-logs''"
definition LogFormatInternalJSON :: log_format where "LogFormatInternalJSON = ''internal-json''"
definition LogFormatBar :: log_format where "LogFormatBar = ''bar''"
definition LogFormatBarWithLogs :: log_format where "LogFormatBarWithLogs = ''bar-with-logs''"

text \<open>A \<^verbatim>\<open>*Context\<close> is its identity: the only field is \<^verbatim>\<open>ptr\<close>.\<close>

record context_ref =
  ctx_id :: nat

section \<open>Operations\<close>

text \<open>\<^verbatim>\<open>Context.Borrow\<close>.\<close>

definition context_borrow :: "context_ref \<Rightarrow> ptr res io" where
  "context_borrow c = do {
     p \<leftarrow> get_ptr KContext (ctx_id c);
     (case p of None \<Rightarrow> fail ErrClosed | Some p \<Rightarrow> ok p)
   }"

text \<open>\<^verbatim>\<open>Context.Close\<close> on a non-nil receiver.\<close>

definition context_close :: "context_ref \<Rightarrow> unit res io" where
  "context_close c = do {
     p \<leftarrow> get_ptr KContext (ctx_id c);
     (case p of
        None \<Rightarrow> ok ()
      | Some p \<Rightarrow> do { raw_free (U (CContextFree p)); set_nil (ctx_id c); ok () })
   }"

interpretation ctx: wrapper KContext ctx_id "\<lambda>p. U (CContextFree p)" context_borrow context_close
  by unfold_locales (auto intro: close_run_eq [OF context_close_def] borrow_run_eq [OF context_borrow_def])

lemmas [wp_intros] = ctx.wp_borrow ctx.wp_close

text \<open>
  \<^verbatim>\<open>New\<close>. The deferred closure closes the context whenever \<^verbatim>\<open>err\<close> was set, that is on every
  error return after the context exists. \<^verbatim>\<open>err\<close> has type \<^verbatim>\<open>error\<close>, so it is not nil
  even when \<^verbatim>\<open>FromContext\<close> returned a nil \<^verbatim>\<open>*NixError\<close>.
\<close>

definition context_new :: "bool \<Rightarrow> context_ref res io" where
  "context_new load_config = do {
     p \<leftarrow> raw_ptr (U CContextCreate);
     (case p of
        None \<Rightarrow> fail (errorf ''nixcontext: create context'' [])
      | Some p \<Rightarrow> do {
          i \<leftarrow> new_cell KContext p;
          let ctx = \<lparr>ctx_id = i\<rparr>;
          let give_up = (\<lambda>e. do { r \<leftarrow> context_close ctx; fail e });
          attempt (check_code p (U (LibutilInit p)) ''nixcontext: initialize util library: %w'' [])
            give_up (\<lambda>_.
          attempt (check_code p (U (if load_config then LibstoreInit p else LibstoreInitNoLoadConfig p))
              ''nixcontext: initialize store library: %w'' [])
            give_up (\<lambda>_.
          attempt (check_code p (U (LibexprInit p)) ''nixcontext: initialize expression library: %w'' [])
            give_up (\<lambda>_. ok ctx)))
        })
   }"

definition context_setting :: "context_ref \<Rightarrow> string \<Rightarrow> string res io" where
  "context_setting c key =
     chk (context_borrow c) (\<lambda>e. e) (\<lambda>p.
     chk (check_str p (U (SettingGet p key)) ''nixcontext: failed to get setting %q: %w'' [AStr key])
       (\<lambda>e. e) (\<lambda>s. do {
         v \<leftarrow> take_cstring (Some s);
         ok v
       }))"

definition context_set_setting :: "context_ref \<Rightarrow> string \<Rightarrow> string \<Rightarrow> unit res io" where
  "context_set_setting c key val =
     chk (context_borrow c) (\<lambda>e. e) (\<lambda>p.
     check_code p (U (SettingSet p key val)) ''nixcontext: failed to set setting %q: %w'' [AStr key])"

text \<open>\<^verbatim>\<open>SetVerbosity\<close>: the native levels start at 0 for \<^verbatim>\<open>VerbosityError\<close>.\<close>

definition context_set_verbosity :: "context_ref \<Rightarrow> verbosity \<Rightarrow> unit res io" where
  "context_set_verbosity c level =
     chk (context_borrow c) (\<lambda>e. e) (\<lambda>p.
       if level = VerbosityDefault then ok ()
       else if level < VerbosityError \<or> level > VerbosityVomit
       then fail (errorf ''nixcontext: invalid verbosity %d'' [ANum (verbosity_int level)])
       else check_code p
         (U (RawSetVerbosity p (verbosity_int level - verbosity_int VerbosityError)))
         ''nixcontext: failed to set verbosity: %w'' [])"

definition context_set_log_format :: "context_ref \<Rightarrow> log_format \<Rightarrow> unit res io" where
  "context_set_log_format c fmt =
     chk (context_borrow c) (\<lambda>e. e) (\<lambda>p.
       if fmt = '''' then ok ()
       else check_code p (U (RawSetLogFormat p fmt)) ''nixcontext: failed to set log format: %w'' [])"

definition context_set_log_sink_path :: "context_ref \<Rightarrow> string \<Rightarrow> unit res io" where
  "context_set_log_sink_path c dest =
     chk (context_borrow c) (\<lambda>e. e) (\<lambda>p.
       if dest = '''' then ok ()
       else check_code p (U (LogSinkInstall p dest))
         ''nixcontext: failed to install log sink destination: %w'' [])"

section \<open>Proof rules\<close>

lemma context_new_grows:
  assumes "safe w"
  shows "wp (context_new b) (\<lambda>r w'. grows w w' \<and> (case r of Inl e \<Rightarrow> True
     | Inr c \<Rightarrow> next_ref w \<le> ctx_id c \<and> ptr_at KContext (ctx_id c) w' \<noteq> None)) w"
  unfolding context_new_def
  using assms by (auto simp: wp_rules Let_def ptr_at_def intro!: wp_intros split: option.split sum.split)

lemma context_setting_grows:
  "safe w \<Longrightarrow> wp (context_setting c k) (\<lambda>r w'. grows w w') w"
  "safe w \<Longrightarrow> wp (context_set_setting c k v) (\<lambda>r w'. grows w w') w"
  "safe w \<Longrightarrow> wp (context_set_verbosity c lv) (\<lambda>r w'. grows w w') w"
  "safe w \<Longrightarrow> wp (context_set_log_format c f) (\<lambda>r w'. grows w w') w"
  "safe w \<Longrightarrow> wp (context_set_log_sink_path c f) (\<lambda>r w'. grows w w') w"
  unfolding context_setting_def context_set_setting_def context_set_verbosity_def
    context_set_log_format_def context_set_log_sink_path_def
  by (auto simp: wp_rules intro!: wp_intros split: option.split sum.split)

end
