(* ===== verification/Settings.thy ===== *)
theory Settings
  imports Nix_Context
begin

text \<open>
  \<^verbatim>\<open>fetchers/settings.go\<close> and \<^verbatim>\<open>flakesettings/settings.go\<close>: the owned settings
  handles.
\<close>

record fetchers_ref =
  fs_id :: nat
  fs_ctx :: context_ref

definition fetchers_new :: "context_ref \<Rightarrow> fetchers_ref res io" where
  "fetchers_new ctx =
     chk (context_borrow ctx) (wrapf ''fetchers: failed to borrow context: %w'' []) (\<lambda>raw_ctx.
     chk (check_ptr raw_ctx (U (FetchersSettingsNew raw_ctx)) ''fetchers: failed to create settings: %w'' [])
       (\<lambda>e. e) (\<lambda>p. do {
         i \<leftarrow> new_cell KFetchers p;
         ok \<lparr>fs_id = i, fs_ctx = ctx\<rparr>
       }))"

definition fetchers_borrow :: "fetchers_ref \<Rightarrow> ptr res io" where
  "fetchers_borrow s = do {
     p \<leftarrow> get_ptr KFetchers (fs_id s);
     (case p of None \<Rightarrow> fail ErrClosed | Some p \<Rightarrow> ok p)
   }"

definition fetchers_close :: "fetchers_ref \<Rightarrow> unit res io" where
  "fetchers_close s = do {
     p \<leftarrow> get_ptr KFetchers (fs_id s);
     (case p of
        None \<Rightarrow> ok ()
      | Some p \<Rightarrow> do { raw_free (U (FetchersSettingsFree p)); set_nil (fs_id s); ok () })
   }"

record flakesettings_ref =
  fl_id :: nat
  fl_ctx :: context_ref

definition flakesettings_new :: "context_ref \<Rightarrow> flakesettings_ref res io" where
  "flakesettings_new ctx =
     chk (context_borrow ctx) (wrapf ''flake: failed to borrow context: %w'' []) (\<lambda>raw_ctx.
     chk (check_ptr raw_ctx (U (FlakeSettingsNew raw_ctx)) ''flake: failed to create settings: %w'' [])
       (\<lambda>e. e) (\<lambda>p. do {
         i \<leftarrow> new_cell KFlakeSettings p;
         ok \<lparr>fl_id = i, fl_ctx = ctx\<rparr>
       }))"

definition flakesettings_borrow :: "flakesettings_ref \<Rightarrow> ptr res io" where
  "flakesettings_borrow s = do {
     p \<leftarrow> get_ptr KFlakeSettings (fl_id s);
     (case p of None \<Rightarrow> fail ErrClosed | Some p \<Rightarrow> ok p)
   }"

definition flakesettings_close :: "flakesettings_ref \<Rightarrow> unit res io" where
  "flakesettings_close s = do {
     p \<leftarrow> get_ptr KFlakeSettings (fl_id s);
     (case p of
        None \<Rightarrow> ok ()
      | Some p \<Rightarrow> do { raw_free (U (FlakeSettingsFree p)); set_nil (fl_id s); ok () })
   }"

interpretation fetch: wrapper KFetchers fs_id "\<lambda>p. U (FetchersSettingsFree p)" fetchers_borrow fetchers_close
  by unfold_locales (auto intro: close_run_eq [OF fetchers_close_def] borrow_run_eq [OF fetchers_borrow_def])

interpretation flset: wrapper KFlakeSettings fl_id "\<lambda>p. U (FlakeSettingsFree p)"
    flakesettings_borrow flakesettings_close
  by unfold_locales
    (auto intro: close_run_eq [OF flakesettings_close_def] borrow_run_eq [OF flakesettings_borrow_def])

lemmas [wp_intros] = fetch.wp_borrow fetch.wp_close flset.wp_borrow flset.wp_close

lemma fetchers_new_grows:
  "safe w \<Longrightarrow> wp (fetchers_new ctx) (\<lambda>r w'. grows w w' \<and> (case r of Inl e \<Rightarrow> True
     | Inr s \<Rightarrow> next_ref w \<le> fs_id s \<and> fs_ctx s = ctx \<and> ptr_at KFetchers (fs_id s) w' \<noteq> None)) w"
  unfolding fetchers_new_def
  by (auto simp: wp_rules ptr_at_def intro!: wp_intros split: option.split sum.split)

lemma flakesettings_new_grows:
  "safe w \<Longrightarrow> wp (flakesettings_new ctx) (\<lambda>r w'. grows w w' \<and> (case r of Inl e \<Rightarrow> True
     | Inr s \<Rightarrow> next_ref w \<le> fl_id s \<and> fl_ctx s = ctx \<and> ptr_at KFlakeSettings (fl_id s) w' \<noteq> None)) w"
  unfolding flakesettings_new_def
  by (auto simp: wp_rules ptr_at_def intro!: wp_intros split: option.split sum.split)

end
