(* ===== verification/Client_Config.thy ===== *)
theory Client_Config
  imports Go_Fields Store_Config Settings
begin

text \<open>
  \<^verbatim>\<open>client_config.go\<close>: the Go-native client configuration and \<^verbatim>\<open>Serialize\<close>, which
  turns it into Nix settings; \<^verbatim>\<open>eval/options.go\<close>, the evaluator options that are part of
  it. A returned Go map is an association list with distinct keys.
\<close>

section \<open>Names\<close>

definition settingAllowImportFromDerivation :: string where
  "settingAllowImportFromDerivation = ''allow-import-from-derivation''"
definition settingAcceptFlakeConfig :: string where
  "settingAcceptFlakeConfig = ''accept-flake-config''"
definition settingPureEval :: string where "settingPureEval = ''pure-eval''"
definition settingCores :: string where "settingCores = ''cores''"
definition settingMaxJobs :: string where "settingMaxJobs = ''max-jobs''"
definition settingSystem :: string where "settingSystem = ''system''"
definition settingEvalSystem :: string where "settingEvalSystem = ''eval-system''"
definition settingExperimentalFeatures :: string where
  "settingExperimentalFeatures = ''experimental-features''"
definition settingSubstituters :: string where "settingSubstituters = ''substituters''"
definition settingTrustedPublicKeys :: string where
  "settingTrustedPublicKeys = ''trusted-public-keys''"

lemmas setting_defs = settingAllowImportFromDerivation_def settingAcceptFlakeConfig_def
  settingPureEval_def settingCores_def settingMaxJobs_def settingSystem_def settingEvalSystem_def
  settingExperimentalFeatures_def settingSubstituters_def settingTrustedPublicKeys_def

definition ExperimentalFeatureNixCommand :: string where
  "ExperimentalFeatureNixCommand = ''nix-command''"
definition ExperimentalFeatureFlakes :: string where "ExperimentalFeatureFlakes = ''flakes''"
definition ExperimentalFeatureFetchTree :: string where
  "ExperimentalFeatureFetchTree = ''fetch-tree''"
definition ExperimentalFeatureCADerivations :: string where
  "ExperimentalFeatureCADerivations = ''ca-derivations''"

section \<open>Evaluator options\<close>

record eval_config =
  lookupPath :: "string list"
  flakesettings :: "flakesettings_ref option"

type_synonym eval_option = "eval_config \<Rightarrow> eval_config"

definition zero_eval_config :: eval_config where
  "zero_eval_config = \<lparr>lookupPath = [], flakesettings = None\<rparr>"

definition WithLookupPath :: "string list \<Rightarrow> eval_option" where
  "WithLookupPath entries c = c\<lparr>lookupPath := lookupPath c @ entries\<rparr>"

definition WithFlakeSettings :: "flakesettings_ref \<Rightarrow> eval_option" where
  "WithFlakeSettings settings c = c\<lparr>flakesettings := Some settings\<rparr>"

section \<open>ClientConfig\<close>

record client_config =
  LoadConfig :: bool
  AllowImportFromDerivation :: bool
  AcceptFlakeConfig :: bool
  PureEval :: bool
  Cores :: int
  MaxJobs :: int
  System :: string
  EvalSystem :: string
  cfg_Verbosity :: verbosity
  cfg_LogFormat :: log_format
  LogSinkPath :: string
  ExperimentalFeatures :: "string list"
  Substituters :: "string list"
  TrustedPublicKeys :: "string list"
  Store_URI :: string
  Store_Opts :: "store_option list"
  Eval_Opts :: "eval_option list"
  RawSettings :: "(string \<times> string) list"

definition zero_client_config :: client_config where
  "zero_client_config = \<lparr>LoadConfig = False, AllowImportFromDerivation = False,
     AcceptFlakeConfig = False, PureEval = False, Cores = 0, MaxJobs = 0, System = '''',
     EvalSystem = '''', cfg_Verbosity = VerbosityDefault, cfg_LogFormat = '''', LogSinkPath = '''',
     ExperimentalFeatures = [], Substituters = [], TrustedPublicKeys = [], Store_URI = '''',
     Store_Opts = [], Eval_Opts = [], RawSettings = []\<rparr>"

section \<open>Serialize\<close>

text \<open>\<^verbatim>\<open>formatSettingList\<close>: two loops fill a set, then the set is listed and sorted. The
  argument \<open>order\<close> stands for the order in which \<^verbatim>\<open>range set\<close> meets the elements.\<close>

fun setting_set :: "string list \<Rightarrow> string list \<Rightarrow> string list" where
  "setting_set s [] = s"
| "setting_set s (value # values) =
     setting_set (foldl (\<lambda>s field. List.insert field s) s (split_fields value)) values"

definition format_setting_list :: "(string list \<Rightarrow> string list) \<Rightarrow> string list \<Rightarrow> string" where
  "format_setting_list order values = join_with '' '' (sort_strings (order (setting_set [] values)))"

definition put_if :: "bool \<Rightarrow> string \<Rightarrow> string \<Rightarrow> (string \<times> string) list \<Rightarrow> (string \<times> string) list" where
  "put_if b k v m = (if b then map_set k v m else m)"

text \<open>The settings before \<^verbatim>\<open>RawSettings\<close> are copied over them.\<close>

definition typed_settings ::
  "(string list \<Rightarrow> string list) \<Rightarrow> client_config \<Rightarrow> (string \<times> string) list" where
  "typed_settings order c =
     (let settings = [];
          settings = put_if (AllowImportFromDerivation c)
            settingAllowImportFromDerivation (format_bool True) settings;
          settings = put_if (AcceptFlakeConfig c) settingAcceptFlakeConfig (format_bool True) settings;
          settings = put_if (PureEval c) settingPureEval (format_bool True) settings;
          settings = put_if (Cores c \<noteq> 0) settingCores (itoa (Cores c)) settings;
          settings = put_if (MaxJobs c \<noteq> 0) settingMaxJobs (itoa (MaxJobs c)) settings;
          settings = put_if (System c \<noteq> '''') settingSystem (System c) settings;
          settings = put_if (EvalSystem c \<noteq> '''') settingEvalSystem (EvalSystem c) settings;
          settings = put_if (Substituters c \<noteq> []) settingSubstituters
            (format_setting_list order (Substituters c)) settings;
          settings = put_if (TrustedPublicKeys c \<noteq> []) settingTrustedPublicKeys
            (format_setting_list order (TrustedPublicKeys c)) settings;
          rawFeaturesSet = (map_of (RawSettings c) settingExperimentalFeatures \<noteq> None)
      in if ExperimentalFeatures c \<noteq> []
         then map_set settingExperimentalFeatures
           (format_setting_list order (ExperimentalFeatures c)) settings
         else if \<not> rawFeaturesSet
         then map_set settingExperimentalFeatures
           (format_setting_list order [ExperimentalFeatureNixCommand, ExperimentalFeatureFlakes]) settings
         else settings)"

definition serialize :: "(string list \<Rightarrow> string list) \<Rightarrow> client_config \<Rightarrow> (string \<times> string) list" where
  "serialize order c = map_copy (typed_settings order c) (RawSettings c)"

section \<open>Setting lists\<close>

text \<open>An order of iteration lists the elements of the set, each once.\<close>

definition iteration :: "('a list \<Rightarrow> 'a list) \<Rightarrow> bool" where
  "iteration order \<longleftrightarrow> (\<forall>xs. mset (order xs) = mset xs)"

lemma iteration_id: "iteration (\<lambda>xs. xs)" and iteration_rev: "iteration rev"
  by (simp_all add: iteration_def)

lemma foldl_insert:
  "set (foldl (\<lambda>s x. List.insert x s) s xs) = set s \<union> set xs"
  "distinct s \<Longrightarrow> distinct (foldl (\<lambda>s x. List.insert x s) s xs)"
  by (induction xs arbitrary: s) auto

lemma set_setting_set: "set (setting_set s vs) = set s \<union> (\<Union>v\<in>set vs. set (split_fields v))"
  by (induction s vs rule: setting_set.induct) (auto simp: foldl_insert)

lemma distinct_setting_set: "distinct s \<Longrightarrow> distinct (setting_set s vs)"
  by (induction s vs rule: setting_set.induct) (auto simp: foldl_insert)

lemma sort_iteration: "iteration order \<Longrightarrow> sort_strings (order xs) = sort_strings xs"
  by (rule sort_strings_cong) (simp add: iteration_def)

lemma format_setting_list_order:
  "iteration order \<Longrightarrow> format_setting_list order vs = join_with '' '' (sort_strings (setting_set [] vs))"
  by (simp only: format_setting_list_def sort_iteration [of order "setting_set [] vs"])

text \<open>
  C37: a formatted list setting is canonical. In whatever order Go iterates over the set, reading
  the setting back with \<^verbatim>\<open>strings.Fields\<close> gives exactly the white-space separated words
  of the values, sorted and without duplicates.
\<close>

theorem format_setting_list_fields:
  assumes "iteration order"
  shows "split_fields (format_setting_list order vs) =
    sorted_list_of_set (\<Union>v\<in>set vs. set (split_fields v))"
proof -
  have "\<forall>f \<in> set (sort_strings (setting_set [] vs)). solid f"
    by (auto simp: set_setting_set intro: fields_solid)
  then have "split_fields (format_setting_list order vs) = sort_strings (setting_set [] vs)"
    by (simp only: format_setting_list_order [OF assms] fields_join)
  also have "\<dots> = sorted_list_of_set (set (setting_set [] vs))"
    by (simp add: sort_strings_def sorted_list_of_set_sort_remdups distinct_remdups_id distinct_setting_set)
  finally show ?thesis by (simp add: set_setting_set)
qed

lemma format_setting_list_fields_witness:
  "split_fields (format_setting_list rev [''b a'', ''c'', ''a'']) = [''a'', ''b'', ''c'']"
proof -
  have "solid ''a'' \<and> solid ''b'' \<and> solid ''c''"
    by (simp add: solid_graphic graphic_def)
  then have "split_fields ''a'' = [''a'']" "split_fields ''c'' = [''c'']"
    "split_fields ''b a'' = [''b'', ''a'']"
    using fields_join [of "[''b'', ''a'']"] by (simp_all add: split_fields_solid)
  then have "(\<Union>v\<in>set [''b a'', ''c'', ''a'']. set (split_fields v)) = set [''a'', ''b'', ''c'']"
    by auto
  then show ?thesis
    using format_setting_list_fields [OF iteration_rev, of "[''b a'', ''c'', ''a'']"]
    by (simp only: sorted_list_of_set_sort_remdups) simp
qed

lemma format_setting_list_idem:
  assumes "iteration order"
  shows "format_setting_list order [format_setting_list order vs] = format_setting_list order vs"
proof -
  let ?fs = "sort_strings (setting_set [] vs)"
  have "\<forall>f \<in> set ?fs. solid f" by (auto simp: set_setting_set intro: fields_solid)
  then have "split_fields (format_setting_list order vs) = ?fs"
    using assms by (simp add: format_setting_list_order fields_join)
  then have "set (setting_set [] [format_setting_list order vs]) = set ?fs"
    by (simp add: set_setting_set del: setting_set.simps)
  then have "sort_strings (setting_set [] [format_setting_list order vs]) = ?fs"
    by (intro sorted_distinct_set_unique) (simp_all add: distinct_setting_set del: setting_set.simps)
  then show ?thesis using assms by (simp add: format_setting_list_order del: setting_set.simps)
qed

section \<open>Settings\<close>

lemma map_of_put_if [simp]: "map_of (put_if b k v m) = (if b then (map_of m)(k \<mapsto> v) else map_of m)"
  by (simp add: put_if_def)

lemma distinct_put_if: "distinct (map fst m) \<Longrightarrow> distinct (map fst (put_if b k v m))"
  by (simp add: put_if_def)

lemma distinct_typed_settings: "distinct (map fst (typed_settings order c))"
  unfolding typed_settings_def Let_def by (simp add: distinct_put_if)

text \<open>
  C36: \<^verbatim>\<open>RawSettings\<close> win. A key of \<^verbatim>\<open>RawSettings\<close> has exactly the value given
  there; every other key has the value of its typed field; and no key appears twice.
\<close>

theorem serialize_raw_wins:
  assumes "distinct (map fst (RawSettings c))"
  shows "distinct (map fst (serialize order c)) \<and>
    (\<forall>k. map_of (serialize order c) k =
      (case map_of (RawSettings c) k of Some v \<Rightarrow> Some v | None \<Rightarrow> map_of (typed_settings order c) k))"
  using assms
  by (simp add: serialize_def map_of_map_copy distinct_map_copy distinct_typed_settings map_add_def)

lemma serialize_raw_wins_witness:
  "map_of (serialize (\<lambda>xs. xs)
     (zero_client_config\<lparr>Cores := 4, MaxJobs := 2, RawSettings := [(''cores'', ''0'')]\<rparr>)) ''cores''
   = Some ''0''"
  using serialize_raw_wins
    [of "zero_client_config\<lparr>Cores := 4, MaxJobs := 2, RawSettings := [(''cores'', ''0'')]\<rparr>" "\<lambda>xs. xs"]
  by simp

text \<open>
  The client always configures the experimental features, and what it configures is the raw
  setting if there is one, else the sorted list of the typed field, else \<^verbatim>\<open>flakes\<close> and
  \<^verbatim>\<open>nix-command\<close>.
\<close>

theorem serialize_experimental_features:
  assumes "distinct (map fst (RawSettings c))" "iteration order"
  shows "map_of (serialize order c) settingExperimentalFeatures = Some
    (case map_of (RawSettings c) settingExperimentalFeatures of
       Some v \<Rightarrow> v
     | None \<Rightarrow> if ExperimentalFeatures c \<noteq> [] then format_setting_list order (ExperimentalFeatures c)
               else ''flakes nix-command'')"
proof -
  have "format_setting_list order [ExperimentalFeatureNixCommand, ExperimentalFeatureFlakes]
      = format_setting_list (\<lambda>xs. xs) [ExperimentalFeatureNixCommand, ExperimentalFeatureFlakes]"
    by (simp only: format_setting_list_order [OF assms(2)] format_setting_list_order [OF iteration_id])
  also have "\<dots> = ''flakes nix-command''"
  proof -
    have "solid ExperimentalFeatureNixCommand" "solid ExperimentalFeatureFlakes"
      by (simp_all add: solid_graphic graphic_def ExperimentalFeatureNixCommand_def
          ExperimentalFeatureFlakes_def)
    then show ?thesis
      by (simp add: format_setting_list_def split_fields_solid sort_strings_def
          ExperimentalFeatureNixCommand_def ExperimentalFeatureFlakes_def)
  qed
  finally have default: "format_setting_list order
      [ExperimentalFeatureNixCommand, ExperimentalFeatureFlakes] = ''flakes nix-command''" .
  have merged: "map_of (serialize order c) = map_of (typed_settings order c) ++ map_of (RawSettings c)"
    using assms(1) by (simp add: serialize_def map_of_map_copy)
  show ?thesis
  proof (cases "map_of (RawSettings c) settingExperimentalFeatures")
    case None
    then show ?thesis
      by (simp only: merged map_add_def typed_settings_def Let_def default) simp
  next
    case (Some v)
    then show ?thesis by (simp only: merged map_add_def option.case)
  qed
qed

lemma serialize_experimental_features_witness:
  "map_of (serialize rev zero_client_config) settingExperimentalFeatures = Some ''flakes nix-command''"
  using serialize_experimental_features [of zero_client_config rev]
  by (simp add: zero_client_config_def iteration_rev)

end
