(* ===== verification/Store_Path.thy ===== *)
theory Store_Path
  imports Nix_Context
begin

text \<open>\<^verbatim>\<open>storepath/path.go\<close>: owned store path handles with cached name and hash.\<close>

record path_ref =
  path_id :: nat
  path_name :: string
  path_hash :: "8 word list"
  path_ctx :: context_ref

definition path_borrow :: "path_ref \<Rightarrow> ptr res io" where
  "path_borrow p = do {
     q \<leftarrow> get_ptr KStorePath (path_id p);
     (case q of None \<Rightarrow> fail ErrClosed | Some q \<Rightarrow> ok q)
   }"

definition path_close :: "path_ref \<Rightarrow> unit res io" where
  "path_close p = do {
     q \<leftarrow> get_ptr KStorePath (path_id p);
     (case q of
        None \<Rightarrow> ok ()
      | Some q \<Rightarrow> do { raw_free (S (StorePathFree q)); set_nil (path_id p); ok () })
   }"

interpretation pth: wrapper KStorePath path_id "\<lambda>p. S (StorePathFree p)" path_borrow path_close
  by unfold_locales (auto intro: close_run_eq [OF path_close_def] borrow_run_eq [OF path_borrow_def])

lemmas [wp_intros] = pth.wp_borrow pth.wp_close

text \<open>\<^verbatim>\<open>New\<close> for a non-nil \<^verbatim>\<open>ptr\<close>: on an error the handle stays with the caller.\<close>

definition path_new :: "context_ref \<Rightarrow> ptr \<Rightarrow> path_ref res io" where
  "path_new ctx p =
     chk (context_borrow ctx) (wrapf ''storepath: failed to borrow context: %w'' []) (\<lambda>raw_ctx.
     chk (check_str raw_ctx (S (StorePathName p)) ''storepath: failed to get store path name: %w'' [])
       (\<lambda>e. e) (\<lambda>name_ptr. do {
         name \<leftarrow> take_cstring (Some name_ptr);
         chk (check_code_bytes raw_ctx (S (StorePathHash raw_ctx p))
             ''storepath: failed to get store path hash: %w'' []) (\<lambda>e. e) (\<lambda>hash. do {
           i \<leftarrow> new_cell KStorePath p;
           ok \<lparr>path_id = i, path_name = name, path_hash = hash, path_ctx = ctx\<rparr>
         })
       }))"

definition path_from_parts :: "context_ref \<Rightarrow> 8 word list \<Rightarrow> string \<Rightarrow> path_ref res io" where
  "path_from_parts ctx hash name =
     chk (context_borrow ctx) (wrapf ''storepath: failed to borrow context: %w'' []) (\<lambda>raw_ctx.
     chk (check_ptr raw_ctx (S (StoreCreateFromParts raw_ctx hash name (length name)))
         ''storepath: failed to create store path from parts: %w'' []) (\<lambda>e. e) (\<lambda>p. do {
       i \<leftarrow> new_cell KStorePath p;
       ok \<lparr>path_id = i, path_name = name, path_hash = hash, path_ctx = ctx\<rparr>
     }))"

text \<open>The shape shared by the callers of \<^verbatim>\<open>New\<close>: a failure releases the handle.\<close>

definition path_adopt :: "context_ref \<Rightarrow> ptr \<Rightarrow> string \<Rightarrow> fmt_arg list \<Rightarrow> path_ref res io" where
  "path_adopt ctx p fmt args =
     attempt (path_new ctx p)
       (\<lambda>e. do { raw_free (S (StorePathFree p)); fail (wrapf fmt args e) })
       (\<lambda>q. ok q)"

definition path_clone :: "path_ref \<Rightarrow> path_ref res io" where
  "path_clone p = do {
     q \<leftarrow> get_ptr KStorePath (path_id p);
     (case q of
        None \<Rightarrow> fail ErrClosed
      | Some q \<Rightarrow>
          chk (context_borrow (path_ctx p)) (wrapf ''storepath: failed to borrow context: %w'' []) (\<lambda>raw_ctx.
          chk (check_ptr raw_ctx (S (StorePathClone q)) ''storepath: failed to clone store path: %w'' [])
            (\<lambda>e. e) (\<lambda>clone.
          path_adopt (path_ctx p) clone ''storepath: failed to create cloned store path: %w'' [])))
   }"

section \<open>Ledger\<close>

text \<open>\<^verbatim>\<open>New\<close> takes over a handle the caller holds; on failure the caller still holds it.\<close>

lemma wp_path_new:
  assumes "safe w" "(KStorePath, p) \<in># live w"
    "\<And>e h. Q (Inl e) (with_hist h w)"
    "\<And>q h. path_id q = next_ref w \<Longrightarrow> path_ctx q = ctx \<Longrightarrow> length (path_hash q) = 20 \<Longrightarrow>
       Q (Inr q) (with_hist h (alloc_cell (KStorePath, p) w))"
  shows "wp (path_new ctx p) Q w"
  unfolding path_new_def
  using assms assms(3) [of _ "hist w"]
  by (auto simp: wp_rules intro!: wp_intros split: option.split sum.split)

lemma wp_path_adopt:
  assumes "safe w" "(KStorePath, p) \<in># live w"
    "\<And>e h. Q (Inl (wrapf fmt args e)) (with_hist h (drop_handle (KStorePath, p) w))"
    "\<And>q h. path_id q = next_ref w \<Longrightarrow> path_ctx q = ctx \<Longrightarrow> length (path_hash q) = 20 \<Longrightarrow>
       Q (Inr q) (with_hist h (alloc_cell (KStorePath, p) w))"
  shows "wp (path_adopt ctx p fmt args) Q w"
  unfolding path_adopt_def
  using assms by (auto simp: wp_rules intro!: wp_path_new wp_intros)

lemmas [wp_intros] = wp_path_adopt

lemma path_from_parts_creates:
  "safe w \<Longrightarrow> wp (path_from_parts ctx h n) (creates KStorePath path_id w) w"
  unfolding path_from_parts_def
  by (auto simp: wp_rules intro!: wp_intros split: option.split sum.split)

lemma path_clone_creates: "safe w \<Longrightarrow> wp (path_clone p) (creates KStorePath path_id w) w"
  unfolding path_clone_def
  by (auto simp: wp_rules ptr_at_Some safe_cell_live intro!: wp_intros split: option.split sum.split)

interpretation pthc: cloneable KStorePath path_id "\<lambda>p. S (StorePathFree p)" path_borrow path_close path_clone
  by unfold_locales
    (rule path_clone_creates, assumption, simp add: path_clone_def get_ptr_def fail_def)

end
