(* ===== verification/Store_Core.thy ===== *)
theory Store_Core
  imports Store_Config Store_Path Nix32
begin

text \<open>
  \<^verbatim>\<open>store/store.go\<close>: opening a store with its cached metadata, parsing and querying paths,
  and the store's lifecycle.
\<close>

section \<open>Errors that may carry no Nix error\<close>

text \<open>\<^verbatim>\<open>if err := status.FromContext(rawCtx); err != nil { return fmt.Errorf(fmt + ": %w") };
  return fmt.Errorf(fmt)\<close>. Here \<^verbatim>\<open>err\<close> has type \<^verbatim>\<open>*NixError\<close>, so the comparison
  with nil works.\<close>

definition fail_pending :: "ptr \<Rightarrow> string \<Rightarrow> fmt_arg list \<Rightarrow> 'a res io" where
  "fail_pending ctx fmt args = do {
     e \<leftarrow> from_context ctx;
     (case e of
        None \<Rightarrow> fail (errorf fmt args)
      | Some n \<Rightarrow> fail (wrapf (fmt @ '': %w'') args (NixErr n)))
   }"

definition check_ptr_pending :: "ptr \<Rightarrow> call \<Rightarrow> string \<Rightarrow> fmt_arg list \<Rightarrow> ptr res io" where
  "check_ptr_pending ctx c fmt args = do {
     p \<leftarrow> raw_ptr c;
     (case p of None \<Rightarrow> fail_pending ctx fmt args | Some p \<Rightarrow> ok p)
   }"

definition take_str_pending :: "ptr \<Rightarrow> call \<Rightarrow> string \<Rightarrow> fmt_arg list \<Rightarrow> string res io" where
  "take_str_pending ctx c fmt args = do {
     s \<leftarrow> raw_str c;
     (case s of
        None \<Rightarrow> fail_pending ctx fmt args
      | Some s \<Rightarrow> do { x \<leftarrow> take_cstring (Some s); ok x })
   }"

lemma wp_fail_pending:
  assumes "ready w [(KContext, ctx)]" "\<And>e h. Q (Inl e) (with_hist h w)"
  shows "wp (fail_pending ctx fmt args) Q w"
  unfolding fail_pending_def wp_rules using assms
  by (auto intro!: wp_from_context split: option.split)

lemma wp_check_ptr_pending:
  assumes "ready w ((KContext, ctx) # uses c)" "frees c = None"
    "\<And>p h. Q (Inr p) (gain (kind_of c, p) (with_hist h w))" "\<And>e h. Q (Inl e) (with_hist h w)"
  shows "wp (check_ptr_pending ctx c fmt args) Q w"
  unfolding check_ptr_pending_def using assms
  by (auto simp: wp_rules intro!: wp_raw_ptr_ready wp_fail_pending split: option.split)

lemma wp_take_str_pending:
  assumes "ready w ((KContext, ctx) # uses c)" "frees c = None"
    "\<And>s h. Q (Inr s) (with_hist h w)" "\<And>e h. Q (Inl e) (with_hist h w)"
  shows "wp (take_str_pending ctx c fmt args) Q w"
  unfolding take_str_pending_def using assms
  by (auto simp: wp_rules intro!: wp_raw_str_ready wp_fail_pending wp_take_live split: option.split)

lemmas [wp_intros] = wp_fail_pending wp_check_ptr_pending wp_take_str_pending

section \<open>Store\<close>

record store_ref =
  store_id :: nat
  store_uri :: string
  store_dir :: string
  store_version :: string
  store_ctx :: context_ref

definition store_borrow :: "store_ref \<Rightarrow> ptr res io" where
  "store_borrow s = do {
     p \<leftarrow> get_ptr KStore (store_id s);
     (case p of None \<Rightarrow> fail ErrClosed | Some p \<Rightarrow> ok p)
   }"

definition store_close :: "store_ref \<Rightarrow> unit res io" where
  "store_close s = do {
     p \<leftarrow> get_ptr KStore (store_id s);
     (case p of
        None \<Rightarrow> ok ()
      | Some p \<Rightarrow> do { raw_free (S (StoreFree p)); set_nil (store_id s); ok () })
   }"

interpretation sto: wrapper KStore store_id "\<lambda>p. S (StoreFree p)" store_borrow store_close
  by unfold_locales (auto intro: close_run_eq [OF store_close_def] borrow_run_eq [OF store_borrow_def])

lemmas [wp_intros] = sto.wp_borrow sto.wp_close

text \<open>One metadata string of a new store; a failure frees the store first.\<close>

definition store_metadata :: "ptr \<Rightarrow> ptr \<Rightarrow> call \<Rightarrow> string \<Rightarrow> string res io" where
  "store_metadata raw_ctx p c fmt = do {
     s \<leftarrow> raw_str c;
     (case s of
        None \<Rightarrow> do { raw_free (S (StoreFree p)); fail_pending raw_ctx fmt [] }
      | Some s \<Rightarrow> do { x \<leftarrow> take_cstring (Some s); ok x })
   }"

text \<open>\<^verbatim>\<open>New\<close>. The argument \<open>order\<close> is the order in which \<^verbatim>\<open>range params\<close> meets
  the parameters.\<close>

definition store_new ::
  "((string \<times> string) list \<Rightarrow> (string \<times> string) list) \<Rightarrow> context_ref \<Rightarrow> string \<Rightarrow> store_option list
    \<Rightarrow> store_ref res io" where
  "store_new order ctx uri opts =
     (let cfg = apply_options opts zero_config in
     chk (context_borrow ctx) (wrapf ''store: failed to borrow context: %w'' []) (\<lambda>raw_ctx.
     chk (check_ptr raw_ctx (S (StoreOpen raw_ctx uri (order (config_params cfg))))
         ''store: failed to open store: %w'' []) (\<lambda>e. e) (\<lambda>p.
     chk (store_metadata raw_ctx p (S (StoreGetUri raw_ctx p)) ''store: failed to get uri'')
       (\<lambda>e. e) (\<lambda>canonical_uri.
     chk (store_metadata raw_ctx p (S (StoreGetStoredir raw_ctx p)) ''store: failed to get store dir'')
       (\<lambda>e. e) (\<lambda>dir.
     chk (store_metadata raw_ctx p (S (StoreGetVersion raw_ctx p)) ''store: failed to get version'')
       (\<lambda>e. e) (\<lambda>version. do {
         i \<leftarrow> new_cell KStore p;
         ok \<lparr>store_id = i, store_uri = canonical_uri, store_dir = dir, store_version = version,
              store_ctx = ctx\<rparr>
       }))))))"

definition print_path :: "store_ref \<Rightarrow> 8 word list \<Rightarrow> string \<Rightarrow> string" where
  "print_path s hash name = store_dir s @ ''/'' @ encode_nix32 hash @ ''-'' @ name"

text \<open>The opening shared by the methods of \<^verbatim>\<open>Store\<close>: the store must be open and its
  context is borrowed.\<close>

definition with_store :: "store_ref \<Rightarrow> (ptr \<Rightarrow> ptr \<Rightarrow> 'a res io) \<Rightarrow> 'a res io" where
  "with_store s k = do {
     p \<leftarrow> get_ptr KStore (store_id s);
     (case p of
        None \<Rightarrow> fail ErrClosed
      | Some sp \<Rightarrow>
          chk (context_borrow (store_ctx s)) (wrapf ''store: failed to borrow context: %w'' []) (\<lambda>raw_ctx.
            k raw_ctx sp))
   }"

definition parse_path :: "store_ref \<Rightarrow> string \<Rightarrow> path_ref res io" where
  "parse_path s path_str =
     with_store s (\<lambda>raw_ctx sp.
     chk (check_ptr raw_ctx (S (StoreParsePath raw_ctx sp path_str)) ''store: failed to parse path: %w'' [])
       (\<lambda>e. e) (\<lambda>p.
     path_adopt (store_ctx s) p ''store: failed to create store path: %w'' []))"

definition path_from_hash :: "store_ref \<Rightarrow> string \<Rightarrow> path_ref res io" where
  "path_from_hash s hash_part =
     with_store s (\<lambda>raw_ctx sp. do {
       p \<leftarrow> raw_ptr (S (StoreQueryPathFromHashPart raw_ctx sp hash_part));
       (case p of
          None \<Rightarrow> do {
            e \<leftarrow> from_context raw_ctx;
            (case e of
               Some n \<Rightarrow> fail (wrapf ''store: failed to get path from hash: %w'' [] (NixErr n))
             | None \<Rightarrow> fail (wrapf ''store: hash %q: %w'' [AStr hash_part] ErrPathNotFound))
          }
        | Some p \<Rightarrow> path_adopt (store_ctx s) p ''store: failed to create store path: %w'' [])
     })"

definition real_path :: "store_ref \<Rightarrow> path_ref \<Rightarrow> string res io" where
  "real_path s path =
     with_store s (\<lambda>raw_ctx sp.
     chk (path_borrow path) (wrapf ''store: failed to borrow path: %w'' []) (\<lambda>pp.
     chk (check_str raw_ctx (S (StoreRealPath raw_ctx sp pp)) ''store: failed to get real path: %w'' [])
       (\<lambda>e. e) (\<lambda>str. do {
         x \<leftarrow> take_cstring (Some str);
         ok x
       })))"

definition is_valid_path :: "store_ref \<Rightarrow> path_ref \<Rightarrow> bool res io" where
  "is_valid_path s path =
     with_store s (\<lambda>raw_ctx sp.
     chk (path_borrow path) (wrapf ''store: failed to borrow path: %w'' []) (\<lambda>pp. do {
       valid \<leftarrow> raw_bool (S (StoreIsValidPath raw_ctx sp pp));
       chk (check_pending raw_ctx ''store: failed to check path validity: %w'' []) (\<lambda>e. e) (\<lambda>_.
         ok valid)
     }))"

section \<open>Ledger\<close>

lemma wp_store_metadata:
  assumes "ready w ((KContext, raw_ctx) # (KStore, p) # uses c)" "frees c = None"
    "(KContext, raw_ctx) \<in># live w - {#(KStore, p)#}"
    "\<And>s h. Q (Inr s) (with_hist h w)"
    "\<And>e h. Q (Inl e) (with_hist h (drop_handle (KStore, p) w))"
  shows "wp (store_metadata raw_ctx p c fmt) Q w"
  unfolding store_metadata_def using assms
  by (auto simp: wp_rules intro!: wp_intros split: option.split)

lemma store_new_creates:
  "safe w \<Longrightarrow> wp (store_new order ctx uri opts) (creates KStore store_id w) w"
  unfolding store_new_def Let_def
  by (auto simp: wp_rules intro!: wp_intros wp_store_metadata split: option.split sum.split)

lemma wp_with_store:
  assumes "safe w" "Q (Inl ErrClosed) w"
    "\<And>e. Q (Inl (wrapf ''store: failed to borrow context: %w'' [] e)) w"
    "\<And>raw_ctx sp. cells w (store_id s) = Some (KStore, sp) \<Longrightarrow> (KStore, sp) \<in># live w \<Longrightarrow>
      cells w (ctx_id (store_ctx s)) = Some (KContext, raw_ctx) \<Longrightarrow>
      (KContext, raw_ctx) \<in># live w \<Longrightarrow> wp (k raw_ctx sp) Q w"
  shows "wp (with_store s k) Q w"
  unfolding with_store_def using assms
  by (auto simp: wp_rules ptr_at_Some safe_cell_live intro!: wp_intros split: option.split sum.split)

lemmas [wp_intros] = wp_with_store

lemma parse_path_creates: "safe w \<Longrightarrow> wp (parse_path s str) (creates KStorePath path_id w) w"
  unfolding parse_path_def
  by (auto simp: wp_rules intro!: wp_intros split: option.split sum.split)

lemma path_from_hash_creates: "safe w \<Longrightarrow> wp (path_from_hash s h) (creates KStorePath path_id w) w"
  unfolding path_from_hash_def
  by (auto simp: wp_rules intro!: wp_intros wp_from_context split: option.split sum.split)

lemma real_path_grows: "safe w \<Longrightarrow> wp (real_path s p) (\<lambda>r w'. grows w w') w"
  unfolding real_path_def
  by (auto simp: wp_rules intro!: wp_intros split: option.split sum.split)

lemma is_valid_path_grows: "safe w \<Longrightarrow> wp (is_valid_path s p) (\<lambda>r w'. grows w w') w"
  unfolding is_valid_path_def
  by (auto simp: wp_rules intro!: wp_intros split: option.split sum.split)

end
