(* ===== verification/Balance.thy ===== *)
theory Balance
  imports Lifecycle
begin

text \<open>
  Handles that belong to no wrapper. \<open>temps w\<close> are the live handles of a safe world that no
  open wrapper owns; \<open>leaves L w w'\<close> is the contract of an operation that adds exactly \<open>L\<close> to
  them: with \<open>L\<close> empty nothing leaked, otherwise \<open>L\<close> is the leak.
\<close>

definition temps :: "world \<Rightarrow> handle multiset" where
  "temps w = live w - owned w"

definition leaves :: "handle multiset \<Rightarrow> world \<Rightarrow> world \<Rightarrow> bool" where
  "leaves L w w' \<longleftrightarrow> safe w' \<and> temps w' = temps w + L \<and> ext w w'"

lemma sound_temps: "sound T w \<longleftrightarrow> safe w \<and> T = temps w"
proof
  assume T: "sound T w"
  then show "safe w \<and> T = temps w" by (simp add: sound_safe) (simp add: sound_def temps_def)
next
  assume "safe w \<and> T = temps w"
  then obtain T' where "sound T' w" and T: "T = temps w" by (auto simp: safe_iff)
  then show "sound T w" by (simp add: sound_def temps_def)
qed

lemma safe_live: "safe w \<Longrightarrow> live w = owned w + temps w"
  using sound_temps [of "temps w" w] by (simp add: sound_def)

lemma sound_tempsI: "sound T w \<Longrightarrow> temps w = T" and sound_self: "safe w \<Longrightarrow> sound (temps w) w"
  by (simp_all add: sound_temps)

lemma temps_with_hist [simp]: "temps (with_hist h w) = temps w"
  by (simp add: temps_def)

lemma temps_gain [simp]: "safe w \<Longrightarrow> temps (gain x w) = add_mset x (temps w)"
  by (intro sound_tempsI sound_gain_temp sound_self)

lemma temps_gain_alloc [simp]: "safe w \<Longrightarrow> temps (gain x (alloc_cell x w)) = temps w"
  by (intro sound_tempsI) (simp add: sound_self)

lemma temps_live: "x \<in># temps w \<Longrightarrow> x \<in># live w"
  by (auto simp: temps_def dest: in_diffD)

lemma sound_drop_temp:
  assumes "safe w" "x \<in># temps w" shows "sound (temps w - {#x#}) (drop_handle x w)"
  using assms sound_self [OF assms(1)] by (simp add: sound_drop temps_live)

lemma safe_drop: "safe w \<Longrightarrow> x \<in># temps w \<Longrightarrow> safe (drop_handle x w)"
  and temps_drop: "safe w \<Longrightarrow> x \<in># temps w \<Longrightarrow> temps (drop_handle x w) = temps w - {#x#}"
  using sound_drop_temp [of w x] by (auto simp: sound_temps)

lemma temps_close: "safe w \<Longrightarrow> cells w i = Some x \<Longrightarrow> temps (clear_cell i (drop_handle x w)) = temps w"
  by (metis safe_close sound_close_cell sound_temps safe_wf safe_cell_live)

lemma leaves_grows: "safe w \<Longrightarrow> leaves {#} w w' \<longleftrightarrow> grows w w'"
proof
  assume safe: "safe w" and l: "leaves {#} w w'"
  then have "balanced w w'" by (auto simp: leaves_def balanced_def sound_temps)
  with safe l show "grows w w'" by (intro growsI) (simp_all add: leaves_def)
next
  assume safe: "safe w" and g: "grows w w'"
  then have "sound (temps w) w'" by (simp add: grows_sound sound_self)
  with g show "leaves {#} w w'" by (simp add: leaves_def sound_temps grows_ext)
qed

lemma leaves_refl [simp]: "safe w \<Longrightarrow> leaves {#} w w"
  by (simp add: leaves_def)

lemma leaves_safe: "leaves L w w' \<Longrightarrow> safe w'"
  by (simp add: leaves_def)

lemma leaves_temps: "leaves L w w' \<Longrightarrow> temps w' = temps w + L"
  by (simp add: leaves_def)

lemma leaves_ext: "leaves L w w' \<Longrightarrow> ext w w'"
  by (simp add: leaves_def)

lemma leaves_sound: "leaves L w w' \<Longrightarrow> sound T w \<Longrightarrow> sound (T + L) w'"
  by (simp add: leaves_def sound_temps)

lemma leaves_with_hist [simp]:
  "leaves L w (with_hist h w') = leaves L w w'" "leaves L (with_hist h w) w' = leaves L w w'"
  by (simp_all add: leaves_def ext_def)

lemma leaves_trans: "leaves L w w' \<Longrightarrow> leaves M w' w'' \<Longrightarrow> leaves (L + M) w w''"
  by (auto simp: leaves_def intro: ext_trans)

lemma leaves_then_grows: "leaves L w w' \<Longrightarrow> grows w' w'' \<Longrightarrow> leaves L w w''"
  using leaves_trans [of L w w' "{#}" w''] leaves_grows [of w' w''] leaves_safe [of L w w'] by auto

lemma grows_then_leaves: "safe w \<Longrightarrow> grows w w' \<Longrightarrow> leaves L w' w'' \<Longrightarrow> leaves L w w''"
  using leaves_trans [of "{#}" w w' L w''] leaves_grows [of w w'] by auto

lemma leaves_gain: "leaves L w w' \<Longrightarrow> leaves (add_mset x L) w (gain x w')"
  by (simp add: leaves_def)

lemma leaves_gain_alloc: "leaves L w w' \<Longrightarrow> leaves L w (gain x (alloc_cell x w'))"
  by (simp add: leaves_def)

lemma leaves_drop: "leaves (add_mset x L) w w' \<Longrightarrow> leaves L w (drop_handle x w')"
  by (auto simp: leaves_def safe_drop temps_drop)

text \<open>Entering with a handle held: what an operation run in \<open>gain x w\<close> leaves, seen from \<open>w\<close>.\<close>

lemma leaves_from_gain: "safe w \<Longrightarrow> leaves L (gain x w) w' \<Longrightarrow> leaves (add_mset x L) w w'"
  by (auto simp: leaves_def ext_def)

lemma leaves_live:
  assumes "safe w" "leaves L w w'" "x \<in># live w" shows "x \<in># live w'"
proof -
  have "live w = owned w + temps w" "live w' = owned w' + temps w + L"
    using assms by (simp_all add: leaves_def safe_live)
  moreover have "owned w \<subseteq># owned w'" using assms(2) by (intro ext_owned leaves_ext)
  ultimately show ?thesis using assms(3) by (auto dest: mset_subset_eqD)
qed

lemma leaves_close_fresh:
  assumes "leaves L w w'" "next_ref w \<le> i" "cells w' i = Some x"
  shows "leaves L w (clear_cell i (drop_handle x w'))"
  using assms by (auto simp: leaves_def temps_close)

lemma leaves_cell: "safe w \<Longrightarrow> leaves L w w' \<Longrightarrow> cells w i = Some x \<Longrightarrow> cells w' i = Some x"
  using ext_cell [of w w' i x] by (simp add: leaves_def)

end
