(* ===== verification/Store_Closure.thy ===== *)
theory Store_Closure
  imports Store_Core Balance
begin

text \<open>
  \<^verbatim>\<open>store/store_closure.go\<close>: filesystem closures, realisation and the conversion of the
  native result arrays. The conversions have a path on which a cloned handle is not released;
  the lemmas say exactly how much can be left behind and when nothing is.
\<close>

section \<open>Closing lists of paths\<close>

fun close_paths :: "path_ref list \<Rightarrow> err list \<Rightarrow> err list io" where
  "close_paths [] errs = State_Monad.return errs"
| "close_paths (p # ps) errs = do {
     r \<leftarrow> path_close p;
     close_paths ps (case r of Inl e \<Rightarrow> errs @ [e] | Inr _ \<Rightarrow> errs)
   }"

text \<open>\<^verbatim>\<open>Closure.Close\<close> returns the closure with its paths forgotten.\<close>

record closure =
  closure_paths :: "path_ref list"

definition closure_close :: "closure \<Rightarrow> (closure \<times> unit res) io" where
  "closure_close c =
     (if closure_paths c = [] then State_Monad.return (c, Inr ())
      else do {
        errs \<leftarrow> close_paths (closure_paths c) [];
        State_Monad.return (c\<lparr>closure_paths := []\<rparr>,
          if errs \<noteq> [] then Inl (wrapf ''closure: failed to close paths: %w'' [] (Joined errs))
          else Inr ())
      })"

section \<open>Options\<close>

record closure_config =
  Reverse :: bool
  IncludeOutputs :: bool
  IncludeDerivers :: bool

definition zero_closure_config :: closure_config where
  "zero_closure_config = \<lparr>Reverse = False, IncludeOutputs = False, IncludeDerivers = False\<rparr>"

definition WithClosureReverse :: "bool \<Rightarrow> closure_config \<Rightarrow> closure_config" where
  "WithClosureReverse reverse c = c\<lparr>Reverse := reverse\<rparr>"

definition WithClosureOutputs :: "bool \<Rightarrow> closure_config \<Rightarrow> closure_config" where
  "WithClosureOutputs include c = c\<lparr>IncludeOutputs := include\<rparr>"

definition WithClosureDerivers :: "bool \<Rightarrow> closure_config \<Rightarrow> closure_config" where
  "WithClosureDerivers include c = c\<lparr>IncludeDerivers := include\<rparr>"

section \<open>Closures\<close>

fun convert_closure_loop ::
  "context_ref \<Rightarrow> ptr \<Rightarrow> ptr \<Rightarrow> nat list \<Rightarrow> closure \<Rightarrow> closure res io" where
  "convert_closure_loop ctx raw_ctx paths [] c = ok c"
| "convert_closure_loop ctx raw_ctx paths (i # is) c = do {
     p \<leftarrow> raw_ptr (G (StorePathArrayPathClone paths i));
     (case p of
        None \<Rightarrow> do {
          r \<leftarrow> closure_close c;
          fail_status raw_ctx ''store: failed to clone closure path from array %d: %w'' [ANum (int i)]
        }
      | Some p \<Rightarrow>
          attempt (path_new ctx p)
            (\<lambda>e. do {
               r \<leftarrow> closure_close c;
               fail (wrapf ''store: failed to create closure path from array %d: %w'' [ANum (int i)] e)
             })
            (\<lambda>q. convert_closure_loop ctx raw_ctx paths is
               (c\<lparr>closure_paths := closure_paths c @ [q]\<rparr>)))
   }"

definition convert_closure_paths :: "context_ref \<Rightarrow> ptr \<Rightarrow> closure res io" where
  "convert_closure_paths ctx paths =
     chk (context_borrow ctx) (wrapf ''store: borrow context: %w'' []) (\<lambda>raw_ctx. do {
       count \<leftarrow> raw_size (G (StorePathArrayCount paths));
       convert_closure_loop ctx raw_ctx paths [0..<count] \<lparr>closure_paths = []\<rparr>
     })"

definition store_closure ::
  "store_ref \<Rightarrow> path_ref \<Rightarrow> (closure_config \<Rightarrow> closure_config) list \<Rightarrow> closure res io" where
  "store_closure s path opts =
     (let cfg = apply_options opts zero_closure_config in
     with_store s (\<lambda>raw_ctx sp.
     chk (path_borrow path) (wrapf ''store: failed to borrow path: %w'' []) (\<lambda>pp.
     chk (check_ptr raw_ctx
         (G (StoreGetFsClosureArray raw_ctx sp pp (Reverse cfg) (IncludeOutputs cfg) (IncludeDerivers cfg)))
         ''store: failed to get fs closure array: %w'' []) (\<lambda>e. e) (\<lambda>paths. do {
       r \<leftarrow> chk (convert_closure_paths (store_ctx s) paths)
         (wrapf ''store: failed to convert closure paths: %w'' []) ok;
       raw_free (G (StorePathArrayFree paths));
       State_Monad.return r
     }))))"

section \<open>Realisation\<close>

text \<open>\<^verbatim>\<open>Realization\<close>, with \<^verbatim>\<open>Path\<close> nil as \<open>None\<close>.\<close>

record realization =
  OutputName :: string
  Path :: "path_ref option"

definition realization_close :: "realization \<Rightarrow> (realization \<times> unit res) io" where
  "realization_close r =
     (case Path r of
        None \<Rightarrow> State_Monad.return (r, Inr ())
      | Some p \<Rightarrow> do {
          e \<leftarrow> path_close p;
          State_Monad.return (r\<lparr>Path := None\<rparr>,
            case e of Inl e \<Rightarrow> Inl (wrapf ''store: failed to close realization: %w'' [] e)
              | Inr _ \<Rightarrow> Inr ())
        })"

fun close_realizations :: "realization list \<Rightarrow> unit io" where
  "close_realizations [] = State_Monad.return ()"
| "close_realizations (r # rs) = do { x \<leftarrow> realization_close r; close_realizations rs }"

fun convert_realise_loop ::
  "context_ref \<Rightarrow> ptr \<Rightarrow> ptr \<Rightarrow> nat list \<Rightarrow> realization list \<Rightarrow> realization list res io" where
  "convert_realise_loop ctx raw_ctx results [] rs = ok rs"
| "convert_realise_loop ctx raw_ctx results (i # is) rs = do {
     name_ptr \<leftarrow> raw_str (G (StoreRealiseResultsOutname results i));
     (case name_ptr of
        None \<Rightarrow> do {
          close_realizations rs;
          fail_status raw_ctx ''store: failed to realize result %d output name: %w'' [ANum (int i)]
        }
      | Some name_ptr \<Rightarrow> do {
          name \<leftarrow> take_cstring (Some name_ptr);
          p \<leftarrow> raw_ptr (G (StoreRealiseResultsPathClone results i));
          (case p of
             None \<Rightarrow> do {
               close_realizations rs;
               fail_status raw_ctx ''store: failed to realize result %d path: %w'' [ANum (int i)]
             }
           | Some p \<Rightarrow>
               attempt (path_new ctx p)
                 (\<lambda>e. do {
                    close_realizations rs;
                    fail (wrapf ''store: failed to create result %d path: %w'' [ANum (int i)] e)
                  })
                 (\<lambda>q. convert_realise_loop ctx raw_ctx results is
                    (rs @ [\<lparr>OutputName = name, Path = Some q\<rparr>])))
        })
   }"

definition convert_realise_results :: "context_ref \<Rightarrow> ptr \<Rightarrow> realization list res io" where
  "convert_realise_results ctx results =
     chk (context_borrow ctx) (wrapf ''store: borrow context: %w'' []) (\<lambda>raw_ctx. do {
       count \<leftarrow> raw_size (G (StoreRealiseResultsCount results));
       convert_realise_loop ctx raw_ctx results [0..<count] []
     })"

definition store_realise :: "store_ref \<Rightarrow> path_ref \<Rightarrow> realization list res io" where
  "store_realise s path =
     with_store s (\<lambda>raw_ctx sp.
     chk (path_borrow path) (wrapf ''store: failed to borrow path: %w'' []) (\<lambda>pp.
     chk (check_ptr raw_ctx (G (StoreRealiseToArray raw_ctx sp pp))
         ''store: failed to realise to array: %w'' []) (\<lambda>e. e) (\<lambda>results. do {
       r \<leftarrow> chk (convert_realise_results (store_ctx s) results)
         (wrapf ''store: failed to convert realise results: %w'' []) ok;
       raw_free (G (StoreRealiseResultsFree results));
       State_Monad.return r
     })))"

definition store_realise_output :: "store_ref \<Rightarrow> path_ref \<Rightarrow> string \<Rightarrow> realization res io" where
  "store_realise_output s path output_name = do {
     q \<leftarrow> get_ptr KStore (store_id s);
     (case q of
        None \<Rightarrow> fail ErrClosed
      | Some _ \<Rightarrow>
          if is_blank output_name then fail (errorf ''store: output name must not be empty'' [])
          else with_store s (\<lambda>raw_ctx sp.
            chk (path_borrow path) (wrapf ''store: failed to borrow path: %w'' []) (\<lambda>pp.
            chk (check_ptr raw_ctx (G (StoreRealiseOutput raw_ctx sp pp output_name))
                ''store: failed to realise output %q: %w'' [AStr output_name]) (\<lambda>e. e) (\<lambda>p.
            chk (path_adopt (store_ctx s) p ''store: failed to create output path %q: %w'' [AStr output_name])
              (\<lambda>e. e) (\<lambda>q.
            ok \<lparr>OutputName = output_name, Path = Some q\<rparr>)))))
   }"

section \<open>Ledger\<close>

text \<open>\<open>fresh_paths w0 qs w\<close>: distinct path wrappers made since \<open>w0\<close>, all open.\<close>

definition fresh_paths :: "world \<Rightarrow> path_ref list \<Rightarrow> world \<Rightarrow> bool" where
  "fresh_paths w0 qs w \<longleftrightarrow>
     distinct (map path_id qs) \<and> (\<forall>q \<in> set qs. created KStorePath w0 (path_id q) w)"

lemma fresh_paths_simps [simp]:
  "fresh_paths w0 [] w"
  "fresh_paths (with_hist h w0) qs w = fresh_paths w0 qs w"
  "fresh_paths w0 qs (with_hist h w) = fresh_paths w0 qs w"
  "fresh_paths (gain x w0) qs w = fresh_paths w0 qs w"
  "fresh_paths w0 qs (gain x w) = fresh_paths w0 qs w"
  "fresh_paths w0 qs (drop_handle x w) = fresh_paths w0 qs w"
  by (simp_all add: fresh_paths_def)

lemma fresh_paths_snoc:
  assumes "fresh_paths w0 qs w" "safe w" "leaves L w0 w" "path_id q = next_ref w"
  shows "fresh_paths w0 (qs @ [q]) (alloc_cell (KStorePath, p) w)"
proof -
  have bound: "path_id r < next_ref w" if "r \<in> set qs" for r
    using assms(1,2) that cells_bound [of w] by (fastforce simp: fresh_paths_def created_def)
  then have "path_id q \<notin> path_id ` set qs" using assms(4) by fastforce
  moreover have "next_ref w0 \<le> path_id q"
    using leaves_ext [OF assms(3)] assms(4) by (simp add: ext_next)
  moreover have "created KStorePath w0 (path_id r) (alloc_cell (KStorePath, p) w)" if "r \<in> set qs" for r
    using assms(1) that bound [OF that] by (auto simp: fresh_paths_def created_def)
  ultimately show ?thesis using assms(1,4) by (auto simp: fresh_paths_def)
qed

lemma wp_close_paths:
  assumes "leaves L w0 w" "fresh_paths w0 qs w"
    "\<And>w'. leaves L w0 w' \<Longrightarrow> (\<forall>i. i \<notin> path_id ` set qs \<longrightarrow> cells w' i = cells w i) \<Longrightarrow> Q errs w'"
  shows "wp (close_paths qs errs) Q w"
  using assms
proof (induction qs arbitrary: w)
  case Nil
  then show ?case by (simp add: wp_rules)
next
  case (Cons q qs)
  from Cons.prems(2) obtain p where p: "cells w (path_id q) = Some (KStorePath, p)"
    and fresh: "next_ref w0 \<le> path_id q" by (auto simp: fresh_paths_def created_def)
  let ?w = "clear_cell (path_id q) (drop_handle (KStorePath, p) w)"
  have "leaves L w0 ?w" using Cons.prems(1) fresh p by (rule leaves_close_fresh)
  moreover have "fresh_paths w0 qs ?w"
    using Cons.prems(2) by (auto simp: fresh_paths_def created_def image_iff)
  ultimately have "wp (close_paths qs errs) Q (with_hist h ?w)" for h
    using Cons.prems(3) by (intro Cons.IH) auto
  then show ?case
    using leaves_safe [OF Cons.prems(1)] p by (auto simp: wp_rules ptr_at_cell intro!: pth.wp_close)
qed

lemma wp_closure_close:
  assumes "leaves L w0 w" "fresh_paths w0 (closure_paths c) w"
    "\<And>c' w'. leaves L w0 w' \<Longrightarrow> Q (c', Inr ()) w'"
  shows "wp (closure_close c) Q w"
  unfolding closure_close_def using assms by (auto simp: wp_rules intro!: wp_close_paths)

text \<open>The error that goes with the leak.\<close>

definition closure_create_err :: "err \<Rightarrow> bool" where
  "closure_create_err e \<longleftrightarrow>
     (\<exists>i e'. e = wrapf ''store: failed to create closure path from array %d: %w'' [ANum i] e')"

lemma closure_create_err_simps [simp]:
  "closure_create_err (wrapf ''store: failed to create closure path from array %d: %w'' [ANum i] e)"
  "\<not> closure_create_err (wrapf ''store: failed to clone closure path from array %d: %w'' args e)"
  "\<not> closure_create_err (wrapf ''store: borrow context: %w'' args e)"
  by (simp_all add: closure_create_err_def wrapf_def)

text \<open>Either nothing is left behind, or, with that error, one store path handle is.\<close>

definition path_leak :: "world \<Rightarrow> bool \<Rightarrow> world \<Rightarrow> bool" where
  "path_leak w leaky w' \<longleftrightarrow>
     (if leaky then \<exists>p. leaves {#(KStorePath, p)#} w w' else leaves {#} w w')"

lemma path_leak_simps [simp]:
  "path_leak w True w' \<longleftrightarrow> (\<exists>p. leaves {#(KStorePath, p)#} w w')"
  "path_leak w False w' \<longleftrightarrow> leaves {#} w w'"
  by (simp_all add: path_leak_def)

lemma wp_convert_closure_loop:
  assumes "safe w0" "(KPathArray, paths) \<in># live w0" "cells w0 (ctx_id ctx) = Some (KContext, raw_ctx)"
    "leaves {#} w0 w" "fresh_paths w0 (closure_paths c) w"
    "\<And>c w. leaves {#} w0 w \<Longrightarrow> fresh_paths w0 (closure_paths c) w \<Longrightarrow> Q (Inr c) w"
    "\<And>e w. path_leak w0 (closure_create_err e) w \<Longrightarrow> Q (Inl e) w"
  shows "wp (convert_closure_loop ctx raw_ctx paths is c) Q w"
  using assms(4,5)
proof (induction "is" arbitrary: c w)
  case Nil
  then show ?case using assms(6) by (simp add: wp_rules)
next
  case (Cons i "is")
  have safe: "safe w" and arr: "(KPathArray, paths) \<in># live w"
    and ctx: "cells w (ctx_id ctx) = Some (KContext, raw_ctx)"
    using Cons.prems(1) assms(1-3) by (auto intro: leaves_safe leaves_live leaves_cell)
  then have raw_ctx: "(KContext, raw_ctx) \<in># live w" by (simp add: safe_cell_live)
  have close: "wp (closure_close c) (\<lambda>r w'. wp (fail_status raw_ctx fmt args) Q w') (with_hist h w)"
    if "\<And>e. \<not> closure_create_err (wrapf fmt args e)" for h fmt args
  proof (rule wp_closure_close)
    fix c' w' assume "leaves {#} w0 w'"
    moreover from this assms have "(KContext, raw_ctx) \<in># live w'"
      by (auto intro: leaves_live safe_cell_live)
    ultimately show "wp (fail_status raw_ctx fmt args) Q w'"
      using that by (auto simp: leaves_safe intro!: wp_fail_status assms(7))
  qed (use Cons.prems in simp_all)
  have leak: "wp (closure_close c) (\<lambda>r w'. Q (Inl (wrapf
      ''store: failed to create closure path from array %d: %w'' [ANum (int i)] e)) w')
      (with_hist h (gain (KStorePath, p) w))" for e h p
    using Cons.prems leaves_gain [OF Cons.prems(1), of "(KStorePath, p)"]
    by (intro wp_closure_close assms(7)) auto
  have step: "wp (convert_closure_loop ctx raw_ctx paths is
      (c\<lparr>closure_paths := closure_paths c @ [q]\<rparr>)) Q
      (with_hist h (gain (KStorePath, p) (alloc_cell (KStorePath, p) w)))"
    if "path_id q = next_ref w" for q h p
    using Cons.prems that safe by (intro Cons.IH) (auto simp: leaves_gain_alloc fresh_paths_snoc)
  show ?case
    using safe arr raw_ctx close leak step
    by (auto simp: wp_rules intro!: wp_intros wp_path_new split: option.split sum.split)
qed

lemma path_leak_live:
  "safe w \<Longrightarrow> path_leak w b w' \<Longrightarrow> safe w' \<and> (\<forall>x. x \<in># live w \<longrightarrow> x \<in># live w')"
  by (auto simp: path_leak_def leaves_safe split: if_splits intro: leaves_live)

lemma wp_convert_closure_paths:
  assumes "safe w" "(KPathArray, paths) \<in># live w"
    "\<And>c w'. leaves {#} w w' \<Longrightarrow> fresh_paths w (closure_paths c) w' \<Longrightarrow> Q (Inr c) w'"
    "\<And>e w'. path_leak w (closure_create_err e) w' \<Longrightarrow> safe w' \<Longrightarrow>
      \<forall>x. x \<in># live w \<longrightarrow> x \<in># live w' \<Longrightarrow> Q (Inl e) w'"
  shows "wp (convert_closure_paths ctx paths) Q w"
  unfolding convert_closure_paths_def
  using assms path_leak_live [OF assms(1)]
  by (auto simp: wp_rules intro!: wp_intros wp_convert_closure_loop)

text \<open>\<^verbatim>\<open>Closure\<close>: the paths returned are new, open and distinct; a failure leaves nothing
  behind unless it is the creation of a path, which leaves exactly one store path handle.\<close>

definition closure_outcome :: "world \<Rightarrow> closure res \<Rightarrow> world \<Rightarrow> bool" where
  "closure_outcome w r w' \<longleftrightarrow>
     (case r of
        Inr c \<Rightarrow> leaves {#} w w' \<and> fresh_paths w (closure_paths c) w'
      | Inl e \<Rightarrow> path_leak w (\<exists>e'. e = wrapf ''store: failed to convert closure paths: %w'' [] e' \<and>
          closure_create_err e') w')"

lemma path_leak_from_gain:
  "safe w \<Longrightarrow> path_leak (gain x w) b w' \<Longrightarrow> path_leak w b (drop_handle x w')"
  using leaves_drop [of x _ w w'] leaves_from_gain [of w _ x w']
  by (auto simp: path_leak_def split: if_splits)

lemma path_leak_with_hist [simp]:
  "path_leak (with_hist h w) b w' = path_leak w b w'"
  "path_leak w b (with_hist h w') = path_leak w b w'"
  by (simp_all add: path_leak_def)

lemma leaves_from_gain_drop: "safe w \<Longrightarrow> leaves L (gain x w) w' \<Longrightarrow> leaves L w (drop_handle x w')"
  by (intro leaves_drop leaves_from_gain)

lemma leaves_held: "safe w \<Longrightarrow> leaves L (gain x w) w' \<Longrightarrow> x \<in># live w'"
  by (rule leaves_live [of "gain x w"]) auto

lemma path_leak_quiet [simp]: "safe w \<Longrightarrow> \<not> closure_create_err e \<Longrightarrow> path_leak w (closure_create_err e) w"
  by simp

lemma store_closure_outcome: "safe w \<Longrightarrow> wp (store_closure s p opts) (closure_outcome w) w"
  unfolding store_closure_def Let_def
  by (auto simp: wp_rules closure_outcome_def leaves_held leaves_safe leaves_from_gain_drop
      path_leak_from_gain wrapf_def
      intro!: wp_intros wp_convert_closure_paths split: option.split sum.split)

text \<open>Realisations: the same, with the error of the conversion of a result.\<close>

definition real_paths :: "realization list \<Rightarrow> path_ref list" where
  "real_paths rs = map (\<lambda>r. the (Path r)) rs"

definition open_realizations :: "world \<Rightarrow> realization list \<Rightarrow> world \<Rightarrow> bool" where
  "open_realizations w0 rs w \<longleftrightarrow> (\<forall>r \<in> set rs. Path r \<noteq> None) \<and> fresh_paths w0 (real_paths rs) w"

lemma open_realizations_simps [simp]:
  "open_realizations w0 [] w"
  "open_realizations (with_hist h w0) rs w = open_realizations w0 rs w"
  "open_realizations w0 rs (with_hist h w) = open_realizations w0 rs w"
  "open_realizations (gain x w0) rs w = open_realizations w0 rs w"
  "open_realizations w0 rs (gain x w) = open_realizations w0 rs w"
  "open_realizations w0 rs (drop_handle x w) = open_realizations w0 rs w"
  by (simp_all add: open_realizations_def real_paths_def)

lemma close_realizations_paths:
  "\<forall>r \<in> set rs. Path r \<noteq> None \<Longrightarrow> wp (close_paths (real_paths rs) errs) (\<lambda>_. P) w \<Longrightarrow>
   wp (close_realizations rs) (\<lambda>_. P) w"
proof (induction rs arbitrary: errs w)
  case (Cons r rs)
  then obtain p where "Path r = Some p" by auto
  with Cons show ?case
    by (auto simp: real_paths_def realization_close_def wp_rules elim!: wp_mono)
qed (simp add: wp_rules real_paths_def)

lemma wp_close_realizations:
  assumes "leaves L w0 w" "open_realizations w0 rs w" "\<And>w'. leaves L w0 w' \<Longrightarrow> P w'"
  shows "wp (close_realizations rs) (\<lambda>_. P) w"
  using assms unfolding open_realizations_def
  by (auto intro!: close_realizations_paths [where errs = "[]"] wp_close_paths)

definition realise_create_err :: "err \<Rightarrow> bool" where
  "realise_create_err e \<longleftrightarrow>
     (\<exists>i e'. e = wrapf ''store: failed to create result %d path: %w'' [ANum i] e')"

lemma realise_create_err_simps [simp]:
  "realise_create_err (wrapf ''store: failed to create result %d path: %w'' [ANum i] e)"
  "\<not> realise_create_err (wrapf ''store: failed to realize result %d output name: %w'' args e)"
  "\<not> realise_create_err (wrapf ''store: failed to realize result %d path: %w'' args e)"
  "\<not> realise_create_err (wrapf ''store: borrow context: %w'' args e)"
  by (simp_all add: realise_create_err_def wrapf_def)

lemma wp_convert_realise_loop:
  assumes "safe w0" "(KRealiseResults, results) \<in># live w0"
    "cells w0 (ctx_id ctx) = Some (KContext, raw_ctx)"
    "leaves {#} w0 w" "open_realizations w0 rs w"
    "\<And>rs w. leaves {#} w0 w \<Longrightarrow> open_realizations w0 rs w \<Longrightarrow> Q (Inr rs) w"
    "\<And>e w. path_leak w0 (realise_create_err e) w \<Longrightarrow> Q (Inl e) w"
  shows "wp (convert_realise_loop ctx raw_ctx results is rs) Q w"
  using assms(4,5)
proof (induction "is" arbitrary: rs w)
  case Nil
  then show ?case using assms(6) by (simp add: wp_rules)
next
  case (Cons i "is")
  have safe: "safe w" and arr: "(KRealiseResults, results) \<in># live w"
    and ctx: "cells w (ctx_id ctx) = Some (KContext, raw_ctx)"
    using Cons.prems(1) assms(1-3) by (auto intro: leaves_safe leaves_live leaves_cell)
  then have raw_ctx: "(KContext, raw_ctx) \<in># live w" by (simp add: safe_cell_live)
  have close: "wp (close_realizations rs) (\<lambda>r w'. wp (fail_status raw_ctx fmt args) Q w') (with_hist h w)"
    if "\<And>e. \<not> realise_create_err (wrapf fmt args e)" for h fmt args
  proof (rule wp_close_realizations)
    fix w' assume "leaves {#} w0 w'"
    moreover from this assms have "(KContext, raw_ctx) \<in># live w'"
      by (auto intro: leaves_live safe_cell_live)
    ultimately show "wp (fail_status raw_ctx fmt args) Q w'"
      using that by (auto simp: leaves_safe intro!: wp_fail_status assms(7))
  qed (use Cons.prems in simp_all)
  have leak: "wp (close_realizations rs) (\<lambda>r w'. Q (Inl (wrapf
      ''store: failed to create result %d path: %w'' [ANum (int i)] e)) w')
      (with_hist h (gain (KStorePath, p) w))" for e h p
    using Cons.prems leaves_gain [OF Cons.prems(1), of "(KStorePath, p)"]
    by (intro wp_close_realizations assms(7)) auto
  have step: "wp (convert_realise_loop ctx raw_ctx results is
      (rs @ [\<lparr>OutputName = name, Path = Some q\<rparr>])) Q
      (with_hist h (gain (KStorePath, p) (alloc_cell (KStorePath, p) w)))"
    if "path_id q = next_ref w" for q h p name
    using Cons.prems that safe fresh_paths_snoc [of w0 "real_paths rs" w "{#}" q p]
    by (intro Cons.IH) (auto simp: leaves_gain_alloc open_realizations_def real_paths_def)
  show ?case
    using safe arr raw_ctx close leak step
    by (auto simp: wp_rules intro!: wp_intros wp_path_new split: option.split sum.split)
qed

lemma wp_convert_realise_results:
  assumes "safe w" "(KRealiseResults, results) \<in># live w"
    "\<And>rs w'. leaves {#} w w' \<Longrightarrow> open_realizations w rs w' \<Longrightarrow> Q (Inr rs) w'"
    "\<And>e w'. path_leak w (realise_create_err e) w' \<Longrightarrow> safe w' \<Longrightarrow>
      \<forall>x. x \<in># live w \<longrightarrow> x \<in># live w' \<Longrightarrow> Q (Inl e) w'"
  shows "wp (convert_realise_results ctx results) Q w"
  unfolding convert_realise_results_def
  using assms path_leak_live [OF assms(1)]
  by (auto simp: wp_rules intro!: wp_intros wp_convert_realise_loop)

definition realise_outcome :: "world \<Rightarrow> realization list res \<Rightarrow> world \<Rightarrow> bool" where
  "realise_outcome w r w' \<longleftrightarrow>
     (case r of
        Inr rs \<Rightarrow> leaves {#} w w' \<and> open_realizations w rs w'
      | Inl e \<Rightarrow> path_leak w (\<exists>e'. e = wrapf ''store: failed to convert realise results: %w'' [] e' \<and>
          realise_create_err e') w')"

lemma store_realise_outcome: "safe w \<Longrightarrow> wp (store_realise s p) (realise_outcome w) w"
  unfolding store_realise_def
  by (auto simp: wp_rules realise_outcome_def leaves_held leaves_safe leaves_from_gain_drop
      path_leak_from_gain wrapf_def
      intro!: wp_intros wp_convert_realise_results split: option.split sum.split)

lemma store_realise_output_grows:
  "safe w \<Longrightarrow> wp (store_realise_output s p n)
     (\<lambda>r w'. grows w w' \<and> (\<forall>x. r = Inr x \<longrightarrow> open_realizations w [x] w')) w"
  unfolding store_realise_output_def
  by (auto simp: wp_rules open_realizations_def real_paths_def fresh_paths_def
      intro!: wp_intros split: option.split sum.split)

text \<open>Closing what was returned leaves nothing behind.\<close>

lemma wp_closure_close_grows:
  assumes "safe w0" "grows w0 w" "fresh_paths w0 (closure_paths c) w"
  shows "wp (closure_close c) (\<lambda>(c', r) w'. grows w0 w' \<and> r = Inr () \<and> closure_paths c' = []) w"
  unfolding closure_close_def using assms leaves_grows [of w0]
  by (auto simp: wp_rules intro!: wp_close_paths)

end
