(* ===== verification/Store_GC.thy ===== *)
theory Store_GC
  imports Store_Closure
begin

text \<open>
  \<^verbatim>\<open>store/store_gc.go\<close>: temporary and permanent roots, the list of roots, and garbage
  collection with its temporary path handles.
\<close>

section \<open>Actions and options\<close>

type_synonym gc_action = int

definition GCReturnLive :: gc_action where "GCReturnLive = 0"
definition GCReturnDead :: gc_action where "GCReturnDead = 1"
definition GCDeleteDead :: gc_action where "GCDeleteDead = 2"
definition GCDeleteSpecific :: gc_action where "GCDeleteSpecific = 3"

definition StoreGCReturnLive :: int where "StoreGCReturnLive = 0"
definition StoreGCReturnDead :: int where "StoreGCReturnDead = 1"
definition StoreGCDeleteDead :: int where "StoreGCDeleteDead = 2"
definition StoreGCDeleteSpecific :: int where "StoreGCDeleteSpecific = 3"

record gc_config =
  IgnoreLiveness :: bool
  PathsToDelete :: "string list"
  MaxFreed :: "64 word"

definition WithGCIgnoreLiveness :: "bool \<Rightarrow> gc_config \<Rightarrow> gc_config" where
  "WithGCIgnoreLiveness ignore c = c\<lparr>IgnoreLiveness := ignore\<rparr>"

definition WithGCPathsToDelete :: "string list \<Rightarrow> gc_config \<Rightarrow> gc_config" where
  "WithGCPathsToDelete paths c = c\<lparr>PathsToDelete := paths\<rparr>"

definition WithGCMaxFreed :: "64 word \<Rightarrow> gc_config \<Rightarrow> gc_config" where
  "WithGCMaxFreed max_freed c = c\<lparr>MaxFreed := max_freed\<rparr>"

text \<open>\<^verbatim>\<open>GCConfig{MaxFreed: math.MaxUint64}\<close>.\<close>

definition initial_gc_config :: gc_config where
  "initial_gc_config = \<lparr>IgnoreLiveness = False, PathsToDelete = [], MaxFreed = - 1\<rparr>"

record gc_result =
  GC_Paths :: "string list"
  BytesFreed :: "64 word"

record gc_root =
  Root_Path :: string
  Root_Link :: string

definition raw_gc_action :: "gc_action \<Rightarrow> int res" where
  "raw_gc_action action =
     (if action = GCReturnLive then Inr StoreGCReturnLive
      else if action = GCReturnDead then Inr StoreGCReturnDead
      else if action = GCDeleteDead then Inr StoreGCDeleteDead
      else if action = GCDeleteSpecific then Inr StoreGCDeleteSpecific
      else Inl (errorf ''store: invalid garbage collection action %d'' [ANum action]))"

section \<open>Roots\<close>

text \<open>\<^verbatim>\<open>if s.ptr == nil { return ..., ErrClosed }\<close>, then the code goes on using
  \<^verbatim>\<open>s.ptr\<close>.\<close>

definition store_open :: "store_ref \<Rightarrow> (ptr \<Rightarrow> 'a res io) \<Rightarrow> 'a res io" where
  "store_open s k = do {
     p \<leftarrow> get_ptr KStore (store_id s);
     (case p of None \<Rightarrow> fail ErrClosed | Some sp \<Rightarrow> k sp)
   }"

text \<open>A deferred \<^verbatim>\<open>path.Close()\<close> around the rest of the function.\<close>

definition defer_path_close :: "path_ref \<Rightarrow> 'a io \<Rightarrow> 'a io" where
  "defer_path_close p m = do { r \<leftarrow> m; x \<leftarrow> path_close p; State_Monad.return r }"

definition add_temp_root :: "store_ref \<Rightarrow> string \<Rightarrow> unit res io" where
  "add_temp_root s path =
     store_open s (\<lambda>sp.
     chk (parse_path s path) (wrapf ''store: failed to parse temporary GC root path: %w'' []) (\<lambda>store_path.
     defer_path_close store_path (
     chk (context_borrow (store_ctx s)) (wrapf ''store: failed to borrow context: %w'' []) (\<lambda>raw_ctx.
     chk (path_borrow store_path) (wrapf ''store: failed to borrow path: %w'' []) (\<lambda>pp.
     check_code raw_ctx (G (StoreAddTempRoot raw_ctx sp pp))
       ''store: failed to add temporary GC root: %w'' [])))))"

definition add_permanent_root :: "store_ref \<Rightarrow> string \<Rightarrow> string \<Rightarrow> string res io" where
  "add_permanent_root s path root =
     store_open s (\<lambda>sp.
     chk (parse_path s path) (wrapf ''store: failed to parse permanent GC root path: %w'' []) (\<lambda>store_path.
     defer_path_close store_path (
     chk (context_borrow (store_ctx s)) (wrapf ''store: failed to borrow context: %w'' []) (\<lambda>raw_ctx.
     chk (path_borrow store_path) (wrapf ''store: failed to borrow path: %w'' []) (\<lambda>pp.
     take_str_pending raw_ctx (G (StoreAddPermanentRoot raw_ctx sp pp root))
       ''store: failed to add permanent GC root'' [])))))"

text \<open>The loop of \<^verbatim>\<open>convertRoots\<close>. The bound of the loop is read once, by the second call
  of \<^verbatim>\<open>StoreRootsCount\<close>.\<close>

fun convert_roots_loop ::
  "store_ref \<Rightarrow> ptr \<Rightarrow> ptr \<Rightarrow> nat list \<Rightarrow> gc_root list \<Rightarrow> gc_root list res io" where
  "convert_roots_loop s raw_ctx raw_roots [] roots = ok roots"
| "convert_roots_loop s raw_ctx raw_roots (i # is) roots =
     chk (check_ptr_pending raw_ctx (G (StoreRootsPathClone raw_roots i))
         ''clone GC root path %d'' [ANum (int i)]) (\<lambda>e. e) (\<lambda>p. do {
       link_ptr \<leftarrow> raw_str (G (StoreRootsLink raw_roots i));
       (case link_ptr of
          None \<Rightarrow> do {
            raw_free (S (StorePathFree p));
            fail_pending raw_ctx ''read GC root link %d'' [ANum (int i)]
          }
        | Some link_ptr \<Rightarrow> do {
            link \<leftarrow> take_cstring (Some link_ptr);
            chk (path_adopt (store_ctx s) p ''create GC root path %d: %w'' [ANum (int i)])
              (\<lambda>e. e) (\<lambda>path.
            let path_string = print_path s (path_hash path) (path_name path) in
            chk (path_close path) (wrapf ''close GC root path %d: %w'' [ANum (int i)]) (\<lambda>_.
            convert_roots_loop s raw_ctx raw_roots is
              (roots @ [\<lparr>Root_Path = path_string, Root_Link = link\<rparr>])))
          })
     })"

definition convert_roots :: "store_ref \<Rightarrow> ptr \<Rightarrow> ptr \<Rightarrow> gc_root list res io" where
  "convert_roots s raw_ctx raw_roots = do {
     capacity \<leftarrow> raw_size (G (StoreRootsCount raw_roots));
     count \<leftarrow> raw_size (G (StoreRootsCount raw_roots));
     convert_roots_loop s raw_ctx raw_roots [0..<count] []
   }"

definition find_roots :: "store_ref \<Rightarrow> bool \<Rightarrow> gc_root list res io" where
  "find_roots s censor =
     with_store s (\<lambda>raw_ctx sp.
     chk (check_ptr_pending raw_ctx (G (StoreFindRoots raw_ctx sp censor))
         ''store: failed to find GC roots'' []) (\<lambda>e. e) (\<lambda>raw_roots. do {
       r \<leftarrow> chk (convert_roots s raw_ctx raw_roots)
         (wrapf ''store: failed to convert GC roots: %w'' []) ok;
       raw_free (G (StoreRootsFree raw_roots));
       State_Monad.return r
     }))"

section \<open>Collection\<close>

fun convert_gc_loop :: "ptr \<Rightarrow> ptr \<Rightarrow> nat list \<Rightarrow> gc_result \<Rightarrow> gc_result res io" where
  "convert_gc_loop raw_ctx raw_results [] result = ok result"
| "convert_gc_loop raw_ctx raw_results (i # is) result =
     chk (take_str_pending raw_ctx (G (StoreGCResultsPath raw_results i))
         ''read garbage collection path %d'' [ANum (int i)]) (\<lambda>e. e) (\<lambda>path.
     convert_gc_loop raw_ctx raw_results is (result\<lparr>GC_Paths := GC_Paths result @ [path]\<rparr>))"

definition convert_gc_result :: "ptr \<Rightarrow> ptr \<Rightarrow> gc_result res io" where
  "convert_gc_result raw_ctx raw_results = do {
     count \<leftarrow> raw_size (G (StoreGCResultsCount raw_results));
     bytes_freed \<leftarrow> raw_64 (G (StoreGCResultsBytesFreed raw_results));
     convert_gc_loop raw_ctx raw_results [0..<count] \<lparr>GC_Paths = [], BytesFreed = bytes_freed\<rparr>
   }"

text \<open>The loop that parses the paths to delete: it passes on the parsed paths in either case, for
  the deferred clean-up.\<close>

fun parse_gc_paths ::
  "store_ref \<Rightarrow> nat \<Rightarrow> string list \<Rightarrow> path_ref list \<Rightarrow> ptr list \<Rightarrow> (path_ref list \<times> ptr list res) io" where
  "parse_gc_paths s i [] parsed items = State_Monad.return (parsed, Inr items)"
| "parse_gc_paths s i (path # paths) parsed items =
     attempt (parse_path s path)
       (\<lambda>e. State_Monad.return
          (parsed, Inl (wrapf ''store: failed to parse GC path %d: %w'' [ANum (int i)] e)))
       (\<lambda>q. attempt (path_borrow q)
          (\<lambda>e. State_Monad.return
             (parsed @ [q], Inl (wrapf ''store: failed to borrow GC path %d: %w'' [ANum (int i)] e)))
          (\<lambda>pp. parse_gc_paths s (Suc i) paths (parsed @ [q]) (items @ [pp])))"

definition collect_parsed :: "ptr \<Rightarrow> ptr \<Rightarrow> int \<Rightarrow> gc_config \<Rightarrow> ptr list \<Rightarrow> gc_result res io" where
  "collect_parsed raw_ctx sp raw_action cfg items =
     chk (check_ptr_pending raw_ctx
         (G (StoreCollectGarbage raw_ctx sp raw_action (IgnoreLiveness cfg) items (MaxFreed cfg)))
         ''store: failed to collect garbage'' []) (\<lambda>e. e) (\<lambda>raw_results. do {
       r \<leftarrow> chk (convert_gc_result raw_ctx raw_results)
         (wrapf ''store: failed to convert garbage collection result: %w'' []) ok;
       raw_free (G (StoreGCResultsFree raw_results));
       State_Monad.return r
     })"

definition collect_garbage ::
  "store_ref \<Rightarrow> gc_action \<Rightarrow> (gc_config \<Rightarrow> gc_config) list \<Rightarrow> gc_result res io" where
  "collect_garbage s action opts =
     store_open s (\<lambda>sp.
     (case raw_gc_action action of
        Inl e \<Rightarrow> fail e
      | Inr raw_action \<Rightarrow>
          let cfg = apply_options opts initial_gc_config in
          chk (context_borrow (store_ctx s)) (wrapf ''store: failed to borrow context: %w'' []) (\<lambda>raw_ctx. do {
            r \<leftarrow> parse_gc_paths s 0 (PathsToDelete cfg) [] [];
            result \<leftarrow> (case snd r of
                Inl e \<Rightarrow> fail e
              | Inr items \<Rightarrow> collect_parsed raw_ctx sp raw_action cfg items);
            errs \<leftarrow> close_paths (fst r) [];
            State_Monad.return result
          })))"

section \<open>Ledger\<close>

lemma wp_store_open:
  assumes "safe w" "Q (Inl ErrClosed) w"
    "\<And>sp. cells w (store_id s) = Some (KStore, sp) \<Longrightarrow> (KStore, sp) \<in># live w \<Longrightarrow> wp (k sp) Q w"
  shows "wp (store_open s k) Q w"
  unfolding store_open_def using assms
  by (auto simp: wp_rules ptr_at_Some safe_cell_live split: option.split)

text \<open>What a deferred close of a path made since \<open>w0\<close> leaves.\<close>

lemma wp_defer_path_close:
  assumes "wp m (\<lambda>r w'. grows w0 w' \<and> created KStorePath w0 (path_id p) w' \<and>
      (\<forall>w''. grows w0 w'' \<longrightarrow> Q r w'')) w" "safe w0"
  shows "wp (defer_path_close p m) Q w"
  unfolding defer_path_close_def wp_rules
  using assms(1)
proof (rule wp_mono)
  fix r w'
  assume w': "grows w0 w' \<and> created KStorePath w0 (path_id p) w' \<and> (\<forall>w''. grows w0 w'' \<longrightarrow> Q r w'')"
  then obtain x where x: "cells w' (path_id p) = Some (KStorePath, x)" and "next_ref w0 \<le> path_id p"
    by (auto simp: created_def)
  then have "grows w0 (clear_cell (path_id p) (drop_handle (KStorePath, x) w'))"
    using w' assms(2) by (intro grows_close_fresh) auto
  then show "wp (path_close p) (\<lambda>_. Q r) w'"
    using w' x assms(2) by (intro pth.wp_close) (auto simp: grows_safe ptr_at_cell)
qed

lemma wp_parse_path:
  assumes "safe w" "\<And>e w'. grows w w' \<Longrightarrow> Q (Inl e) w'"
    "\<And>q w'. grows w w' \<Longrightarrow> created KStorePath w (path_id q) w' \<Longrightarrow> Q (Inr q) w'"
  shows "wp (parse_path s str) Q w"
  using parse_path_creates [OF assms(1)] assms(2,3) by (rule wp_createsI)

lemma wp_held_path:
  assumes "safe w" "cells w (path_id q) = Some (KStorePath, pp)" "\<And>e. Q (Inl e) w"
    "\<And>raw_ctx. (KContext, raw_ctx) \<in># live w \<Longrightarrow> (KStorePath, pp) \<in># live w \<Longrightarrow> wp (k raw_ctx pp) Q w"
  shows "wp (chk (context_borrow c) f (\<lambda>raw_ctx. chk (path_borrow q) g (\<lambda>pp. k raw_ctx pp))) Q w"
  using assms by (auto simp: wp_rules ptr_at_cell intro!: ctx.wp_borrow pth.wp_borrow)

lemma root_rest:
  assumes "safe w0" "grows w0 w" "created KStorePath w0 (path_id q) w"
    "\<And>raw_ctx pp Q. (KContext, raw_ctx) \<in># live w \<Longrightarrow> (KStorePath, pp) \<in># live w \<Longrightarrow>
       (\<And>r h. Q r (with_hist h w)) \<Longrightarrow> wp (k raw_ctx pp) Q w"
    "\<And>r w'. grows w0 w' \<Longrightarrow> P r w'"
  shows "wp (defer_path_close q
    (chk (context_borrow c) f (\<lambda>raw_ctx. chk (path_borrow q) g (\<lambda>pp. k raw_ctx pp)))) P w"
proof -
  from assms(3) obtain pp where "cells w (path_id q) = Some (KStorePath, pp)"
    by (auto simp: created_def)
  then show ?thesis
    using assms by (intro wp_defer_path_close wp_held_path) (auto simp: grows_safe)
qed

lemma add_temp_root_grows: "safe w \<Longrightarrow> wp (add_temp_root s p) (\<lambda>r w'. grows w w') w"
  unfolding add_temp_root_def
  by (auto simp: wp_rules grows_safe grows_live
      intro!: wp_store_open wp_parse_path root_rest wp_check_code split: sum.splits)

lemma add_permanent_root_grows: "safe w \<Longrightarrow> wp (add_permanent_root s p r) (\<lambda>r w'. grows w w') w"
  unfolding add_permanent_root_def
  by (auto simp: wp_rules grows_safe grows_live
      intro!: wp_store_open wp_parse_path root_rest wp_take_str_pending split: sum.splits)

text \<open>Roots: every path made in the loop is closed in the same round.\<close>

lemma wp_convert_roots_loop:
  assumes "safe w0" "(KRoots, raw_roots) \<in># live w0" "(KContext, raw_ctx) \<in># live w0"
    "grows w0 w" "\<And>r w'. grows w0 w' \<Longrightarrow> Q r w'"
  shows "wp (convert_roots_loop s raw_ctx raw_roots is roots) Q w"
  using assms(4)
proof (induction "is" arbitrary: roots w)
  case Nil
  then show ?case using assms(5) by (simp add: wp_rules)
next
  case (Cons i "is")
  then have "safe w" "(KRoots, raw_roots) \<in># live w" "(KContext, raw_ctx) \<in># live w"
    using assms(1-3) by (auto simp: grows_safe grows_live)
  then show ?case
    using Cons.prems Cons.IH assms(5)
    by (auto simp: wp_rules Let_def intro!: wp_intros split: option.split sum.split)
qed

lemma wp_convert_roots:
  assumes "safe w" "(KRoots, raw_roots) \<in># live w" "(KContext, raw_ctx) \<in># live w"
    "\<And>r w'. grows w w' \<Longrightarrow> Q r w'"
  shows "wp (convert_roots s raw_ctx raw_roots) Q w"
  unfolding convert_roots_def
  using assms by (auto simp: wp_rules intro!: wp_intros wp_convert_roots_loop)

lemma find_roots_grows: "safe w \<Longrightarrow> wp (find_roots s c) (\<lambda>r w'. grows w w') w"
  unfolding find_roots_def
  by (auto simp: wp_rules grows_safe grows_live grows_gain_drop dest: grows_live
      intro!: wp_intros wp_convert_roots split: option.split sum.split)

text \<open>Collection: the parsed paths stay open until the end and are then all closed.\<close>

lemma fresh_paths_grows: "fresh_paths w0 qs w \<Longrightarrow> safe w \<Longrightarrow> grows w w' \<Longrightarrow> fresh_paths w0 qs w'"
  by (auto simp: fresh_paths_def intro: created_grows)

lemma fresh_paths_add:
  assumes "fresh_paths w0 qs w" "safe w" "grows w0 w" "grows w w'" "created KStorePath w (path_id q) w'"
  shows "fresh_paths w0 (qs @ [q]) w'"
proof -
  have "path_id r < next_ref w" if "r \<in> set qs" for r
    using assms(1,2) that cells_bound [of w] by (fastforce simp: fresh_paths_def created_def)
  then have "path_id q \<notin> path_id ` set qs" using assms(5) by (fastforce simp: created_def)
  moreover have "fresh_paths w0 qs w'" using assms(1,2,4) by (rule fresh_paths_grows)
  moreover have "created KStorePath w0 (path_id q) w'" using assms(3,5) by (rule created_trans)
  ultimately show ?thesis by (auto simp: fresh_paths_def)
qed

lemma wp_parse_gc_paths:
  assumes "safe w0" "grows w0 w" "fresh_paths w0 parsed w"
    "\<forall>p \<in> set items. (KStorePath, p) \<in># live w"
    "\<And>r w'. grows w0 w' \<Longrightarrow> fresh_paths w0 (fst r) w' \<Longrightarrow>
       (\<And>items. snd r = Inr items \<Longrightarrow> \<forall>p \<in> set items. (KStorePath, p) \<in># live w') \<Longrightarrow> Q r w'"
  shows "wp (parse_gc_paths s i paths parsed items) Q w"
  using assms(2-4)
proof (induction paths arbitrary: i parsed items w)
  case Nil
  then have "Q (parsed, Inr items) w" by (intro assms(5)) auto
  then show ?case by (simp add: wp_rules)
next
  case (Cons path paths)
  have safe: "safe w" using assms(1) Cons.prems(1) by (simp add: grows_safe)
  show ?case
    unfolding parse_gc_paths.simps wp_rules
  proof (rule wp_parse_path [OF safe], simp_all)
    fix e w' assume "grows w w'"
    then show "Q (parsed, Inl (wrapf ''store: failed to parse GC path %d: %w'' [ANum (int i)] e)) w'"
      using Cons.prems safe by (intro assms(5)) (auto intro: grows_trans fresh_paths_grows)
  next
    fix q :: path_ref and w' assume w': "grows w w'" "created KStorePath w (path_id q) w'"
    then have g: "grows w0 w'" "fresh_paths w0 (parsed @ [q]) w'" "safe w'"
      using Cons.prems safe by (auto intro: grows_trans fresh_paths_add simp: grows_safe)
    have "\<forall>p \<in> set items. (KStorePath, p) \<in># live w'"
      using Cons.prems(3) w'(1) by (auto intro: grows_live)
    then show "wp (path_borrow q) (\<lambda>r w'. case r of
        Inl e \<Rightarrow> Q (parsed @ [q], Inl (wrapf ''store: failed to borrow GC path %d: %w'' [ANum (int i)] e)) w'
      | Inr pp \<Rightarrow> wp (parse_gc_paths s (Suc i) paths (parsed @ [q]) (items @ [pp])) Q w') w'"
      using g by (auto intro!: pth.wp_borrow Cons.IH assms(5))
  qed
qed

lemma wp_convert_gc_loop:
  assumes "ready w [(KContext, raw_ctx), (KGCResults, rr)]" "\<And>r h. Q r (with_hist h w)"
  shows "wp (convert_gc_loop raw_ctx rr is result) Q (with_hist h w)"
  using assms
  by (induction "is" arbitrary: result h)
    (auto simp: wp_rules intro!: wp_take_str_pending split: sum.split)

lemma wp_convert_gc_result:
  assumes "ready w [(KContext, raw_ctx), (KGCResults, rr)]" "\<And>r h. Q r (with_hist h w)"
  shows "wp (convert_gc_result raw_ctx rr) Q w"
  unfolding convert_gc_result_def
  using assms by (auto simp: wp_rules intro!: wp_intros wp_convert_gc_loop)

lemma wp_collect_parsed:
  assumes "ready w [(KContext, raw_ctx), (KStore, sp)]" "\<forall>p \<in> set items. (KStorePath, p) \<in># live w"
    "\<And>r h. Q r (with_hist h w)"
  shows "wp (collect_parsed raw_ctx sp action cfg items) Q w"
  unfolding collect_parsed_def
  using assms
  by (auto simp: wp_rules ready_def intro!: wp_check_ptr_pending wp_convert_gc_result wp_free split: sum.split)

lemma wp_close_parsed:
  assumes "safe w0" "grows w0 w" "fresh_paths w0 qs w" "\<And>w'. grows w0 w' \<Longrightarrow> Q [] w'"
  shows "wp (close_paths qs []) Q w"
  using assms leaves_grows [of w0] by (intro wp_close_paths) auto

lemma collect_garbage_grows: "safe w \<Longrightarrow> wp (collect_garbage s a opts) (\<lambda>r w'. grows w w') w"
proof -
  assume safe: "safe w"
  have close: "wp (close_paths qs []) (\<lambda>_. grows w) w'"
    if "grows w w'" "fresh_paths w qs w'" for qs w'
    using safe that by (rule wp_close_parsed)
  have rest: "wp (case snd r of Inl e \<Rightarrow> fail e
        | Inr items \<Rightarrow> collect_parsed raw_ctx sp action cfg items)
      (\<lambda>r'. wp (close_paths (fst r) []) (\<lambda>_. grows w)) w'"
    if "grows w w'" "fresh_paths w (fst r) w'" "(KContext, raw_ctx) \<in># live w" "(KStore, sp) \<in># live w"
      "\<And>items. snd r = Inr items \<Longrightarrow> \<forall>p \<in> set items. (KStorePath, p) \<in># live w'"
    for r w' raw_ctx sp action cfg
    using that safe close
    by (auto simp: wp_rules grows_safe grows_live intro!: wp_collect_parsed split: sum.split)
  have body: "wp (do {
      r \<leftarrow> parse_gc_paths s 0 paths [] [];
      result \<leftarrow> (case snd r of Inl e \<Rightarrow> fail e | Inr items \<Rightarrow> collect_parsed raw_ctx sp action cfg items);
      errs \<leftarrow> close_paths (fst r) [];
      State_Monad.return result
    }) (\<lambda>r. grows w) w"
    if "(KContext, raw_ctx) \<in># live w" "(KStore, sp) \<in># live w" for raw_ctx sp action cfg paths
    unfolding wp_bind wp_return
    using safe that by (intro wp_parse_gc_paths [of w]) (simp_all add: rest)
  show ?thesis
    unfolding collect_garbage_def Let_def
    using safe by (auto simp: wp_chk wp_fail wp_sum intro!: wp_store_open ctx.wp_borrow body split: sum.split)
qed

end
