(* ===== verification/Store_Copy.thy ===== *)
theory Store_Copy
  imports Store_Core
begin

text \<open>
  \<^verbatim>\<open>store/store_copy.go\<close> and \<^verbatim>\<open>util/interrupt.go\<close>: copying between stores and
  interrupting operations.
\<close>

record copy_config =
  Repair :: bool
  CheckSignatures :: bool

definition zero_copy_config :: copy_config where
  "zero_copy_config = \<lparr>Repair = False, CheckSignatures = False\<rparr>"

definition WithCopyRepair :: "bool \<Rightarrow> copy_config \<Rightarrow> copy_config" where
  "WithCopyRepair repair c = c\<lparr>Repair := repair\<rparr>"

definition WithCopyCheckSignatures :: "bool \<Rightarrow> copy_config \<Rightarrow> copy_config" where
  "WithCopyCheckSignatures check c = c\<lparr>CheckSignatures := check\<rparr>"

definition copy_closure :: "store_ref \<Rightarrow> store_ref \<Rightarrow> path_ref \<Rightarrow> unit res io" where
  "copy_closure s dst path =
     with_store s (\<lambda>raw_ctx sp.
     chk (store_borrow dst) (wrapf ''store: failed to borrow dst store: %w'' []) (\<lambda>dp.
     chk (path_borrow path) (wrapf ''store: failed to borrow path: %w'' []) (\<lambda>pp.
     check_code raw_ctx (S (StoreCopyClosure raw_ctx sp dp pp)) ''store: failed to copy closure: %w'' [])))"

definition copy_path_to ::
  "store_ref \<Rightarrow> store_ref \<Rightarrow> path_ref \<Rightarrow> (copy_config \<Rightarrow> copy_config) list \<Rightarrow> unit res io" where
  "copy_path_to s dst path opts =
     (let cfg = apply_options opts zero_copy_config in
     with_store s (\<lambda>raw_ctx sp.
     chk (store_borrow dst) (wrapf ''store: failed to borrow dst store: %w'' []) (\<lambda>dp.
     chk (path_borrow path) (wrapf ''store: failed to borrow path: %w'' []) (\<lambda>pp.
     check_code raw_ctx (S (StoreCopyPath raw_ctx sp dp pp (Repair cfg) (CheckSignatures cfg)))
       ''store: copy path: %w'' []))))"

section \<open>Interrupts\<close>

definition store_interrupt :: "context_ref \<Rightarrow> store_ref \<Rightarrow> unit res io" where
  "store_interrupt ctx s =
     chk (context_borrow ctx) (wrapf ''util: failed to borrow context: %w'' []) (\<lambda>raw_ctx.
     chk (store_borrow s) (wrapf ''util: failed to borrow store: %w'' []) (\<lambda>sp.
     check_code raw_ctx (S (RawStoreInterrupt raw_ctx sp)) ''util: failed to interrupt store: %w'' []))"

definition interrupt_request :: "unit io" where
  "interrupt_request = raw_unit (U RawInterruptRequest)"

definition interrupt_requested :: "bool io" where
  "interrupt_requested = raw_bool (U RawInterruptRequested)"

definition interrupt_clear :: "unit io" where
  "interrupt_clear = raw_unit (U RawInterruptClear)"

section \<open>Ledger\<close>

lemma copy_grows:
  "safe w \<Longrightarrow> wp (copy_closure s dst p) (\<lambda>r w'. grows w w') w"
  "safe w \<Longrightarrow> wp (copy_path_to s dst p opts) (\<lambda>r w'. grows w w') w"
  unfolding copy_closure_def copy_path_to_def Let_def
  by (auto simp: wp_rules intro!: wp_intros split: option.split sum.split)

lemma interrupt_grows:
  "safe w \<Longrightarrow> wp (store_interrupt c s) (\<lambda>r w'. grows w w') w"
  "safe w \<Longrightarrow> wp interrupt_request (\<lambda>r w'. grows w w') w"
  "safe w \<Longrightarrow> wp interrupt_requested (\<lambda>r w'. grows w w') w"
  "safe w \<Longrightarrow> wp interrupt_clear (\<lambda>r w'. grows w w') w"
  unfolding store_interrupt_def interrupt_request_def interrupt_requested_def interrupt_clear_def
  by (auto simp: wp_rules intro!: wp_intros split: option.split sum.split)

end
