(* ===== verification/Derivation.thy ===== *)
theory Derivation
  imports Store_Core
begin

text \<open>
  \<^verbatim>\<open>store/derivation.go\<close> and \<^verbatim>\<open>store/store_derivation.go\<close>: owned derivations with
  cached JSON, importing and adding them.
\<close>

record derivation_ref =
  drv_id :: nat
  drv_json :: string
  drv_ctx :: context_ref

definition derivation_borrow :: "derivation_ref \<Rightarrow> ptr res io" where
  "derivation_borrow d = do {
     p \<leftarrow> get_ptr KDerivation (drv_id d);
     (case p of None \<Rightarrow> fail ErrClosed | Some p \<Rightarrow> ok p)
   }"

definition derivation_close :: "derivation_ref \<Rightarrow> unit res io" where
  "derivation_close d = do {
     p \<leftarrow> get_ptr KDerivation (drv_id d);
     (case p of
        None \<Rightarrow> ok ()
      | Some p \<Rightarrow> do { raw_free (S (DerivationFree p)); set_nil (drv_id d); ok () })
   }"

interpretation drv: wrapper KDerivation drv_id "\<lambda>p. S (DerivationFree p)" derivation_borrow derivation_close
  by unfold_locales
    (auto intro: close_run_eq [OF derivation_close_def] borrow_run_eq [OF derivation_borrow_def])

lemmas [wp_intros] = drv.wp_borrow drv.wp_close

text \<open>\<^verbatim>\<open>NewDerivation\<close>, which owns its argument from the start: every error releases it.\<close>

definition new_derivation :: "context_ref \<Rightarrow> ptr option \<Rightarrow> derivation_ref res io" where
  "new_derivation ctx p =
     (case p of
        None \<Rightarrow> fail (errorf ''derivation: nil raw derivation'' [])
      | Some p \<Rightarrow>
          attempt (context_borrow ctx)
            (\<lambda>e. do {
               raw_free (S (DerivationFree p));
               fail (wrapf ''derivation: failed to borrow context: %w'' [] e)
             })
            (\<lambda>raw_ctx. do {
               json \<leftarrow> raw_str (S (DerivationToJson raw_ctx p));
               (case json of
                  None \<Rightarrow> do {
                    raw_free (S (DerivationFree p));
                    fail_pending raw_ctx ''derivation: failed to serialize to json'' []
                  }
                | Some json \<Rightarrow> do {
                    str \<leftarrow> take_cstring (Some json);
                    i \<leftarrow> new_cell KDerivation p;
                    ok \<lparr>drv_id = i, drv_json = str, drv_ctx = ctx\<rparr>
                  })
             }))"

definition serialize_json :: "derivation_ref \<Rightarrow> string" where
  "serialize_json d = drv_json d"

definition derivation_clone :: "derivation_ref \<Rightarrow> derivation_ref res io" where
  "derivation_clone d = do {
     p \<leftarrow> get_ptr KDerivation (drv_id d);
     (case p of
        None \<Rightarrow> fail ErrClosed
      | Some p \<Rightarrow>
          chk (context_borrow (drv_ctx d)) (wrapf ''derivation: failed to borrow context: %w'' []) (\<lambda>raw_ctx.
          chk (check_ptr raw_ctx (S (DerivationClone p)) ''derivation: failed to clone derivation: %w'' [])
            (\<lambda>e. e) (\<lambda>clone.
          chk (new_derivation (drv_ctx d) (Some clone))
            (wrapf ''derivation: failed to create cloned derivation: %w'' []) ok)))
   }"

definition derivation_from_json :: "store_ref \<Rightarrow> string \<Rightarrow> derivation_ref res io" where
  "derivation_from_json s data =
     with_store s (\<lambda>raw_ctx sp.
     chk (check_ptr raw_ctx (S (DerivationFromJson raw_ctx sp data))
         ''store: failed to import derivation from json: %w'' []) (\<lambda>e. e) (\<lambda>p.
     chk (new_derivation (store_ctx s) (Some p))
       (wrapf ''store: failed to create derivation: %w'' []) ok))"

definition derivation_from_path :: "store_ref \<Rightarrow> path_ref \<Rightarrow> derivation_ref res io" where
  "derivation_from_path s path =
     with_store s (\<lambda>raw_ctx sp.
     chk (path_borrow path) (wrapf ''store: failed to borrow path: %w'' []) (\<lambda>pp.
     chk (check_ptr raw_ctx (S (StoreDrvFromStorePath raw_ctx sp pp))
         ''store: failed to load derivation from path: %w'' []) (\<lambda>e. e) (\<lambda>p.
     chk (new_derivation (store_ctx s) (Some p))
       (wrapf ''store: failed to create derivation: %w'' []) ok)))"

definition add_derivation :: "store_ref \<Rightarrow> derivation_ref \<Rightarrow> path_ref res io" where
  "add_derivation s d =
     with_store s (\<lambda>raw_ctx sp.
     chk (derivation_borrow d) (wrapf ''store: failed to borrow derivation: %w'' []) (\<lambda>dp.
     chk (check_ptr raw_ctx (S (RawAddDerivation raw_ctx sp dp))
         ''store: failed to add derivation: %w'' []) (\<lambda>e. e) (\<lambda>p.
     path_adopt (store_ctx s) p ''store: failed to create store path: %w'' [])))"

section \<open>Ledger\<close>

lemma wp_new_derivation:
  assumes "safe w" "(KDerivation, p) \<in># live w"
    "\<And>e h. Q (Inl e) (with_hist h (drop_handle (KDerivation, p) w))"
    "\<And>d h. drv_id d = next_ref w \<Longrightarrow> drv_ctx d = ctx \<Longrightarrow>
       Q (Inr d) (with_hist h (alloc_cell (KDerivation, p) w))"
  shows "wp (new_derivation ctx (Some p)) Q w"
  unfolding new_derivation_def
  using assms
  by (auto simp: wp_rules intro!: wp_intros split: option.split sum.split)

lemmas [wp_intros] = wp_new_derivation

lemma derivation_clone_creates:
  "safe w \<Longrightarrow> wp (derivation_clone d) (creates KDerivation drv_id w) w"
  unfolding derivation_clone_def
  by (auto simp: wp_rules ptr_at_Some safe_cell_live intro!: wp_intros split: option.split sum.split)

lemma derivation_from_json_creates:
  "safe w \<Longrightarrow> wp (derivation_from_json s x) (creates KDerivation drv_id w) w"
  "safe w \<Longrightarrow> wp (derivation_from_path s p) (creates KDerivation drv_id w) w"
  unfolding derivation_from_json_def derivation_from_path_def
  by (auto simp: wp_rules intro!: wp_intros split: option.split sum.split)

lemma add_derivation_creates: "safe w \<Longrightarrow> wp (add_derivation s d) (creates KStorePath path_id w) w"
  unfolding add_derivation_def
  by (auto simp: wp_rules intro!: wp_intros split: option.split sum.split)

interpretation drvc: cloneable KDerivation drv_id "\<lambda>p. S (DerivationFree p)"
    derivation_borrow derivation_close derivation_clone
  by unfold_locales
    (rule derivation_clone_creates, assumption, simp add: derivation_clone_def get_ptr_def fail_def)

end
