(* ===== verification/Evaluator.thy ===== *)
theory Evaluator
  imports Client_Config Store_Core Balance
begin

text \<open>
  \<^verbatim>\<open>eval/evaluator.go\<close> and the lifecycle part of \<^verbatim>\<open>eval/value.go\<close>: evaluation
  states, the values they own, validation, and closing. A value needs its context to be released,
  so \<^verbatim>\<open>Value.Close\<close> can fail; its contract is stated here and not by the wrapper interface.
\<close>

section \<open>Evaluators\<close>

text \<open>\<^verbatim>\<open>Close\<close> sets \<^verbatim>\<open>state\<close> and \<^verbatim>\<open>ctx\<close> to nil together, and \<^verbatim>\<open>ctx\<close> is
  read only after \<^verbatim>\<open>state\<close> was found open, so \<open>ev_ctx\<close> need not change.\<close>

record evaluator_ref =
  ev_id :: nat
  ev_ctx :: context_ref

definition evaluator_borrow :: "evaluator_ref \<Rightarrow> ptr res io" where
  "evaluator_borrow e = do {
     p \<leftarrow> get_ptr KState (ev_id e);
     (case p of None \<Rightarrow> fail ErrClosed | Some p \<Rightarrow> ok p)
   }"

definition evaluator_close :: "evaluator_ref \<Rightarrow> unit res io" where
  "evaluator_close e = do {
     p \<leftarrow> get_ptr KState (ev_id e);
     (case p of
        None \<Rightarrow> ok ()
      | Some p \<Rightarrow> do { raw_free (E (StateFree p)); set_nil (ev_id e); ok () })
   }"

interpretation eva: wrapper KState ev_id "\<lambda>p. E (StateFree p)" evaluator_borrow evaluator_close
  by unfold_locales
    (auto intro: close_run_eq [OF evaluator_close_def] borrow_run_eq [OF evaluator_borrow_def])

lemmas [wp_intros] = eva.wp_borrow eva.wp_close

text \<open>\<^verbatim>\<open>stringArray\<close>: the items in order, with their lengths in 64 bits.\<close>

definition string_array :: "string list \<Rightarrow> raw_string_array" where
  "string_array values =
     (let items = map (\<lambda>value. \<lparr>item_value = value, item_len = of_nat (length value)\<rparr>) values in
      \<lparr>array_items = items, array_len = of_nat (length items)\<rparr>)"

text \<open>The part of \<^verbatim>\<open>New\<close> between the creation of the builder and its deferred release.\<close>

definition build_state :: "ptr \<Rightarrow> ptr \<Rightarrow> eval_config \<Rightarrow> ptr res io" where
  "build_state raw_ctx builder cfg =
     chk (check_code raw_ctx (E (EvalStateBuilderSetLookupPath raw_ctx builder (string_array (lookupPath cfg))))
         ''eval: failed to set lookup path: %w'' []) (\<lambda>e. e) (\<lambda>_.
     chk (case flakesettings cfg of
            None \<Rightarrow> ok ()
          | Some settings \<Rightarrow>
              chk (flakesettings_borrow settings) (wrapf ''eval: failed to borrow flake settings: %w'' []) (\<lambda>fp.
              check_code raw_ctx (E (FlakeSettingsAddToEvalStateBuilder raw_ctx fp builder))
                ''eval: failed to add flake settings: %w'' []))
       (\<lambda>e. e) (\<lambda>_.
     check_ptr raw_ctx (E (EvalStateBuild raw_ctx builder)) ''eval: failed to build eval state: %w'' []))"

definition evaluator_new :: "context_ref \<Rightarrow> store_ref \<Rightarrow> eval_option list \<Rightarrow> evaluator_ref res io" where
  "evaluator_new ctx s opts =
     chk (context_borrow ctx) (wrapf ''eval: failed to borrow context: %w'' []) (\<lambda>raw_ctx.
     let cfg = apply_options opts zero_eval_config in
     chk (store_borrow s) (wrapf ''eval: failed to borrow store: %w'' []) (\<lambda>sp.
     chk (check_ptr raw_ctx (E (EvalStateBuilderNew raw_ctx sp))
         ''eval: failed to create eval state builder: %w'' []) (\<lambda>e. e) (\<lambda>builder. do {
       r \<leftarrow> build_state raw_ctx builder cfg;
       raw_free (E (EvalStateBuilderFree builder));
       (case r of
          Inl e \<Rightarrow> fail e
        | Inr state \<Rightarrow> do {
            i \<leftarrow> new_cell KState state;
            ok \<lparr>ev_id = i, ev_ctx = ctx\<rparr>
          })
     })))"

section \<open>Values\<close>

record value_ref =
  val_id :: nat
  val_ctx :: context_ref
  val_owner :: evaluator_ref

text \<open>The opening shared by the methods of \<^verbatim>\<open>Evaluator\<close>: the state must be open and the
  context is borrowed.\<close>

definition with_eval :: "evaluator_ref \<Rightarrow> (ptr \<Rightarrow> ptr \<Rightarrow> 'a res io) \<Rightarrow> 'a res io" where
  "with_eval e k = do {
     s \<leftarrow> get_ptr KState (ev_id e);
     (case s of
        None \<Rightarrow> fail ErrClosed
      | Some sp \<Rightarrow>
          chk (context_borrow (ev_ctx e)) (wrapf ''eval: failed to borrow context: %w'' []) (\<lambda>raw_ctx.
            k raw_ctx sp))
   }"

text \<open>\<^verbatim>\<open>WrapValue\<close>: on an error the native value stays with the caller.\<close>

definition wrap_value :: "evaluator_ref \<Rightarrow> ptr \<Rightarrow> value_ref res io" where
  "wrap_value e p = do {
     s \<leftarrow> get_ptr KState (ev_id e);
     (case s of
        None \<Rightarrow> fail ErrClosed
      | Some _ \<Rightarrow> do {
          i \<leftarrow> new_cell KValue p;
          ok \<lparr>val_id = i, val_ctx = ev_ctx e, val_owner = e\<rparr>
        })
   }"

text \<open>\<^verbatim>\<open>allocValue\<close>; the result comes with its \<^verbatim>\<open>ptr\<close> field, which the callers read.\<close>

definition alloc_value :: "evaluator_ref \<Rightarrow> (value_ref \<times> ptr) res io" where
  "alloc_value e =
     with_eval e (\<lambda>raw_ctx sp.
     chk (check_ptr raw_ctx (E (AllocValue raw_ctx sp)) ''eval: failed to allocate value: %w'' [])
       (\<lambda>e. e) (\<lambda>p. do {
       i \<leftarrow> new_cell KValue p;
       ok (\<lparr>val_id = i, val_ctx = ev_ctx e, val_owner = e\<rparr>, p)
     }))"

text \<open>\<^verbatim>\<open>validateValue\<close>; a nil value is \<open>None\<close>. The result is the \<^verbatim>\<open>ptr\<close> field of
  a value that passes.\<close>

definition validate_value :: "evaluator_ref \<Rightarrow> value_ref option \<Rightarrow> ptr res io" where
  "validate_value e v = do {
     s \<leftarrow> get_ptr KState (ev_id e);
     (case s of
        None \<Rightarrow> fail ErrClosed
      | Some _ \<Rightarrow>
          (case v of
             None \<Rightarrow> fail (errorf ''eval: value is nil'' [])
           | Some v \<Rightarrow> do {
               p \<leftarrow> get_ptr KValue (val_id v);
               (case p of
                  None \<Rightarrow> fail ErrClosed
                | Some p \<Rightarrow>
                    if ev_id (val_owner v) \<noteq> ev_id e
                    then fail (errorf ''eval: value belongs to a different evaluator'' [])
                    else ok p)
             }))
   }"

text \<open>\<^verbatim>\<open>Value.validate\<close>, with the \<^verbatim>\<open>ptr\<close> field of a value that passes, and the borrowing of
  the context that follows it in the methods of \<^verbatim>\<open>Value\<close>.\<close>

definition value_validate :: "value_ref \<Rightarrow> ptr res io" where
  "value_validate v = do {
     p \<leftarrow> get_ptr KValue (val_id v);
     s \<leftarrow> get_ptr KState (ev_id (val_owner v));
     (case p of
        None \<Rightarrow> fail ErrClosed
      | Some p \<Rightarrow> (case s of None \<Rightarrow> fail ErrClosed | Some _ \<Rightarrow> ok p))
   }"

definition value_borrow :: "value_ref \<Rightarrow> ptr res io" where
  "value_borrow v = chk (value_validate v) (\<lambda>e. e) ok"

definition with_value :: "value_ref \<Rightarrow> (ptr \<Rightarrow> ptr \<Rightarrow> 'a res io) \<Rightarrow> 'a res io" where
  "with_value v k =
     chk (value_validate v) (\<lambda>e. e) (\<lambda>p.
     chk (context_borrow (val_ctx v)) (wrapf ''eval: failed to borrow context: %w'' []) (\<lambda>raw_ctx.
       k raw_ctx p))"

text \<open>\<^verbatim>\<open>Value.Close\<close>. The ledger counts the reference as given back once
  \<^verbatim>\<open>ValueDecref\<close> was called, whatever code it returned; so does the code, whose deferred
  function forgets the pointer in either case.\<close>

definition value_close :: "value_ref \<Rightarrow> unit res io" where
  "value_close v = do {
     p \<leftarrow> get_ptr KValue (val_id v);
     (case p of
        None \<Rightarrow> ok ()
      | Some p \<Rightarrow>
          chk (context_borrow (val_ctx v)) (wrapf ''eval: failed to borrow context: %w'' []) (\<lambda>raw_ctx. do {
            code \<leftarrow> raw_code (E (ValueDecref raw_ctx p));
            r \<leftarrow> (if code \<noteq> ErrorCodeOK then fail_status raw_ctx ''eval: failed to decref value: %w'' []
                  else ok ());
            set_nil (val_id v);
            State_Monad.return r
          }))
   }"

section \<open>Ledger\<close>

lemma wp_build_state:
  assumes "safe w" "ready w [(KContext, raw_ctx), (KStateBuilder, b)]"
    "\<And>e h. Q (Inl e) (with_hist h w)"
    "\<And>p h. Q (Inr p) (with_hist h (gain (KState, p) w))"
  shows "wp (build_state raw_ctx b cfg) Q w"
  unfolding build_state_def flakesettings_borrow_def
  using assms
  by (auto simp: wp_rules ptr_at_Some safe_cell_live intro!: wp_intros split: option.split sum.split)

lemma evaluator_new_creates: "safe w \<Longrightarrow> wp (evaluator_new ctx s opts) (creates KState ev_id w) w"
  unfolding evaluator_new_def Let_def
  by (auto simp: wp_rules intro!: wp_intros wp_build_state split: option.split sum.split)

lemma wp_with_eval:
  assumes "safe w" "Q (Inl ErrClosed) w"
    "\<And>e. Q (Inl (wrapf ''eval: failed to borrow context: %w'' [] e)) w"
    "\<And>raw_ctx sp. cells w (ev_id e) = Some (KState, sp) \<Longrightarrow> (KState, sp) \<in># live w \<Longrightarrow>
      cells w (ctx_id (ev_ctx e)) = Some (KContext, raw_ctx) \<Longrightarrow>
      (KContext, raw_ctx) \<in># live w \<Longrightarrow> wp (k raw_ctx sp) Q w"
  shows "wp (with_eval e k) Q w"
  unfolding with_eval_def using assms
  by (auto simp: wp_rules ptr_at_Some safe_cell_live intro!: wp_intros split: option.split sum.split)

lemma wp_alloc_value:
  assumes "safe w" "\<And>e h. Q (Inl e) (with_hist h w)"
    "\<And>p h sp rc. cells w (ev_id e) = Some (KState, sp) \<Longrightarrow> (KState, sp) \<in># live w \<Longrightarrow>
      cells w (ctx_id (ev_ctx e)) = Some (KContext, rc) \<Longrightarrow>
      Q (Inr (\<lparr>val_id = next_ref w, val_ctx = ev_ctx e, val_owner = e\<rparr>, p))
        (with_hist h (gain (KValue, p) (alloc_cell (KValue, p) w)))"
  shows "wp (alloc_value e) Q w"
proof -
  have "Q (Inl e) w" for e using assms(2) [of e "hist w"] by simp
  then show ?thesis
    unfolding alloc_value_def using assms
    by (auto simp: wp_rules intro!: wp_intros wp_with_eval split: option.split sum.split)
qed

lemma wp_wrap_value:
  assumes "ptr_at KState (ev_id e) w = None \<Longrightarrow> Q (Inl ErrClosed) w"
    "Q (Inr \<lparr>val_id = next_ref w, val_ctx = ev_ctx e, val_owner = e\<rparr>) (alloc_cell (KValue, p) w)"
  shows "wp (wrap_value e p) Q w"
  unfolding wrap_value_def using assms by (auto simp: wp_rules split: option.split)

lemma wp_validate_value:
  assumes "safe w" "\<And>e. Q (Inl e) w"
    "\<And>p u. v = Some u \<Longrightarrow> cells w (val_id u) = Some (KValue, p) \<Longrightarrow> (KValue, p) \<in># live w \<Longrightarrow>
      ev_id (val_owner u) = ev_id e \<Longrightarrow> Q (Inr p) w"
  shows "wp (validate_value e v) Q w"
  unfolding validate_value_def using assms
  by (auto simp: wp_rules ptr_at_Some safe_cell_live split: option.split)

lemma wp_value_validate:
  assumes "safe w" "Q (Inl ErrClosed) w"
    "\<And>p sp. cells w (val_id v) = Some (KValue, p) \<Longrightarrow> (KValue, p) \<in># live w \<Longrightarrow>
      cells w (ev_id (val_owner v)) = Some (KState, sp) \<Longrightarrow> Q (Inr p) w"
  shows "wp (value_validate v) Q w"
  unfolding value_validate_def using assms
  by (auto simp: wp_rules ptr_at_Some safe_cell_live split: option.split)

lemma wp_with_value:
  assumes "safe w" "Q (Inl ErrClosed) w"
    "\<And>e. Q (Inl (wrapf ''eval: failed to borrow context: %w'' [] e)) w"
    "\<And>raw_ctx p. cells w (val_id v) = Some (KValue, p) \<Longrightarrow> (KValue, p) \<in># live w \<Longrightarrow>
      (KContext, raw_ctx) \<in># live w \<Longrightarrow> wp (k raw_ctx p) Q w"
  shows "wp (with_value v k) Q w"
  unfolding with_value_def using assms
  by (auto simp: wp_rules intro!: wp_value_validate wp_intros split: sum.split)

text \<open>Closing a value: nothing happens to a closed one; with its context closed it stays as it is;
  otherwise its reference is given back.\<close>

lemma wp_value_close:
  assumes "safe w" "ptr_at KValue (val_id v) w = None \<Longrightarrow> Q (Inr ()) w"
    "\<And>e. ptr_at KContext (ctx_id (val_ctx v)) w = None \<Longrightarrow>
      Q (Inl (wrapf ''eval: failed to borrow context: %w'' [] e)) w"
    "\<And>p r h. cells w (val_id v) = Some (KValue, p) \<Longrightarrow> (KValue, p) \<in># live w \<Longrightarrow>
      Q r (with_hist h (clear_cell (val_id v) (drop_handle (KValue, p) w)))"
  shows "wp (value_close v) Q w"
  unfolding value_close_def using assms
  by (auto simp: wp_rules ptr_at_Some safe_cell_live
      intro!: wp_raw_code_free ctx.wp_borrow wp_fail_status split: option.split sum.split)

lemmas [wp_intros] = wp_with_eval wp_alloc_value wp_wrap_value wp_validate_value wp_value_validate
  wp_with_value wp_value_close

text \<open>A value that was just allocated can always be closed: its context was borrowed before.\<close>

lemma wp_value_close_fresh:
  assumes "safe w0" "grows w0 w" "next_ref w0 \<le> val_id v" "cells w (val_id v) = Some (KValue, p)"
    "ptr_at KContext (ctx_id (val_ctx v)) w \<noteq> None" "\<And>r w'. grows w0 w' \<Longrightarrow> Q r w'"
  shows "wp (value_close v) Q w"
proof (rule wp_value_close)
  show "safe w" using assms by (simp add: grows_safe)
next
  fix q r h assume "cells w (val_id v) = Some (KValue, q)"
  then have "grows w0 (clear_cell (val_id v) (drop_handle (KValue, q) w))"
    using assms by (intro grows_close_fresh)
  then show "Q r (with_hist h (clear_cell (val_id v) (drop_handle (KValue, q) w)))"
    by (intro assms(6)) simp
qed (use assms in \<open>simp_all add: ptr_at_cell\<close>)

end
