(* ===== verification/Realised_String.thy ===== *)
theory Realised_String
  imports Evaluator Store_Closure
begin

text \<open>
  \<^verbatim>\<open>eval/realised_string.go\<close>: strings realised with the store paths they refer to. As in
  the conversion of closures, a path that cannot be wrapped is left behind; the outcome lemma says
  that this is the only way to leave a handle behind, and that it is exactly one.
\<close>

record realised_string =
  rs_value :: string
  rs_paths :: "path_ref list"

definition realised_close :: "realised_string \<Rightarrow> (realised_string \<times> unit res) io" where
  "realised_close r =
     (if rs_paths r = [] then State_Monad.return (r, Inr ())
      else do {
        errs \<leftarrow> close_paths (rs_paths r) [];
        State_Monad.return (r\<lparr>rs_paths := []\<rparr>,
          if errs \<noteq> [] then Inl (wrapf ''eval: failed to close realised string paths: %w'' [] (Joined errs))
          else Inr ())
      })"

text \<open>The loop over \<^verbatim>\<open>range count\<close>.\<close>

fun realised_paths_loop ::
  "context_ref \<Rightarrow> ptr \<Rightarrow> ptr \<Rightarrow> nat list \<Rightarrow> realised_string \<Rightarrow> realised_string res io" where
  "realised_paths_loop ctx raw_ctx realised [] out = ok out"
| "realised_paths_loop ctx raw_ctx realised (i # is) out = do {
     p \<leftarrow> raw_ptr (V (RealisedStringGetStorePath realised i));
     (case p of
        None \<Rightarrow> do {
          r \<leftarrow> realised_close out;
          fail_status raw_ctx ''eval: failed to clone realised string path %d: %w'' [ANum (int i)]
        }
      | Some p \<Rightarrow>
          attempt (path_new ctx p)
            (\<lambda>e. do {
               r \<leftarrow> realised_close out;
               fail (wrapf ''eval: failed to clone realised string path %d: %w'' [ANum (int i)] e)
             })
            (\<lambda>q. realised_paths_loop ctx raw_ctx realised is (out\<lparr>rs_paths := rs_paths out @ [q]\<rparr>)))
   }"

text \<open>The part between the realisation and the deferred \<^verbatim>\<open>RealisedStringFree\<close>. The string
  answered for the buffer stands for the bytes the buffer holds, of which
  \<^verbatim>\<open>unsafe.Slice\<close> reads the first \<open>size\<close>.\<close>

definition read_realised :: "context_ref \<Rightarrow> ptr \<Rightarrow> ptr \<Rightarrow> realised_string res io" where
  "read_realised ctx raw_ctx realised = do {
     buffer \<leftarrow> raw_str (V (RealisedStringGetBuffer realised));
     (case buffer of
        None \<Rightarrow> fail_status raw_ctx ''eval: failed to get realised string buffer: %w'' []
      | Some value_ptr \<Rightarrow> do {
          size \<leftarrow> raw_size (V (RealisedStringGetBufferSize realised));
          let value = take size (snd value_ptr);
          raw_free (U (StringFree (fst value_ptr)));
          count \<leftarrow> raw_size (V (RealisedStringGetStorePathCount realised));
          realised_paths_loop ctx raw_ctx realised [0..<count] \<lparr>rs_value = value, rs_paths = []\<rparr>
        })
   }"

definition realise_string :: "evaluator_ref \<Rightarrow> value_ref option \<Rightarrow> realised_string res io" where
  "realise_string e v =
     with_eval e (\<lambda>raw_ctx sp.
     chk (validate_value e v) (wrapf ''eval: failed to validate value: %w'' []) (\<lambda>p.
     chk (check_ptr raw_ctx (V (StringRealise raw_ctx sp p False))
         ''eval: failed to realise string: %w'' []) (\<lambda>e. e) (\<lambda>realised. do {
       r \<leftarrow> read_realised (ev_ctx e) raw_ctx realised;
       raw_free (V (RealisedStringFree realised));
       State_Monad.return r
     })))"

section \<open>Ledger\<close>

lemma wp_realised_close:
  assumes "leaves L w0 w" "fresh_paths w0 (rs_paths r) w"
    "\<And>r' w'. leaves L w0 w' \<Longrightarrow> Q (r', Inr ()) w'"
  shows "wp (realised_close r) Q w"
  unfolding realised_close_def using assms by (auto simp: wp_rules intro!: wp_close_paths)

text \<open>Both failures of an item carry the same message: whether a handle was left behind cannot be
  told from it.\<close>

definition maybe_leak :: "world \<Rightarrow> world \<Rightarrow> bool" where
  "maybe_leak w w' \<longleftrightarrow> leaves {#} w w' \<or> (\<exists>p. leaves {#(KStorePath, p)#} w w')"

lemma maybe_leak_simps [simp]:
  "safe w \<Longrightarrow> maybe_leak w w"
  "maybe_leak (with_hist h w) w' = maybe_leak w w'" "maybe_leak w (with_hist h w') = maybe_leak w w'"
  by (simp_all add: maybe_leak_def)

lemma maybe_leakI:
  "leaves {#} w w' \<Longrightarrow> maybe_leak w w'" "leaves {#(KStorePath, p)#} w w' \<Longrightarrow> maybe_leak w w'"
  by (auto simp: maybe_leak_def)

lemma wp_realised_paths_loop:
  assumes "safe w0" "(KRealisedString, realised) \<in># live w0"
    "cells w0 (ctx_id ctx) = Some (KContext, raw_ctx)"
    "leaves {#} w0 w" "fresh_paths w0 (rs_paths out) w"
    "\<And>r w. leaves {#} w0 w \<Longrightarrow> fresh_paths w0 (rs_paths r) w \<Longrightarrow> Q (Inr r) w"
    "\<And>e w. maybe_leak w0 w \<Longrightarrow> Q (Inl e) w"
  shows "wp (realised_paths_loop ctx raw_ctx realised is out) Q w"
  using assms(4,5)
proof (induction "is" arbitrary: out w)
  case Nil
  then show ?case using assms(6) by (simp add: wp_rules)
next
  case (Cons i "is")
  have safe: "safe w" and arr: "(KRealisedString, realised) \<in># live w"
    and ctx: "cells w (ctx_id ctx) = Some (KContext, raw_ctx)"
    using Cons.prems(1) assms(1-3) by (auto intro: leaves_safe leaves_live leaves_cell)
  then have raw_ctx: "(KContext, raw_ctx) \<in># live w" by (simp add: safe_cell_live)
  have close: "wp (realised_close out) (\<lambda>r w'. wp (fail_status raw_ctx fmt args) Q w') (with_hist h w)"
    for h fmt args
  proof (rule wp_realised_close)
    fix r' w' assume "leaves {#} w0 w'"
    moreover from this assms have "(KContext, raw_ctx) \<in># live w'"
      by (auto intro: leaves_live safe_cell_live)
    ultimately show "wp (fail_status raw_ctx fmt args) Q w'"
      by (auto simp: leaves_safe maybe_leakI intro!: wp_fail_status assms(7))
  qed (use Cons.prems in simp_all)
  have leak: "wp (realised_close out) (\<lambda>r w'. Q (Inl (wrapf
      ''eval: failed to clone realised string path %d: %w'' [ANum (int i)] e)) w')
      (with_hist h (gain (KStorePath, p) w))" for e h p
    using Cons.prems leaves_gain [OF Cons.prems(1), of "(KStorePath, p)"]
    by (intro wp_realised_close assms(7)) (auto intro: maybe_leakI)
  have step: "wp (realised_paths_loop ctx raw_ctx realised is (out\<lparr>rs_paths := rs_paths out @ [q]\<rparr>)) Q
      (with_hist h (gain (KStorePath, p) (alloc_cell (KStorePath, p) w)))"
    if "path_id q = next_ref w" for q h p
    using Cons.prems that safe by (intro Cons.IH) (auto simp: leaves_gain_alloc fresh_paths_snoc)
  show ?case
    using safe arr raw_ctx close leak step
    by (auto simp: wp_rules intro!: wp_intros wp_path_new split: option.split sum.split)
qed

text \<open>What \<^verbatim>\<open>RealiseString\<close> leaves: on success new open paths and nothing else; on failure
  nothing, or one store path.\<close>

definition realised_outcome :: "world \<Rightarrow> realised_string res \<Rightarrow> world \<Rightarrow> bool" where
  "realised_outcome w r w' \<longleftrightarrow>
     (case r of
        Inr rs \<Rightarrow> leaves {#} w w' \<and> fresh_paths w (rs_paths rs) w'
      | Inl e \<Rightarrow> maybe_leak w w')"

lemma wp_read_realised:
  assumes "safe w0" "w = with_hist h (gain (KRealisedString, realised) w0)"
    "cells w0 (ctx_id ctx) = Some (KContext, raw_ctx)"
    "\<And>r w'. realised_outcome w0 r (drop_handle (KRealisedString, realised) w') \<Longrightarrow>
      (KRealisedString, realised) \<in># live w' \<Longrightarrow> safe w' \<Longrightarrow> Q r w'"
  shows "wp (read_realised ctx raw_ctx realised) Q w"
proof -
  let ?g = "gain (KRealisedString, realised) w0"
  have good: "Q (Inr r) w'" if "leaves {#} ?g w'" "fresh_paths ?g (rs_paths r) w'" for r w'
    using that assms(1) by (intro assms(4))
      (auto simp: realised_outcome_def leaves_from_gain_drop leaves_held leaves_safe)
  have bad: "Q (Inl e) w'" if "maybe_leak ?g w'" for e w'
    using that assms(1) by (intro assms(4))
      (auto simp: realised_outcome_def maybe_leak_def leaves_held leaves_safe
        intro: leaves_from_gain_drop)
  have here: "Q (Inl e) (with_hist h' ?g)" for e h'
    using assms(1) by (intro bad) simp
  have "(KContext, raw_ctx) \<in># live w0" using assms(1,3) by (rule safe_cell_live)
  then show ?thesis
    unfolding read_realised_def assms(2) Let_def
    using assms(1,3) here
    by (auto simp: wp_rules intro!: wp_intros wp_realised_paths_loop [where ?w0.0 = ?g] good bad
        split: option.split)
qed

lemma realise_string_outcome: "safe w \<Longrightarrow> wp (realise_string e v) (realised_outcome w) w"
proof -
  assume safe: "safe w"
  have out: "realised_outcome w (Inl e) (with_hist h w)" for e h
    using safe by (simp add: realised_outcome_def)
  have out': "realised_outcome w (Inl e) w" for e
    using out [of e "hist w"] by simp
  have cong: "realised_outcome w r (with_hist h w') = realised_outcome w r w'" for r h w'
    by (simp add: realised_outcome_def split: sum.split)
  show ?thesis
    unfolding realise_string_def
    using safe out out' cong
    by (auto simp: wp_rules intro!: wp_intros wp_read_realised split: sum.split)
qed

end
