(* ===== verification/Value_Getters.thy ===== *)
theory Value_Getters
  imports Evaluator
begin

text \<open>
  The getters of \<^verbatim>\<open>eval/value.go\<close>. All typed getters share one contract, the locale
  \<open>getter\<close>: nothing is read from a value whose type is not the expected one.
\<close>

definition value_type_string :: "value_type \<Rightarrow> string" where
  "value_type_string vt =
     (if vt = ValueTypeThunk then ''thunk''
      else if vt = ValueTypeInt then ''int''
      else if vt = ValueTypeFloat then ''float''
      else if vt = ValueTypeBool then ''bool''
      else if vt = ValueTypeString then ''string''
      else if vt = ValueTypePath then ''path''
      else if vt = ValueTypeNull then ''null''
      else if vt = ValueTypeAttrs then ''attrs''
      else if vt = ValueTypeList then ''list''
      else if vt = ValueTypeFunction then ''function''
      else if vt = ValueTypeExternal then ''external''
      else if vt = ValueTypeFailed then ''failed''
      else '''')"

definition get_type :: "value_ref \<Rightarrow> value_type res io" where
  "get_type v =
     with_value v (\<lambda>raw_ctx p. do {
       typ \<leftarrow> raw_code (V (GetType raw_ctx p));
       chk (check_pending raw_ctx ''eval: failed to get value type: %w'' []) (\<lambda>e. e) (\<lambda>_. ok typ)
     })"

definition type_name :: "value_ref \<Rightarrow> string res io" where
  "type_name v =
     with_value v (\<lambda>raw_ctx p.
     chk (check_str raw_ctx (V (GetTypename raw_ctx p)) ''eval: failed to get value type name: %w'' [])
       (\<lambda>e. e) (\<lambda>s. do { x \<leftarrow> take_cstring (Some s); ok x }))"

definition require_type :: "ptr \<Rightarrow> ptr \<Rightarrow> value_type \<Rightarrow> unit res io" where
  "require_type raw_ctx p expected = do {
     actual \<leftarrow> raw_code (V (GetType raw_ctx p));
     chk (check_pending raw_ctx ''eval: failed to get value type: %w'' []) (\<lambda>e. e) (\<lambda>_.
     if actual \<noteq> expected then fail (ValueTypeErr actual expected) else ok ())
   }"

definition get_bool :: "value_ref \<Rightarrow> bool res io" where
  "get_bool v =
     with_value v (\<lambda>raw_ctx p.
     chk (require_type raw_ctx p ValueTypeBool) (\<lambda>e. e) (\<lambda>_. do {
       got \<leftarrow> raw_bool (V (GetBool raw_ctx p));
       chk (check_pending raw_ctx ''eval: failed to get bool: %w'' []) (\<lambda>e. e) (\<lambda>_. ok got)
     }))"

definition get_int :: "value_ref \<Rightarrow> 64 word res io" where
  "get_int v =
     with_value v (\<lambda>raw_ctx p.
     chk (require_type raw_ctx p ValueTypeInt) (\<lambda>e. e) (\<lambda>_. do {
       got \<leftarrow> raw_64 (V (GetInt raw_ctx p));
       chk (check_pending raw_ctx ''eval: failed to get int: %w'' []) (\<lambda>e. e) (\<lambda>_. ok got)
     }))"

text \<open>A float is its 64 bits.\<close>

definition get_float :: "value_ref \<Rightarrow> 64 word res io" where
  "get_float v =
     with_value v (\<lambda>raw_ctx p.
     chk (require_type raw_ctx p ValueTypeFloat) (\<lambda>e. e) (\<lambda>_. do {
       got \<leftarrow> raw_64 (V (GetFloat raw_ctx p));
       chk (check_pending raw_ctx ''eval: failed to get float: %w'' []) (\<lambda>e. e) (\<lambda>_. ok got)
     }))"

definition get_string :: "value_ref \<Rightarrow> string res io" where
  "get_string v =
     with_value v (\<lambda>raw_ctx p.
     chk (require_type raw_ctx p ValueTypeString) (\<lambda>e. e) (\<lambda>_.
     chk (check_str raw_ctx (V (GetString raw_ctx p)) ''eval: failed to get string: %w'' [])
       (\<lambda>e. e) (\<lambda>s. do { x \<leftarrow> take_cstring (Some s); ok x })))"

definition get_path_string :: "value_ref \<Rightarrow> string res io" where
  "get_path_string v =
     with_value v (\<lambda>raw_ctx p.
     chk (require_type raw_ctx p ValueTypePath) (\<lambda>e. e) (\<lambda>_.
     chk (check_str raw_ctx (V (GetPathString raw_ctx p)) ''eval: failed to get path string: %w'' [])
       (\<lambda>e. e) (\<lambda>s. do { x \<leftarrow> take_cstring (Some s); ok x })))"

definition list_len :: "value_ref \<Rightarrow> 32 word res io" where
  "list_len v =
     with_value v (\<lambda>raw_ctx p.
     chk (require_type raw_ctx p ValueTypeList) (\<lambda>e. e) (\<lambda>_. do {
       got \<leftarrow> raw_u32 (V (GetListSize raw_ctx p));
       chk (check_pending raw_ctx ''eval: failed to get list size: %w'' []) (\<lambda>e. e) (\<lambda>_. ok got)
     }))"

definition attr_len :: "value_ref \<Rightarrow> 32 word res io" where
  "attr_len v =
     with_value v (\<lambda>raw_ctx p.
     chk (require_type raw_ctx p ValueTypeAttrs) (\<lambda>e. e) (\<lambda>_. do {
       got \<leftarrow> raw_u32 (V (GetAttrsSize raw_ctx p));
       chk (check_pending raw_ctx ''eval: failed to get attrs size: %w'' []) (\<lambda>e. e) (\<lambda>_. ok got)
     }))"

section \<open>The contract\<close>

text \<open>A step is quiet when it leaves ledger and wrappers as they are.\<close>

definition same :: "world \<Rightarrow> world \<Rightarrow> bool" where
  "same w w' \<longleftrightarrow> (\<exists>h. w' = with_hist h w)"

lemma same_simps [simp]: "same w w" "same w (with_hist h w)"
  unfolding same_def by (metis with_hist_self, blast)

definition quiet :: "'a io \<Rightarrow> world \<Rightarrow> bool" where
  "quiet m w \<longleftrightarrow> wp m (\<lambda>r. same w) w"

lemma wp_quiet_step: "quiet m w \<Longrightarrow> (\<And>r h. Q r (with_hist h w)) \<Longrightarrow> wp m Q w"
  unfolding quiet_def by (elim wp_mono) (auto simp: same_def)

lemma wp_require_type:
  assumes "ready w [(KContext, raw_ctx), (KValue, p)]" "\<And>e h. Q (Inl e) (with_hist h w)"
    "\<And>h. ans_code (nix w) (hist w) (V (GetType raw_ctx p)) = expected \<Longrightarrow> Q (Inr ()) (with_hist h w)"
  shows "wp (require_type raw_ctx p expected) Q w"
  unfolding require_type_def
  using assms
  by (auto simp: wp_rules wp_raw tick_ready intro!: wp_check_pending split: sum.split)

locale getter =
  fixes expected :: value_type
    and get :: "value_ref \<Rightarrow> 'a res io"
    and read :: "ptr \<Rightarrow> ptr \<Rightarrow> 'a res io"
  assumes get_eq: "get v = with_value v (\<lambda>raw_ctx p.
      chk (require_type raw_ctx p expected) (\<lambda>e. e) (\<lambda>_. read raw_ctx p))"
    and read_quiet: "ready w [(KContext, c), (KValue, p)] \<Longrightarrow> quiet (read c p) w"
begin

lemma get_quiet: "safe w \<Longrightarrow> quiet (get v) w"
proof -
  assume "safe w"
  then show "quiet (get v) w"
    unfolding get_eq quiet_def
    by (auto simp: wp_rules intro!: wp_with_value wp_require_type wp_quiet_step [OF read_quiet]
        split: sum.split)
qed

text \<open>A closed value, or one whose evaluator is closed, is not looked at.\<close>

lemma get_closed:
  assumes "ptr_at KValue (val_id v) w = None \<or> ptr_at KState (ev_id (val_owner v)) w = None"
  shows "run_state (get v) w = (Inl ErrClosed, w)"
  using assms
  by (auto simp: get_eq with_value_def value_validate_def chk_def attempt_def get_ptr_def fail_def
      split: option.split)

text \<open>No result for a value of another type.\<close>

lemma get_wrong_type:
  assumes "safe w" "cells w (val_id v) = Some (KValue, p)"
    "cells w (ctx_id (val_ctx v)) = Some (KContext, raw_ctx)"
    "ans_code (nix w) (hist w) (V (GetType raw_ctx p)) \<noteq> expected"
  shows "\<exists>e. fst (run_state (get v) w) = Inl e"
proof -
  have "wp (get v) (\<lambda>r w'. \<exists>e. r = Inl e) w"
    unfolding get_eq with_value_def value_validate_def
    using assms
    by (auto simp: wp_rules ptr_at_cell safe_cell_live context_borrow_def
        intro!: wp_require_type split: sum.split option.split)
  then show ?thesis by (auto simp: wp_def split: prod.splits)
qed

end

text \<open>The readers behind the check.\<close>

definition read_checked :: "'a io \<Rightarrow> ptr \<Rightarrow> string \<Rightarrow> 'a res io" where
  "read_checked m raw_ctx fmt = do {
     got \<leftarrow> m;
     chk (check_pending raw_ctx fmt []) (\<lambda>e. e) (\<lambda>_. ok got)
   }"

definition read_str :: "ptr \<Rightarrow> call \<Rightarrow> string \<Rightarrow> string res io" where
  "read_str raw_ctx c fmt =
     chk (check_str raw_ctx c fmt []) (\<lambda>e. e) (\<lambda>s. do { x \<leftarrow> take_cstring (Some s); ok x })"

lemma quiet_read_checked:
  assumes "quiet m w" "ready w [(KContext, c)]"
  shows "quiet (read_checked m c fmt) w"
  unfolding read_checked_def quiet_def
  using assms by (auto simp: wp_rules intro!: wp_quiet_step [of m] wp_check_pending split: sum.split)

lemma quiet_read_str:
  assumes "ready w ((KContext, c) # uses call)" "frees call = None"
  shows "quiet (read_str c call fmt) w"
  unfolding read_str_def quiet_def
  using assms by (auto simp: wp_rules intro!: wp_intros split: sum.split)

lemma quiet_raw:
  assumes "ready w (uses c)" "frees c = None"
  shows "quiet (raw_bool c) w" "quiet (raw_64 c) w" "quiet (raw_u32 c) w" "quiet (raw_code c) w"
  using assms by (auto simp: quiet_def wp_raw tick_ready)

interpretation bool: getter ValueTypeBool get_bool
    "\<lambda>c p. read_checked (raw_bool (V (GetBool c p))) c ''eval: failed to get bool: %w''"
  by unfold_locales (auto simp: get_bool_def read_checked_def [abs_def]
      intro!: quiet_read_checked [unfolded read_checked_def] quiet_raw)

interpretation int: getter ValueTypeInt get_int
    "\<lambda>c p. read_checked (raw_64 (V (GetInt c p))) c ''eval: failed to get int: %w''"
  by unfold_locales (auto simp: get_int_def read_checked_def [abs_def]
      intro!: quiet_read_checked [unfolded read_checked_def] quiet_raw)

interpretation float: getter ValueTypeFloat get_float
    "\<lambda>c p. read_checked (raw_64 (V (GetFloat c p))) c ''eval: failed to get float: %w''"
  by unfold_locales (auto simp: get_float_def read_checked_def [abs_def]
      intro!: quiet_read_checked [unfolded read_checked_def] quiet_raw)

interpretation str: getter ValueTypeString get_string
    "\<lambda>c p. read_str c (V (GetString c p)) ''eval: failed to get string: %w''"
  by unfold_locales (auto simp: get_string_def read_str_def [abs_def]
      intro!: quiet_read_str [unfolded read_str_def])

interpretation pstr: getter ValueTypePath get_path_string
    "\<lambda>c p. read_str c (V (GetPathString c p)) ''eval: failed to get path string: %w''"
  by unfold_locales (auto simp: get_path_string_def read_str_def [abs_def]
      intro!: quiet_read_str [unfolded read_str_def])

interpretation llen: getter ValueTypeList list_len
    "\<lambda>c p. read_checked (raw_u32 (V (GetListSize c p))) c ''eval: failed to get list size: %w''"
  by unfold_locales (auto simp: list_len_def read_checked_def [abs_def]
      intro!: quiet_read_checked [unfolded read_checked_def] quiet_raw)

interpretation alen: getter ValueTypeAttrs attr_len
    "\<lambda>c p. read_checked (raw_u32 (V (GetAttrsSize c p))) c ''eval: failed to get attrs size: %w''"
  by unfold_locales (auto simp: attr_len_def read_checked_def [abs_def]
      intro!: quiet_read_checked [unfolded read_checked_def] quiet_raw)

lemmas getters_quiet = bool.get_quiet int.get_quiet float.get_quiet str.get_quiet pstr.get_quiet
  llen.get_quiet alen.get_quiet

lemma get_type_quiet: "safe w \<Longrightarrow> quiet (get_type v) w" "safe w \<Longrightarrow> quiet (type_name v) w"
  unfolding get_type_def type_name_def quiet_def
  by (auto simp: wp_rules intro!: wp_intros split: sum.split)

end
