(* ===== verification/Eval_Ops.thy ===== *)
theory Eval_Ops
  imports Value_Getters
begin

text \<open>
  \<^verbatim>\<open>eval/ops.go\<close>: evaluation, forcing, application and selection. A value passed in is an
  option, since the code checks it for nil.
\<close>

text \<open>\<^verbatim>\<open>value.ptr\<close> of a value that was just allocated is used by a call; on an error the
  value is closed first and the pending error read afterwards.\<close>

definition fill_value :: "ptr \<Rightarrow> value_ref \<Rightarrow> call \<Rightarrow> string \<Rightarrow> value_ref res io" where
  "fill_value raw_ctx v c fmt = do {
     code \<leftarrow> raw_code c;
     (if code \<noteq> ErrorCodeOK then do {
        r \<leftarrow> value_close v;
        fail_status raw_ctx fmt []
      } else ok v)
   }"

definition eval_string :: "evaluator_ref \<Rightarrow> string \<Rightarrow> string \<Rightarrow> value_ref res io" where
  "eval_string e expr path =
     with_eval e (\<lambda>raw_ctx sp.
     chk (alloc_value e) (\<lambda>e. e) (\<lambda>(v, p).
     fill_value raw_ctx v (E (ExprEvalFromString raw_ctx sp expr path p))
       ''eval: failed to evaluate string: %w''))"

text \<open>A \<^verbatim>\<open>GoValue\<close> is a function of the evaluator, its state pointer and the native value to
  initialise.\<close>

type_synonym go_value = "evaluator_ref \<Rightarrow> ptr \<Rightarrow> ptr \<Rightarrow> unit res io"

definition new_value :: "evaluator_ref \<Rightarrow> go_value \<Rightarrow> (value_ref \<times> ptr) res io" where
  "new_value e gv = do {
     s \<leftarrow> get_ptr KState (ev_id e);
     (case s of
        None \<Rightarrow> fail ErrClosed
      | Some sp \<Rightarrow>
          chk (alloc_value e) (\<lambda>e. e) (\<lambda>(v, p).
          attempt (gv e sp p)
            (\<lambda>er. do { r \<leftarrow> value_close v; fail er })
            (\<lambda>_. ok (v, p))))
   }"

definition force :: "evaluator_ref \<Rightarrow> value_ref option \<Rightarrow> unit res io" where
  "force e v =
     with_eval e (\<lambda>raw_ctx sp.
     chk (validate_value e v) (wrapf ''eval: failed to validate value: %w'' []) (\<lambda>p.
     check_code raw_ctx (E (ValueForce raw_ctx sp p)) ''eval: failed to force value: %w'' []))"

definition force_deep :: "evaluator_ref \<Rightarrow> value_ref option \<Rightarrow> unit res io" where
  "force_deep e v =
     with_eval e (\<lambda>raw_ctx sp.
     chk (validate_value e v) (wrapf ''eval: failed to validate value: %w'' []) (\<lambda>p.
     check_code raw_ctx (E (ValueForceDeep raw_ctx sp p)) ''eval: failed to force value deeply: %w'' []))"

definition call_value :: "evaluator_ref \<Rightarrow> value_ref option \<Rightarrow> value_ref option \<Rightarrow> value_ref res io" where
  "call_value e fn arg =
     with_eval e (\<lambda>raw_ctx sp.
     chk (validate_value e fn) (wrapf ''eval: failed to validate function value: %w'' []) (\<lambda>fp.
     chk (validate_value e arg) (wrapf ''eval: failed to validate argument value: %w'' []) (\<lambda>ap.
     chk (alloc_value e) (\<lambda>e. e) (\<lambda>(out, p).
     fill_value raw_ctx out (E (ValueCall raw_ctx sp fp ap p)) ''eval: failed to call function: %w''))))"

fun validate_args :: "evaluator_ref \<Rightarrow> value_ref option list \<Rightarrow> ptr list \<Rightarrow> ptr list res io" where
  "validate_args e [] items = ok items"
| "validate_args e (arg # args) items =
     chk (validate_value e arg) (wrapf ''eval: failed to validate argument value: %w'' []) (\<lambda>p.
       validate_args e args (items @ [p]))"

definition call_multi ::
  "evaluator_ref \<Rightarrow> value_ref option \<Rightarrow> value_ref option list \<Rightarrow> value_ref res io" where
  "call_multi e fn args =
     with_eval e (\<lambda>raw_ctx sp.
     chk (validate_value e fn) (wrapf ''eval: failed to validate function value: %w'' []) (\<lambda>fp.
     chk (validate_args e args []) (\<lambda>e. e) (\<lambda>items.
     chk (alloc_value e) (\<lambda>e. e) (\<lambda>(out, p).
     fill_value raw_ctx out (E (ValueCallMulti raw_ctx sp fp items p))
       ''eval: failed to call function with arguments: %w''))))"

definition index_value :: "evaluator_ref \<Rightarrow> value_ref option \<Rightarrow> 32 word \<Rightarrow> value_ref res io" where
  "index_value e v index =
     with_eval e (\<lambda>raw_ctx sp.
     chk (validate_value e v) (wrapf ''eval: failed to validate value: %w'' []) (\<lambda>p.
     chk (check_ptr raw_ctx (E (GetListByidx raw_ctx p sp index))
         ''eval: failed to get list item %d: %w'' [ANum (uint index)]) (\<lambda>e. e) (\<lambda>child.
     chk (wrap_value e child) (wrapf ''eval: failed to wrap value: %w'' []) ok)))"

definition attr_value :: "evaluator_ref \<Rightarrow> value_ref option \<Rightarrow> string \<Rightarrow> value_ref res io" where
  "attr_value e v name =
     with_eval e (\<lambda>raw_ctx sp.
     chk (validate_value e v) (wrapf ''eval: failed to validate value: %w'' []) (\<lambda>p.
     chk (check_ptr raw_ctx (E (GetAttrByname raw_ctx p sp name))
         ''eval: failed to get attr %q: %w'' [AStr name]) (\<lambda>e. e) (\<lambda>child.
     chk (wrap_value e child) (wrapf ''eval: failed to wrap value: %w'' []) ok)))"

definition attr_lazy :: "evaluator_ref \<Rightarrow> value_ref option \<Rightarrow> string \<Rightarrow> value_ref res io" where
  "attr_lazy e v name =
     with_eval e (\<lambda>raw_ctx sp.
     chk (validate_value e v) (wrapf ''eval: failed to validate value: %w'' []) (\<lambda>p.
     chk (force e v) (wrapf ''eval: failed to force parent value: %w'' []) (\<lambda>_.
     chk (get_type (the v)) (wrapf ''eval: failed to get parent value type: %w'' []) (\<lambda>typ.
     if typ \<noteq> ValueTypeAttrs then fail (ValueTypeErr typ ValueTypeAttrs)
     else
       chk (check_ptr raw_ctx (E (GetAttrBynameLazy raw_ctx p sp name))
           ''eval: failed to get lazy attr %q: %w'' [AStr name]) (\<lambda>e. e) (\<lambda>child.
       attempt (wrap_value e child)
         (\<lambda>er. do {
            code \<leftarrow> raw_code (E (ValueDecref raw_ctx child));
            (if code \<noteq> ErrorCodeOK
             then fail_status raw_ctx ''eval: failed to wrap lazy attr %q and decref value: %w'' [AStr name]
             else fail (wrapf ''eval: failed to wrap lazy attr %q: %w'' [AStr name] er))
          })
         ok)))))"

definition attr_by_index :: "evaluator_ref \<Rightarrow> value_ref option \<Rightarrow> 32 word \<Rightarrow> value_ref res io" where
  "attr_by_index e v index =
     with_eval e (\<lambda>raw_ctx sp.
     chk (validate_value e v) (wrapf ''eval: failed to validate value: %w'' []) (\<lambda>p.
     chk (check_ptr raw_ctx (E (GetAttrByidx raw_ctx p sp index))
         ''eval: failed to get attr by index %d: %w'' [ANum (uint index)]) (\<lambda>e. e) (\<lambda>child.
     chk (wrap_value e child) (wrapf ''eval: failed to wrap value: %w'' []) ok)))"

definition attr_name :: "evaluator_ref \<Rightarrow> value_ref option \<Rightarrow> 32 word \<Rightarrow> string res io" where
  "attr_name e v index =
     with_eval e (\<lambda>raw_ctx sp.
     chk (validate_value e v) (wrapf ''eval: failed to validate value: %w'' []) (\<lambda>p.
     chk (check_str raw_ctx (E (GetAttrNameByidx raw_ctx p sp index))
         ''eval: failed to get attr name by index %d: %w'' [ANum (uint index)]) (\<lambda>e. e) (\<lambda>name. do {
       x \<leftarrow> take_cstring (Some name);
       ok x
     })))"

definition has_attr :: "evaluator_ref \<Rightarrow> value_ref option \<Rightarrow> string \<Rightarrow> bool res io" where
  "has_attr e v name =
     with_eval e (\<lambda>raw_ctx sp.
     chk (validate_value e v) (wrapf ''eval: failed to validate value: %w'' []) (\<lambda>p. do {
       got \<leftarrow> raw_bool (E (HasAttrByname raw_ctx p sp name));
       chk (check_pending raw_ctx ''eval: failed to check attr %q: %w'' [AStr name]) (\<lambda>e. e) (\<lambda>_. ok got)
     }))"

section \<open>Ledger\<close>

lemma wp_fill_value:
  assumes "safe w0" "grows w0 w" "created KValue w0 (val_id v) w"
    "cells w0 (ctx_id (val_ctx v)) = Some (KContext, raw_ctx)"
    "ready w ((KContext, raw_ctx) # uses c)" "frees c = None"
    "\<And>e w'. grows w0 w' \<Longrightarrow> Q (Inl e) w'" "\<And>h. Q (Inr v) (with_hist h w)"
  shows "wp (fill_value raw_ctx v c fmt) Q w"
proof -
  from assms(3) obtain p where v: "next_ref w0 \<le> val_id v" "cells w (val_id v) = Some (KValue, p)"
    by (auto simp: created_def)
  have ctx: "cells w (ctx_id (val_ctx v)) = Some (KContext, raw_ctx)"
    using assms by (auto intro: grows_cell)
  have close: "wp (value_close v) (\<lambda>r w'. wp (fail_status raw_ctx fmt []) Q w') (with_hist h w)" for h
  proof (rule wp_value_close_fresh [OF assms(1)])
    fix r w' assume w': "grows w0 w'"
    then have "(KContext, raw_ctx) \<in># live w'"
      using assms(1,4) by (auto intro: grows_live safe_cell_live)
    then show "wp (fail_status raw_ctx fmt []) Q w'"
      using w' assms(1,7) by (auto simp: grows_safe intro!: wp_fail_status)
  qed (use assms v ctx in \<open>auto simp: ptr_at_cell\<close>)
  show ?thesis
    unfolding fill_value_def using assms close
    by (auto simp: wp_rules intro!: wp_quiet)
qed

lemma eval_string_creates: "safe w \<Longrightarrow> wp (eval_string e x p) (creates KValue val_id w) w"
  unfolding eval_string_def
  by (auto simp: wp_rules intro!: wp_intros wp_fill_value [of w] split: sum.split)

lemma force_grows:
  "safe w \<Longrightarrow> wp (force e v) (\<lambda>r w'. grows w w') w"
  "safe w \<Longrightarrow> wp (force_deep e v) (\<lambda>r w'. grows w w') w"
  unfolding force_def force_deep_def by (auto simp: wp_rules intro!: wp_intros split: sum.split)

lemma quiet_force: "safe w \<Longrightarrow> quiet (force e v) w"
  unfolding force_def quiet_def by (auto simp: wp_rules intro!: wp_intros split: sum.split)

lemma call_value_creates: "safe w \<Longrightarrow> wp (call_value e f a) (creates KValue val_id w) w"
  unfolding call_value_def
  by (auto simp: wp_rules intro!: wp_intros wp_fill_value [of w] split: sum.split)

lemma wp_validate_args:
  assumes "safe w" "\<forall>p \<in> set items. (KValue, p) \<in># live w" "\<And>e. Q (Inl e) w"
    "\<And>items. \<forall>p \<in> set items. (KValue, p) \<in># live w \<Longrightarrow> Q (Inr items) w"
  shows "wp (validate_args e args items) Q w"
  using assms(2)
proof (induction args arbitrary: items)
  case Nil
  then show ?case using assms(4) by (simp add: wp_rules)
next
  case (Cons a args)
  then show ?case
    using assms(1,3) by (auto simp: wp_rules intro!: wp_validate_value)
qed

lemma call_multi_creates: "safe w \<Longrightarrow> wp (call_multi e f as) (creates KValue val_id w) w"
  unfolding call_multi_def
  by (auto simp: wp_rules ready_def
      intro!: wp_with_eval wp_validate_value wp_validate_args wp_alloc_value wp_fill_value [of w]
      split: sum.split)

lemma index_value_creates:
  "safe w \<Longrightarrow> wp (index_value e v i) (creates KValue val_id w) w"
  "safe w \<Longrightarrow> wp (attr_value e v n) (creates KValue val_id w) w"
  "safe w \<Longrightarrow> wp (attr_by_index e v i) (creates KValue val_id w) w"
  unfolding index_value_def attr_value_def attr_by_index_def
  by (auto simp: wp_rules ptr_at_cell intro!: wp_intros split: sum.split)

lemma attr_lazy_creates: "safe w \<Longrightarrow> wp (attr_lazy e v n) (creates KValue val_id w) w"
  unfolding attr_lazy_def
  by (auto simp: wp_rules ptr_at_cell
      intro!: wp_with_eval wp_validate_value wp_quiet_step [OF quiet_force]
        wp_quiet_step [OF get_type_quiet(1)] wp_check_ptr wp_wrap_value split: sum.split)

lemma attr_name_quiet:
  "safe w \<Longrightarrow> quiet (attr_name e v i) w"
  "safe w \<Longrightarrow> quiet (has_attr e v n) w"
  unfolding attr_name_def has_attr_def quiet_def
  by (auto simp: wp_rules intro!: wp_intros split: sum.split)

text \<open>The contract of a \<^verbatim>\<open>GoValue\<close>: it adds nothing to the ledger and closes nothing.\<close>

definition initializes :: "go_value \<Rightarrow> bool" where
  "initializes gv \<longleftrightarrow>
     (\<forall>e sp p w. safe w \<longrightarrow> cells w (ev_id e) = Some (KState, sp) \<longrightarrow> (KValue, p) \<in># live w \<longrightarrow>
        wp (gv e sp p) (\<lambda>r w'. grows w w') w)"

lemma wp_new_value:
  assumes "initializes gv" "safe w" "\<And>e w'. grows w w' \<Longrightarrow> Q (Inl e) w'"
    "\<And>v p w' rc. grows w w' \<Longrightarrow> next_ref w \<le> val_id v \<Longrightarrow> cells w' (val_id v) = Some (KValue, p) \<Longrightarrow>
      val_owner v = e \<Longrightarrow> val_ctx v = ev_ctx e \<Longrightarrow>
      cells w (ctx_id (ev_ctx e)) = Some (KContext, rc) \<Longrightarrow> Q (Inr (v, p)) w'"
  shows "wp (new_value e gv) Q w"
proof -
  have rest: "wp (attempt (gv e sp p) (\<lambda>er. do { r \<leftarrow> value_close v; fail er }) (\<lambda>_. ok (v, p))) Q
      (with_hist h (gain (KValue, p) (alloc_cell (KValue, p) w)))"
    if st: "cells w (ev_id e) = Some (KState, sp)" and ctx: "cells w (ctx_id (ev_ctx e)) = Some (KContext, rc)"
      and v: "v = \<lparr>val_id = next_ref w, val_ctx = ev_ctx e, val_owner = e\<rparr>" for sp p v h rc
  proof -
    let ?w1 = "with_hist h (gain (KValue, p) (alloc_cell (KValue, p) w))"
    have less: "i < next_ref w" if "cells w i = Some x" for i x
      using assms(2) that by (auto intro: cells_bound)
    have safe1: "safe ?w1" using assms(2) by simp
    have st1: "cells ?w1 (ev_id e) = Some (KState, sp)" using st less [OF st] by simp
    then have "wp (gv e sp p) (\<lambda>r w'. grows ?w1 w') ?w1"
      by (rule assms(1) [unfolded initializes_def, rule_format, OF safe1]) simp
    then show ?thesis
      unfolding wp_attempt
    proof (rule wp_mono)
      fix r w' assume g1: "grows ?w1 w'"
      have "grows w ?w1" using assms(2) by simp
      then have g: "grows w w'" using g1 by (rule grows_trans)
      have cell: "cells w' (val_id v) = Some (KValue, p)"
        by (rule grows_cell [OF g1 safe1]) (simp add: v)
      have ctx': "ptr_at KContext (ctx_id (val_ctx v)) w' \<noteq> None"
        using grows_cell [OF g assms(2) ctx] v by (simp add: ptr_at_cell)
      show "case r of Inl er \<Rightarrow> wp (do { r \<leftarrow> value_close v; fail er }) Q w'
          | Inr x \<Rightarrow> wp (ok (v, p)) Q w'"
      proof (cases r)
        case (Inl er)
        have "wp (value_close v) (\<lambda>_. Q (Inl er)) w'"
          using assms(2) g cell ctx' v by (intro wp_value_close_fresh [of w]) (auto intro: assms(3))
        then show ?thesis by (simp add: Inl wp_rules)
      next
        case (Inr x)
        then show ?thesis
          using g cell v ctx by (auto simp: wp_rules intro!: assms(4))
      qed
    qed
  qed
  show ?thesis
    unfolding new_value_def
    using assms(2,3) rest
    by (auto simp: wp_bind wp_get_ptr wp_option wp_chk wp_fail wp_prod ptr_at_Some
        intro!: wp_alloc_value split: option.split sum.split)
qed

end
