(* ===== verification/Builders.thy ===== *)
theory Builders
  imports Eval_Ops
begin

text \<open>
  \<^verbatim>\<open>eval/builders.go\<close>: the functions that make a \<^verbatim>\<open>GoValue\<close>. Every one of them meets the
  contract \<open>initializes\<close>; the composite ones release their builder and their items on every path,
  in the order of Go's deferred calls.
\<close>

definition with_eval_ctx :: "evaluator_ref \<Rightarrow> (ptr \<Rightarrow> 'a res io) \<Rightarrow> 'a res io" where
  "with_eval_ctx e k =
     chk (context_borrow (ev_ctx e)) (wrapf ''eval: failed to borrow context: %w'' []) k"

definition go_null :: go_value where
  "go_null e sp out = with_eval_ctx e (\<lambda>raw_ctx.
     check_code raw_ctx (V (InitNull raw_ctx out)) ''eval: failed to initialize null: %w'' [])"

definition go_bool :: "bool \<Rightarrow> go_value" where
  "go_bool value e sp out = with_eval_ctx e (\<lambda>raw_ctx.
     check_code raw_ctx (V (InitBool raw_ctx out value)) ''eval: failed to initialize bool: %w'' [])"

definition go_int :: "64 word \<Rightarrow> go_value" where
  "go_int value e sp out = with_eval_ctx e (\<lambda>raw_ctx.
     check_code raw_ctx (V (InitInt raw_ctx out value)) ''eval: failed to initialize int: %w'' [])"

definition go_float :: "64 word \<Rightarrow> go_value" where
  "go_float value e sp out = with_eval_ctx e (\<lambda>raw_ctx.
     check_code raw_ctx (V (InitFloat raw_ctx out value)) ''eval: failed to initialize float: %w'' [])"

definition go_string :: "string \<Rightarrow> go_value" where
  "go_string value e sp out = with_eval_ctx e (\<lambda>raw_ctx.
     check_code raw_ctx (V (InitString raw_ctx out value)) ''eval: failed to initialize string: %w'' [])"

definition go_path_string :: "string \<Rightarrow> go_value" where
  "go_path_string value e sp out = with_eval_ctx e (\<lambda>raw_ctx.
     check_code raw_ctx (V (InitPathString raw_ctx sp out value))
       ''eval: failed to initialize path string: %w'' [])"

text \<open>The rest of a function after \<^verbatim>\<open>defer value.Close()\<close>.\<close>

definition defer_value_close :: "value_ref \<Rightarrow> 'a io \<Rightarrow> 'a io" where
  "defer_value_close v m = do { r \<leftarrow> m; x \<leftarrow> value_close v; State_Monad.return r }"

fun list_items :: "evaluator_ref \<Rightarrow> ptr \<Rightarrow> ptr \<Rightarrow> ptr \<Rightarrow> nat \<Rightarrow> go_value list \<Rightarrow> unit res io" where
  "list_items e raw_ctx builder out i [] =
     check_code raw_ctx (V (MakeList raw_ctx builder out)) ''eval: failed to initialize list: %w'' []"
| "list_items e raw_ctx builder out i (item # items) =
     chk (new_value e item) (wrapf ''eval: failed to build list item %d: %w'' [ANum (int i)]) (\<lambda>(v, p).
     defer_value_close v (
       chk (check_code raw_ctx (V (ListBuilderInsert raw_ctx builder (of_nat i) p))
           ''eval: failed to insert list item %d: %w'' [ANum (int i)]) (\<lambda>e. e) (\<lambda>_.
       list_items e raw_ctx builder out (Suc i) items)))"

definition go_list :: "go_value list \<Rightarrow> go_value" where
  "go_list values e sp out = with_eval_ctx e (\<lambda>raw_ctx.
     chk (check_ptr raw_ctx (V (MakeListBuilder raw_ctx sp (length values)))
         ''eval: failed to create list builder: %w'' []) (\<lambda>e. e) (\<lambda>builder. do {
       r \<leftarrow> list_items e raw_ctx builder out 0 values;
       raw_free (V (ListBuilderFree builder));
       State_Monad.return r
     }))"

fun attr_items ::
  "evaluator_ref \<Rightarrow> ptr \<Rightarrow> ptr \<Rightarrow> ptr \<Rightarrow> (string \<times> go_value) list \<Rightarrow> string list \<Rightarrow> unit res io" where
  "attr_items e raw_ctx builder out copied [] =
     check_code raw_ctx (V (MakeAttrs raw_ctx out builder)) ''eval: failed to initialize attrs: %w'' []"
| "attr_items e raw_ctx builder out copied (name # names) =
     chk (new_value e (the (map_of copied name)))
       (wrapf ''eval: failed to build attr %q: %w'' [AStr name]) (\<lambda>(v, p).
     defer_value_close v (
       chk (check_code raw_ctx (V (BindingsBuilderInsert raw_ctx builder name p))
           ''eval: failed to insert attr %q: %w'' [AStr name]) (\<lambda>e. e) (\<lambda>_.
       attr_items e raw_ctx builder out copied names)))"

definition go_attrs :: "(string \<times> go_value) list \<Rightarrow> go_value" where
  "go_attrs values e sp out = with_eval_ctx e (\<lambda>raw_ctx.
     chk (check_ptr raw_ctx (V (MakeBindingsBuilder raw_ctx sp (length values)))
         ''eval: failed to create attrs builder: %w'' []) (\<lambda>e. e) (\<lambda>builder. do {
       r \<leftarrow> attr_items e raw_ctx builder out values (sort_strings (map fst values));
       raw_free (V (BindingsBuilderFree builder));
       State_Monad.return r
     }))"

definition go_apply :: "value_ref option \<Rightarrow> value_ref option \<Rightarrow> go_value" where
  "go_apply fn arg e sp out = with_eval_ctx e (\<lambda>raw_ctx.
     chk (validate_value e fn) (wrapf ''eval: failed to validate function value: %w'' []) (\<lambda>fp.
     chk (validate_value e arg) (wrapf ''eval: failed to validate argument value: %w'' []) (\<lambda>ap.
     check_code raw_ctx (V (InitApply raw_ctx out fp ap)) ''eval: failed to initialize apply: %w'' [])))"

definition go_copy :: "value_ref option \<Rightarrow> go_value" where
  "go_copy src e sp out = with_eval_ctx e (\<lambda>raw_ctx.
     chk (validate_value e src) (wrapf ''eval: failed to validate source value: %w'' []) (\<lambda>p.
     check_code raw_ctx (V (CopyValue raw_ctx out p)) ''eval: failed to copy value: %w'' []))"

section \<open>Ledger\<close>

lemma initializesI:
  assumes "\<And>e sp p w. safe w \<Longrightarrow> cells w (ev_id e) = Some (KState, sp) \<Longrightarrow> (KState, sp) \<in># live w \<Longrightarrow>
    (KValue, p) \<in># live w \<Longrightarrow> wp (gv e sp p) (\<lambda>r w'. grows w w') w"
  shows "initializes gv"
  using assms by (simp add: initializes_def safe_cell_live)

lemma initializes_scalars:
  "initializes go_null" "initializes (go_bool b)" "initializes (go_int i)" "initializes (go_float x)"
  "initializes (go_string s)" "initializes (go_path_string s)"
  "initializes (go_apply f a)" "initializes (go_copy v)"
  by (rule initializesI; auto simp: go_null_def go_bool_def go_int_def go_float_def go_string_def
      go_path_string_def go_apply_def go_copy_def with_eval_ctx_def wp_rules
      intro!: wp_intros split: sum.split)+

text \<open>One item: build it, run the rest with the item held, close it.\<close>

lemma wp_item:
  assumes "initializes gv" "safe w" "\<And>r w'. grows w w' \<Longrightarrow> Q r w'"
    "\<And>v p w'. grows w w' \<Longrightarrow> safe w' \<Longrightarrow> (KValue, p) \<in># live w' \<Longrightarrow> wp (k p) (\<lambda>r w''. grows w' w'') w'"
  shows "wp (chk (new_value e gv) f (\<lambda>(v, p). defer_value_close v (k p))) Q w"
  unfolding wp_chk
proof (rule wp_new_value [OF assms(1,2)], goal_cases)
  case (1 er w')
  then show ?case by (simp add: assms(3))
next
  case (2 v p w' rc)
  then have safe: "safe w'" using assms(2) by (simp add: grows_safe)
  with 2 have "wp (k p) (\<lambda>r w''. grows w' w'') w'"
    by (intro assms(4)) (auto intro: safe_cell_live)
  then have "wp (k p) (\<lambda>r. wp (value_close v) (\<lambda>_. Q r)) w'"
  proof (rule wp_mono)
    fix r w'' assume g: "grows w' w''"
    have ctx: "ptr_at KContext (ctx_id (val_ctx v)) w'' \<noteq> None"
      using grows_cell [OF grows_trans [OF 2(1) g] assms(2)] 2 by (simp add: ptr_at_cell)
    show "wp (value_close v) (\<lambda>_. Q r) w''"
      by (rule wp_value_close_fresh [OF assms(2) grows_trans [OF 2(1) g] 2(2)
          grows_cell [OF g safe 2(3)] ctx assms(3)])
  qed
  then show ?case by (simp add: defer_value_close_def wp_rules)
qed

lemma wp_item_grows:
  assumes "initializes gv" "safe w"
    "\<And>v p w'. grows w w' \<Longrightarrow> safe w' \<Longrightarrow> (KValue, p) \<in># live w' \<Longrightarrow> wp (k p) (\<lambda>r w''. grows w' w'') w'"
  shows "wp (chk (new_value e gv) f (\<lambda>(v, p). defer_value_close v (k p))) (\<lambda>r w'. grows w w') w"
  by (rule wp_item) (use assms in auto)

lemma wp_list_items:
  assumes "\<forall>gv \<in> set items. initializes gv" "safe w"
    "ready w [(KContext, raw_ctx), (KListBuilder, b), (KValue, out)]"
  shows "wp (list_items e raw_ctx b out i items) (\<lambda>r w'. grows w w') w"
  using assms
proof (induction items arbitrary: i w)
  case Nil
  then show ?case by (auto intro!: wp_check_code)
next
  case (Cons gv items)
  show ?case
    unfolding list_items.simps
    by (rule wp_item_grows) (use Cons.prems in \<open>auto simp: wp_rules ready_def intro: grows_live
      intro!: wp_check_code wp_growsI [OF Cons.IH] split: sum.split\<close>)
qed

lemma wp_attr_items:
  assumes items: "\<And>n gv. (n, gv) \<in> set copied \<Longrightarrow> initializes gv"
    and "set names \<subseteq> fst ` set copied" "safe w"
    "ready w [(KContext, raw_ctx), (KBindings, b), (KValue, out)]"
  shows "wp (attr_items e raw_ctx b out copied names) (\<lambda>r w'. grows w w') w"
  using assms(2-)
proof (induction names arbitrary: w)
  case Nil
  then show ?case by (auto intro!: wp_check_code)
next
  case (Cons name names)
  then obtain gv where gv: "map_of copied name = Some gv"
    by (metis insert_subset list.simps(15) map_of_eq_None_iff option.exhaust)
  then have "initializes gv" by (blast dest: map_of_SomeD items)
  then show ?case
    unfolding attr_items.simps gv option.sel
    by (rule wp_item_grows) (use Cons.prems in \<open>auto simp: wp_rules ready_def intro: grows_live
      intro!: wp_check_code wp_growsI [OF Cons.IH] split: sum.split\<close>)
qed

text \<open>A loop run while a builder is held, and the builder's release after it.\<close>

lemma wp_held:
  assumes "wp m (\<lambda>r w'. grows w1 w') w1" "w1 = with_hist h (gain x w)" "safe w" "frees c = Some x"
    "uses c = []" "\<And>r w'. grows w w' \<Longrightarrow> Q r w'"
  shows "wp m (\<lambda>r. wp (raw_free c) (\<lambda>_. Q r)) w1"
  using assms(1)
proof (rule wp_mono)
  fix r w' assume "grows w1 w'"
  then have g: "grows (gain x w) w'" by (simp add: assms(2))
  then have "grows w (drop_handle x w')" using assms(3) by (rule grows_gain_drop)
  moreover have "ready w' [x]"
    using g assms(3) by (auto simp: ready_def grows_safe intro: grows_live)
  ultimately show "wp (raw_free c) (\<lambda>_. Q r) w'"
    using assms(4,5) by (auto intro!: wp_free assms(6))
qed

lemma initializes_list:
  assumes "\<forall>gv \<in> set items. initializes gv"
  shows "initializes (go_list items)"
  by (rule initializesI; auto simp: go_list_def with_eval_ctx_def wp_rules assms
      intro!: wp_intros wp_held [OF wp_list_items] split: sum.split)

lemma initializes_attrs:
  assumes "\<And>n gv. (n, gv) \<in> set values \<Longrightarrow> initializes gv"
  shows "initializes (go_attrs values)"
  by (rule initializesI; auto simp: go_attrs_def with_eval_ctx_def wp_rules 
      intro!: wp_intros wp_held [OF wp_attr_items] intro: assms split: sum.split)

end
