(* ===== verification/Attr_Path.thy ===== *)
theory Attr_Path
  imports Json Go_Error
begin

text \<open>
  The paths such as \<^verbatim>\<open>$.a["b c"][3]\<close> by which \<^verbatim>\<open>eval/unmarshal.go\<close> and
  \<^verbatim>\<open>eval/go_value.go\<close> name a place inside a value, with \<^verbatim>\<open>strconv.Quote\<close>. The
  Unicode tables behind \<^verbatim>\<open>unicode.IsLetter\<close>, \<^verbatim>\<open>IsDigit\<close> and
  \<^verbatim>\<open>strconv.IsPrint\<close> are a parameter from U+0080 on and written out below it.
\<close>

record go_tables =
  wide_letter :: "nat \<Rightarrow> bool"
  wide_digit :: "nat \<Rightarrow> bool"
  wide_print :: "nat \<Rightarrow> bool"
  float_text :: "64 word \<Rightarrow> string"

definition is_letter :: "go_tables \<Rightarrow> nat \<Rightarrow> bool" where
  "is_letter tab r = (if r < 128 then 65 \<le> r \<and> r \<le> 90 \<or> 97 \<le> r \<and> r \<le> 122 else wide_letter tab r)"

definition is_digit :: "go_tables \<Rightarrow> nat \<Rightarrow> bool" where
  "is_digit tab r = (if r < 128 then 48 \<le> r \<and> r \<le> 57 else wide_digit tab r)"

definition is_print :: "go_tables \<Rightarrow> nat \<Rightarrow> bool" where
  "is_print tab r = (if r < 128 then 32 \<le> r \<and> r \<le> 126 else wide_print tab r)"

section \<open>Decoding runes\<close>

text \<open>\<^verbatim>\<open>utf8.DecodeRuneInString\<close> on a non-empty string: the code point and its width,
  U+FFFD of width 1 for a byte that starts no valid rune.\<close>

definition decode_rune :: "string \<Rightarrow> nat \<times> nat" where
  "decode_rune s =
     (let n = rune_length s; cont = (\<lambda>i. of_char (s ! i) mod 64) in
      if n = 1 then (of_char (s ! 0), 1)
      else if n = 2 then (of_char (s ! 0) mod 32 * 64 + cont 1, 2)
      else if n = 3 then ((of_char (s ! 0) mod 16 * 64 + cont 1) * 64 + cont 2, 3)
      else if n = 4 then (((of_char (s ! 0) mod 8 * 64 + cont 1) * 64 + cont 2) * 64 + cont 3, 4)
      else (0xFFFD, 1))"

lemma decode_rune_width: "(r, n) = decode_rune s \<Longrightarrow> 0 < n"
  by (simp add: decode_rune_def Let_def split: if_splits)

text \<open>The runes a \<^verbatim>\<open>range\<close> loop over a string meets.\<close>

function runes :: "string \<Rightarrow> nat list" where
  "runes [] = []"
| "runes (c # s) = (let (r, n) = decode_rune (c # s) in r # runes (drop n (c # s)))"
  by pat_completeness auto
termination
proof (relation "measure length", goal_cases)
  case (2 c s x r n)
  then show ?case using decode_rune_width [of r n "c # s"] by simp
qed simp

declare runes.simps(2) [simp del]

text \<open>\<^verbatim>\<open>isPathIdent\<close>.\<close>

definition is_path_ident :: "go_tables \<Rightarrow> string \<Rightarrow> bool" where
  "is_path_ident tab value =
     (case runes value of
        [] \<Rightarrow> False
      | r # rs \<Rightarrow>
          (r = 95 \<or> is_letter tab r) \<and>
          (\<forall>r \<in> set rs. r = 95 \<or> is_letter tab r \<or> is_digit tab r))"

section \<open>strconv.Quote\<close>

definition hex_digit :: "nat \<Rightarrow> char" where
  "hex_digit n = ''0123456789abcdef'' ! n"

definition hex :: "nat \<Rightarrow> nat \<Rightarrow> string" where
  "hex digits r = map (\<lambda>i. hex_digit (r div 16 ^ i mod 16)) (rev [0..<digits])"

definition backslash :: char where
  "backslash = byte 92"

text \<open>\<^verbatim>\<open>appendEscapedRune\<close> for the rune \<open>r\<close> whose encoding is \<open>enc\<close>.\<close>

definition quote_rune :: "go_tables \<Rightarrow> nat \<Rightarrow> string \<Rightarrow> string" where
  "quote_rune tab r enc =
     (if r = 34 \<or> r = 92 then backslash # enc
      else if is_print tab r then enc
      else if r = 7 then [backslash, CHR ''a'']
      else if r = 8 then [backslash, CHR ''b'']
      else if r = 12 then [backslash, CHR ''f'']
      else if r = 10 then [backslash, CHR ''n'']
      else if r = 13 then [backslash, CHR ''r'']
      else if r = 9 then [backslash, CHR ''t'']
      else if r = 11 then [backslash, CHR ''v'']
      else if r < 32 \<or> r = 127 then [backslash, CHR ''x''] @ hex 2 r
      else if r < 0x10000 then [backslash, CHR ''u''] @ hex 4 r
      else [backslash, CHR ''U''] @ hex 8 r)"

function quote_body :: "go_tables \<Rightarrow> string \<Rightarrow> string" where
  "quote_body tab [] = []"
| "quote_body tab (c # s) =
     (let (r, n) = decode_rune (c # s) in
      (if rune_length (c # s) = 0 then [backslash, CHR ''x''] @ hex 2 (of_char c)
       else quote_rune tab r (take n (c # s))) @
      quote_body tab (drop n (c # s)))"
  by pat_completeness auto
termination
proof (relation "measure (\<lambda>(tab, s). length s)", goal_cases)
  case (2 tab c s x r n)
  then show ?case using decode_rune_width [of r n "c # s"] by simp
qed simp

declare quote_body.simps(2) [simp del]

definition quote :: "go_tables \<Rightarrow> string \<Rightarrow> string" where
  "quote tab s = [byte 34] @ quote_body tab s @ [byte 34]"

section \<open>Paths\<close>

definition attr_path :: "go_tables \<Rightarrow> string \<Rightarrow> string \<Rightarrow> string" where
  "attr_path tab parent attr =
     (if is_path_ident tab attr then parent @ ''.'' @ attr
      else parent @ ''['' @ quote tab attr @ '']'')"

definition index_path :: "string \<Rightarrow> 32 word \<Rightarrow> string" where
  "index_path parent index = parent @ ''['' @ itoa (uint index) @ '']''"

text \<open>An index is told apart from every attribute, and from every other index.\<close>

lemma index_path_inject: "index_path p i = index_path p j \<longleftrightarrow> i = j"
  by (auto simp: index_path_def itoa_inject word_uint_eq_iff)

lemma itoa_hd: "0 \<le> i \<Longrightarrow> \<exists>d t. itoa i = d # t \<and> is_digit_char d"
  using show_nat_digits [of "nat i"] show_nat_nonempty [of "nat i"]
  by (cases "show_nat (nat i)") (auto simp: itoa_def)

lemma index_path_attr: "index_path p i \<noteq> attr_path tab p a"
proof -
  obtain d t where "itoa (uint i) = d # t" "is_digit_char d"
    using itoa_hd [of "uint i"] by auto
  moreover have "\<not> is_digit_char (byte 34)" by (simp add: is_digit_char_def byte_def)
  ultimately show ?thesis by (auto simp: index_path_def attr_path_def quote_def)
qed

end
