(* ===== verification/Go_Value.thy ===== *)
theory Go_Value
  imports Builders Attr_Path
begin

text \<open>
  \<^verbatim>\<open>eval/go_value.go\<close> and \<^verbatim>\<open>EvalWithArgs\<close> of \<^verbatim>\<open>eval/ops.go\<close>: Go
  values converted to Nix values by reflection, and their use as the argument of a function.
\<close>

text \<open>
  A \<^verbatim>\<open>reflect.Value\<close>, by \<^verbatim>\<open>Kind\<close>. \<open>RInt\<close> and \<open>RUint\<close> carry what
  \<^verbatim>\<open>Value.Int\<close> and \<^verbatim>\<open>Value.Uint\<close> return, \<open>RFloat\<close> the bits of
  \<^verbatim>\<open>Value.Float\<close>; the entries of \<open>RMap\<close> come in the order in which \<^verbatim>\<open>MapRange\<close>
  meets them, with the map's key and element types; \<open>ROther\<close> is a value of any other kind.
\<close>

datatype rvalue =
    RBool bool
  | RString string
  | RInt "64 word"
  | RUint "64 word"
  | RFloat "64 word"
  | RSlice "rvalue list"
  | RMap gtype gtype "(string \<times> rvalue) list"
  | RInterface "rvalue option"
  | ROther gtype

fun from_reflect :: "go_tables \<Rightarrow> rvalue \<Rightarrow> string \<Rightarrow> go_value res"
  and from_items :: "go_tables \<Rightarrow> rvalue list \<Rightarrow> nat \<Rightarrow> string \<Rightarrow> go_value list res"
  and from_entries ::
    "go_tables \<Rightarrow> (string \<times> rvalue) list \<Rightarrow> string \<Rightarrow> (string \<times> go_value) list res" where
  "from_reflect tab (RInterface None) path = Inr go_null"
| "from_reflect tab (RInterface (Some v)) path = from_reflect tab v path"
| "from_reflect tab (RBool b) path = Inr (go_bool b)"
| "from_reflect tab (RString s) path = Inr (go_string s)"
| "from_reflect tab (RInt i) path = Inr (go_int i)"
| "from_reflect tab (RUint u) path =
     (if u > 0x7FFFFFFFFFFFFFFF
      then Inl (errorf ''eval: unsigned integer %d overflows Nix integer at %s'' [ANum (uint u), AStr path])
      else Inr (go_int u))"
| "from_reflect tab (RFloat x) path = Inr (go_float x)"
| "from_reflect tab (RSlice vs) path =
     (case from_items tab vs 0 path of Inl e \<Rightarrow> Inl e | Inr items \<Rightarrow> Inr (go_list items))"
| "from_reflect tab (RMap key elem kvs) path =
     (if key \<noteq> GString then Inl (UnsupportedTypeErr (GMap key elem) path)
      else (case from_entries tab kvs path of Inl e \<Rightarrow> Inl e | Inr attrs \<Rightarrow> Inr (go_attrs attrs)))"
| "from_reflect tab (ROther t) path = Inl (UnsupportedTypeErr t path)"
| "from_items tab [] i path = Inr []"
| "from_items tab (v # vs) i path =
     (case from_reflect tab v (index_path path (of_nat i)) of
        Inl e \<Rightarrow> Inl e
      | Inr item \<Rightarrow>
          (case from_items tab vs (Suc i) path of Inl e \<Rightarrow> Inl e | Inr items \<Rightarrow> Inr (item # items)))"
| "from_entries tab [] path = Inr []"
| "from_entries tab ((name, v) # kvs) path =
     (case from_reflect tab v (attr_path tab path name) of
        Inl e \<Rightarrow> Inl e
      | Inr item \<Rightarrow>
          (case from_entries tab kvs path of Inl e \<Rightarrow> Inl e | Inr attrs \<Rightarrow> Inr ((name, item) # attrs)))"

text \<open>\<^verbatim>\<open>goValueFromAny\<close>; nil is \<open>None\<close>.\<close>

definition from_any :: "go_tables \<Rightarrow> rvalue option \<Rightarrow> string \<Rightarrow> go_value res" where
  "from_any tab value path =
     (case value of None \<Rightarrow> Inr go_null | Some v \<Rightarrow> from_reflect tab v path)"

definition eval_with_args ::
  "go_tables \<Rightarrow> evaluator_ref \<Rightarrow> string \<Rightarrow> string \<Rightarrow> rvalue option \<Rightarrow> value_ref res io" where
  "eval_with_args tab e expr path arg =
     chk (eval_string e expr path) (wrapf ''eval: failed to evaluate function: %w'' []) (\<lambda>fn.
     defer_value_close fn
       (case from_any tab arg ''$'' of
          Inl er \<Rightarrow> fail (wrapf ''eval: failed to convert function argument: %w'' [] er)
        | Inr gv \<Rightarrow>
            chk (new_value e gv) (wrapf ''eval: failed to build function argument: %w'' []) (\<lambda>(arg_value, p).
            defer_value_close arg_value
              (chk (call_value e (Some fn) (Some arg_value))
                (wrapf ''eval: failed to call function: %w'' []) ok))))"

section \<open>Which values can be converted\<close>

fun convertible :: "rvalue \<Rightarrow> bool" where
  "convertible (RInterface v) = (case v of None \<Rightarrow> True | Some x \<Rightarrow> convertible x)"
| "convertible (RUint u) = (u \<le> 0x7FFFFFFFFFFFFFFF)"
| "convertible (RSlice vs) = (\<forall>v \<in> set vs. convertible v)"
| "convertible (RMap key elem kvs) = (key = GString \<and> (\<forall>(n, v) \<in> set kvs. convertible v))"
| "convertible (ROther t) = False"
| "convertible _ = True"

lemma from_reflect_convertible:
  "(\<exists>gv. from_reflect tab v path = Inr gv) \<longleftrightarrow> convertible v"
  "(\<exists>items. from_items tab vs i path = Inr items) \<longleftrightarrow> (\<forall>v \<in> set vs. convertible v)"
  "(\<exists>attrs. from_entries tab kvs path = Inr attrs) \<longleftrightarrow> (\<forall>(n, v) \<in> set kvs. convertible v)"
proof (induction tab v path and tab vs i path and tab kvs path
    rule: from_reflect_from_items_from_entries.induct)
qed (auto split: sum.splits)

text \<open>The keys survive the conversion, in the same order.\<close>

lemma from_entries_keys: "from_entries tab kvs path = Inr attrs \<Longrightarrow> map fst attrs = map fst kvs"
  by (induction kvs arbitrary: attrs) (auto split: sum.splits)

section \<open>Ledger\<close>

lemma from_reflect_initializes:
  "from_reflect tab v path = Inr gv \<Longrightarrow> initializes gv"
  "from_items tab vs i path = Inr items \<Longrightarrow> \<forall>gv \<in> set items. initializes gv"
  "from_entries tab kvs path = Inr attrs \<Longrightarrow> \<forall>x \<in> set attrs. initializes (snd x)"
proof (induction tab v path and tab vs i path and tab kvs path arbitrary: gv and items and attrs
    rule: from_reflect_from_items_from_entries.induct)
qed (fastforce simp: initializes_scalars intro!: initializes_list initializes_attrs
    split: sum.splits if_splits)+

lemma from_any_initializes: "from_any tab v path = Inr gv \<Longrightarrow> initializes gv"
  by (auto simp: from_any_def initializes_scalars from_reflect_initializes split: option.splits)

text \<open>Closing a value made since \<open>w0\<close>: with its context closed it stays open, which is allowed.\<close>

lemma wp_value_close_created:
  assumes "safe w0" "grows w0 w" "created KValue w0 (val_id v) w" "\<And>r w'. grows w0 w' \<Longrightarrow> Q r w'"
  shows "wp (value_close v) Q w"
proof (rule wp_value_close)
  show "safe w" using assms by (simp add: grows_safe)
next
  fix q r h assume "cells w (val_id v) = Some (KValue, q)"
  then have "grows w0 (clear_cell (val_id v) (drop_handle (KValue, q) w))"
    using assms by (intro grows_close_fresh) (auto simp: created_def)
  then show "Q r (with_hist h (clear_cell (val_id v) (drop_handle (KValue, q) w)))"
    by (intro assms(4)) simp
qed (use assms in auto)

text \<open>The rest of a function after \<^verbatim>\<open>defer v.Close()\<close>, seen from before \<open>v\<close> was made.\<close>

lemma wp_defer_value_close:
  assumes "safe w0" "grows w0 w" "created KValue w0 (val_id v) w"
    "wp m (\<lambda>r w'. grows w w') w" "\<And>r w'. grows w0 w' \<Longrightarrow> Q r w'"
  shows "wp (defer_value_close v m) Q w"
  unfolding defer_value_close_def wp_bind wp_return
  using assms(4)
proof (rule wp_mono)
  fix r w' assume "grows w w'"
  then show "wp (value_close v) (\<lambda>_. Q r) w'"
    using assms by (intro wp_value_close_created [OF assms(1)])
      (auto intro: grows_trans created_grows simp: grows_safe)
qed

lemma eval_with_args_grows: "safe w \<Longrightarrow> wp (eval_with_args tab e expr path arg) (\<lambda>r w'. grows w w') w"
proof -
  assume safe: "safe w"
  have call: "wp (call_value e f a) (\<lambda>r w'. grows w0 w') w0" if "safe w0" for f a w0
    using call_value_creates [OF that] by (rule wp_mono) (simp add: creates_grows)
  have build: "wp (chk (new_value e gv) (wrapf ''eval: failed to build function argument: %w'' [])
      (\<lambda>(arg_value, p). defer_value_close arg_value (chk (call_value e (Some fn) (Some arg_value))
        (wrapf ''eval: failed to call function: %w'' []) ok))) (\<lambda>r w'. grows w0 w') w0"
    if "safe w0" "initializes gv" for w0 gv fn
    unfolding wp_chk
  proof (rule wp_new_value [OF that(2,1)], goal_cases)
    case (2 v p w' rc)
    have "wp (chk (call_value e (Some fn) (Some v)) f ok) (\<lambda>r w''. grows w' w'') w'" for f
      using 2 that(1) call [of w' "Some fn" "Some v"]
      by (auto simp: wp_rules grows_safe elim!: wp_mono split: sum.split)
    then show ?case
      using that(1) 2 by (auto simp: created_def intro!: wp_defer_value_close)
  qed simp
  show ?thesis
    unfolding eval_with_args_def wp_chk
  proof (rule wp_createsI [OF eval_string_creates [OF safe]], goal_cases)
    case (2 fn w')
    then show ?case
      using safe build [of w']
      by (auto simp: wp_rules grows_safe from_any_initializes intro!: wp_defer_value_close split: sum.split)
  qed simp
qed

end
