(* ===== verification/Unmarshal.thy ===== *)
theory Unmarshal
  imports Eval_Ops Attr_Path
begin

text \<open>
  \<^verbatim>\<open>eval/unmarshal.go\<close>: decoding a Nix value into a Go variable by reflection. The
  target is passed in and the written target returned with the error, so the parts that were
  written before a failure are visible. Go variables are trees: two pointers to one variable inside
  a target are outside the model. \<^verbatim>\<open>CanSet\<close> holds for every target the code reaches
  (the pointee of a pointer, exported fields, elements), so its test is not a branch here.
\<close>

section \<open>Go variables\<close>

datatype gval =
    VBool bool
  | VString string
  | VInt "64 word"
  | VUint "64 word"
  | VFloat "64 word"
  | VFloat32 "32 word"
  | VSlice "gval list option"
  | VArray "gval list"
  | VMap "(string \<times> gval) list option"
  | VStruct "gval list"
  | VPtr "gval option"
  | VOpaque

text \<open>\<^verbatim>\<open>reflect.Zero\<close>.\<close>

fun zero_gval :: "gtype \<Rightarrow> gval" where
  "zero_gval GBool = VBool False"
| "zero_gval GString = VString []"
| "zero_gval (GInt n) = VInt 0"
| "zero_gval (GUint n) = VUint 0"
| "zero_gval (GFloat n) = (if n = 32 then VFloat32 0 else VFloat 0)"
| "zero_gval (GSlice t) = VSlice None"
| "zero_gval (GArray n t) = VArray (replicate n (zero_gval t))"
| "zero_gval (GMap k t) = VMap None"
| "zero_gval (GStruct fs) = VStruct (map (\<lambda>f. zero_gval (snd f)) fs)"
| "zero_gval (GPtr t) = VPtr None"
| "zero_gval GInterface = VOpaque"
| "zero_gval (GOther s) = VOpaque"

text \<open>\<^verbatim>\<open>OverflowInt\<close> and \<^verbatim>\<open>OverflowUint\<close> of a target of \<open>n\<close> bits.\<close>

definition overflow_int :: "nat \<Rightarrow> 64 word \<Rightarrow> bool" where
  "overflow_int n x \<longleftrightarrow> signed_take_bit (n - 1) x \<noteq> x"

definition overflow_uint :: "nat \<Rightarrow> 64 word \<Rightarrow> bool" where
  "overflow_uint n x \<longleftrightarrow> take_bit n x \<noteq> x"

text \<open>\<^verbatim>\<open>OverflowFloat\<close> on the bits of a \<^verbatim>\<open>float64\<close>: for a \<^verbatim>\<open>float32\<close>
  target, the absolute value lies above \<^verbatim>\<open>MaxFloat32\<close> and is finite.\<close>

definition overflow_float :: "nat \<Rightarrow> 64 word \<Rightarrow> bool" where
  "overflow_float n x \<longleftrightarrow>
     n = 32 \<and> 0x47EFFFFFE0000000 < take_bit 63 x \<and> take_bit 63 x \<le> 0x7FEFFFFFFFFFFFFF"

text \<open>The conversion \<^verbatim>\<open>float32(x)\<close>, round to nearest, ties to even, on bit patterns.\<close>

definition float32_of :: "64 word \<Rightarrow> 32 word" where
  "float32_of x =
     (let b = unat x; sign = b div 2 ^ 63; e = b div 2 ^ 52 mod 2 ^ 11; m = b mod 2 ^ 52 in
      if e = 2047 then
        of_nat (sign * 2 ^ 31 + 255 * 2 ^ 23 + (if m = 0 then 0 else 2 ^ 22 + m div 2 ^ 29 mod 2 ^ 22))
      else
        let full = (if e = 0 then m else 2 ^ 52 + m);
            shift = (if 897 \<le> e then 29 else 29 + (897 - max e 1));
            q = full div 2 ^ shift; r = full mod 2 ^ shift; half = 2 ^ (shift - 1);
            q' = (if half < r \<or> r = half \<and> odd q then q + 1 else q)
        in of_nat (sign * 2 ^ 31 + (if 897 \<le> e then (e - 897) * 2 ^ 23 + q' else q')))"

section \<open>Struct tags\<close>

text \<open>\<^verbatim>\<open>fieldAttr\<close>: the attribute name, \<open>None\<close> for a field to skip.\<close>

definition field_attr :: "field_tag \<Rightarrow> string option" where
  "field_attr field =
     (if f_nix field = ''-'' then None
      else let tag = takeWhile (\<lambda>c. c \<noteq> CHR '','') (f_nix field) in
           Some (if tag = [] then f_name field else tag))"

text \<open>\<^verbatim>\<open>strings.Split(s, ",")\<close>.\<close>

fun split_commas :: "string \<Rightarrow> string list" where
  "split_commas [] = [[]]"
| "split_commas (c # s) =
     (case split_commas s of
        [] \<Rightarrow> []
      | x # xs \<Rightarrow> if c = CHR '','' then [] # x # xs else (c # x) # xs)"

text \<open>\<^verbatim>\<open>fieldRequired\<close>; an item trimmed is \<^verbatim>\<open>required\<close> iff that is its only field.\<close>

definition field_required :: "field_tag \<Rightarrow> bool" where
  "field_required field \<longleftrightarrow>
     (\<exists>item \<in> set (split_commas (f_validate field)). split_fields item = [''required''])"

section \<open>Decoding\<close>

type_synonym decoded = "(gval \<times> unit res) io"

definition refuse :: "gval \<Rightarrow> err \<Rightarrow> decoded" where
  "refuse target e = State_Monad.return (target, Inl e)"

definition store :: "gval \<Rightarrow> decoded" where
  "store target = State_Monad.return (target, Inr ())"

definition type_error :: "gval \<Rightarrow> value_type \<Rightarrow> gtype \<Rightarrow> string \<Rightarrow> decoded" where
  "type_error target typ ty path = refuse target (UnmarshalTypeErr (value_type_string typ) ty path)"

definition unmarshal_string :: "value_ref \<Rightarrow> value_type \<Rightarrow> gval \<Rightarrow> gtype \<Rightarrow> string \<Rightarrow> decoded" where
  "unmarshal_string v typ target ty path =
     (if typ = ValueTypeString then
        attempt (get_string v)
          (\<lambda>e. refuse target (wrapf ''eval: failed to get string at %s: %w'' [AStr path] e))
          (\<lambda>got. store (VString got))
      else if typ = ValueTypePath then
        attempt (get_path_string v)
          (\<lambda>e. refuse target (wrapf ''eval: failed to get path string at %s: %w'' [AStr path] e))
          (\<lambda>got. store (VString got))
      else type_error target typ ty path)"

definition unmarshal_bool :: "value_ref \<Rightarrow> value_type \<Rightarrow> gval \<Rightarrow> gtype \<Rightarrow> string \<Rightarrow> decoded" where
  "unmarshal_bool v typ target ty path =
     (if typ \<noteq> ValueTypeBool then type_error target typ ty path
      else
        attempt (get_bool v)
          (\<lambda>e. refuse target (wrapf ''eval: failed to get bool at %s: %w'' [AStr path] e))
          (\<lambda>got. store (VBool got)))"

definition integer_error :: "gval \<Rightarrow> 64 word \<Rightarrow> gtype \<Rightarrow> string \<Rightarrow> decoded" where
  "integer_error target got ty path =
     refuse target (UnmarshalTypeErr (''integer '' @ itoa (sint got)) ty path)"

definition unmarshal_int :: "nat \<Rightarrow> value_ref \<Rightarrow> value_type \<Rightarrow> gval \<Rightarrow> gtype \<Rightarrow> string \<Rightarrow> decoded" where
  "unmarshal_int n v typ target ty path =
     (if typ \<noteq> ValueTypeInt then type_error target typ ty path
      else
        attempt (get_int v)
          (\<lambda>e. refuse target (wrapf ''eval: failed to get int at %s: %w'' [AStr path] e))
          (\<lambda>got. if overflow_int n got then integer_error target got ty path else store (VInt got)))"

definition unmarshal_uint :: "nat \<Rightarrow> value_ref \<Rightarrow> value_type \<Rightarrow> gval \<Rightarrow> gtype \<Rightarrow> string \<Rightarrow> decoded" where
  "unmarshal_uint n v typ target ty path =
     (if typ \<noteq> ValueTypeInt then type_error target typ ty path
      else
        attempt (get_int v)
          (\<lambda>e. refuse target (wrapf ''eval: failed to get int at %s: %w'' [AStr path] e))
          (\<lambda>got. if got <s 0 \<or> overflow_uint n got then integer_error target got ty path
             else store (VUint got)))"

definition unmarshal_float ::
  "go_tables \<Rightarrow> nat \<Rightarrow> value_ref \<Rightarrow> value_type \<Rightarrow> gval \<Rightarrow> gtype \<Rightarrow> string \<Rightarrow> decoded" where
  "unmarshal_float tab n v typ target ty path =
     (if typ \<noteq> ValueTypeFloat then type_error target typ ty path
      else
        attempt (get_float v)
          (\<lambda>e. refuse target (wrapf ''eval: failed to get float at %s: %w'' [AStr path] e))
          (\<lambda>got.
             if overflow_float n got
             then refuse target (UnmarshalTypeErr (''float '' @ float_text tab got) ty path)
             else store (if n = 32 then VFloat32 (float32_of got) else VFloat got)))"

text \<open>The end of a child: close it, and report the failure of that if nothing failed before.\<close>

definition close_child :: "value_ref \<Rightarrow> string \<Rightarrow> fmt_arg list \<Rightarrow> gval \<times> unit res \<Rightarrow> decoded" where
  "close_child child fmt args result = do {
     c \<leftarrow> value_close child;
     State_Monad.return
       (case (c, result) of
          (Inl close_err, (x, Inr _)) \<Rightarrow> (x, Inl (wrapf fmt args close_err))
        | _ \<Rightarrow> result)
   }"

text \<open>The loops over lists and attribute sets, for a decoder of the elements.\<close>

type_synonym decoder = "value_ref \<Rightarrow> gval \<Rightarrow> string \<Rightarrow> decoded"

definition unmarshal_index ::
  "evaluator_ref \<Rightarrow> decoder \<Rightarrow> value_ref \<Rightarrow> gval \<Rightarrow> nat \<Rightarrow> string \<Rightarrow> decoded" where
  "unmarshal_index e dec v target i path =
     attempt (index_value e (Some v) (of_nat i))
       (\<lambda>er. refuse target (wrapf ''eval: failed to get list item %d at %s: %w'' [ANum (int i), AStr path] er))
       (\<lambda>child. do {
          r \<leftarrow> dec child target path;
          close_child child ''eval: failed to close list item %d at %s: %w'' [ANum (int i), AStr path] r
        })"

text \<open>\<open>unmarshal_items\<close> writes the elements in place, first to last.\<close>

fun unmarshal_items ::
  "evaluator_ref \<Rightarrow> decoder \<Rightarrow> value_ref \<Rightarrow> string \<Rightarrow> nat \<Rightarrow> gval list \<Rightarrow> (gval list \<times> unit res) io" where
  "unmarshal_items e dec v path i [] = State_Monad.return ([], Inr ())"
| "unmarshal_items e dec v path i (x # xs) = do {
     r \<leftarrow> unmarshal_index e dec v x i (index_path path (of_nat i));
     (case r of
        (x', Inl er) \<Rightarrow> State_Monad.return (x' # xs, Inl er)
      | (x', Inr _) \<Rightarrow> do {
          r \<leftarrow> unmarshal_items e dec v path (Suc i) xs;
          State_Monad.return (x' # fst r, snd r)
        })
   }"

definition unmarshal_slice ::
  "evaluator_ref \<Rightarrow> decoder \<Rightarrow> gval \<Rightarrow> value_ref \<Rightarrow> value_type \<Rightarrow> gval \<Rightarrow> gtype \<Rightarrow> string \<Rightarrow> decoded" where
  "unmarshal_slice e dec zero v typ target ty path =
     (if typ \<noteq> ValueTypeList then type_error target typ ty path
      else
        attempt (list_len v)
          (\<lambda>er. refuse target (wrapf ''eval: failed to get list size at %s: %w'' [AStr path] er))
          (\<lambda>size. do {
             r \<leftarrow> unmarshal_items e dec v path 0 (replicate (unat size) zero);
             (case r of (items, Inl er) \<Rightarrow> refuse target er | (items, Inr _) \<Rightarrow> store (VSlice (Some items)))
           }))"

definition elements :: "gval \<Rightarrow> gval list" where
  "elements target = (case target of VArray xs \<Rightarrow> xs | _ \<Rightarrow> [])"

definition unmarshal_array ::
  "evaluator_ref \<Rightarrow> decoder \<Rightarrow> nat \<Rightarrow> value_ref \<Rightarrow> value_type \<Rightarrow> gval \<Rightarrow> gtype \<Rightarrow> string \<Rightarrow> decoded" where
  "unmarshal_array e dec n v typ target ty path =
     (if typ \<noteq> ValueTypeList then type_error target typ ty path
      else
        attempt (list_len v)
          (\<lambda>er. refuse target (wrapf ''eval: failed to get list size at %s: %w'' [AStr path] er))
          (\<lambda>size.
             if unat size \<noteq> n
             then refuse target (UnmarshalTypeErr (''list of length '' @ itoa (uint size)) ty path)
             else do {
               r \<leftarrow> unmarshal_items e dec v path 0 (elements target);
               State_Monad.return (VArray (fst r), snd r)
             }))"

fun unmarshal_attrs ::
  "go_tables \<Rightarrow> evaluator_ref \<Rightarrow> decoder \<Rightarrow> gval \<Rightarrow> value_ref \<Rightarrow> string \<Rightarrow> nat list \<Rightarrow>
   (string \<times> gval) list \<Rightarrow> (string \<times> gval) list res io" where
  "unmarshal_attrs tab e dec zero v path [] items = ok items"
| "unmarshal_attrs tab e dec zero v path (i # is) items =
     chk (attr_name e (Some v) (of_nat i))
       (wrapf ''eval: failed to get attr name %d at %s: %w'' [ANum (int i), AStr path]) (\<lambda>name.
     chk (attr_by_index e (Some v) (of_nat i))
       (wrapf ''eval: failed to get attr %q at %s: %w'' [AStr name, AStr path]) (\<lambda>child. do {
       r \<leftarrow> dec child zero (attr_path tab path name);
       r \<leftarrow> close_child child ''eval: failed to close attr %q at %s: %w'' [AStr name, AStr path] r;
       (case r of
          (item, Inl er) \<Rightarrow> fail er
        | (item, Inr _) \<Rightarrow> unmarshal_attrs tab e dec zero v path is (map_set name item items))
     }))"

definition unmarshal_map ::
  "go_tables \<Rightarrow> evaluator_ref \<Rightarrow> decoder \<Rightarrow> gtype \<Rightarrow> gval \<Rightarrow> value_ref \<Rightarrow> value_type \<Rightarrow> gval \<Rightarrow> gtype \<Rightarrow>
   string \<Rightarrow> decoded" where
  "unmarshal_map tab e dec key zero v typ target ty path =
     (if typ \<noteq> ValueTypeAttrs then type_error target typ ty path
      else if key \<noteq> GString then refuse target (UnsupportedTypeErr ty path)
      else
        attempt (attr_len v)
          (\<lambda>er. refuse target (wrapf ''eval: failed to get attrs size at %s: %w'' [AStr path] er))
          (\<lambda>size.
             attempt (unmarshal_attrs tab e dec zero v path [0..<unat size] [])
               (refuse target) (\<lambda>items. store (VMap (Some items)))))"

text \<open>One field of a struct that is neither unexported nor skipped.\<close>

definition unmarshal_field ::
  "go_tables \<Rightarrow> evaluator_ref \<Rightarrow> decoder \<Rightarrow> value_ref \<Rightarrow> field_tag \<Rightarrow> string \<Rightarrow> gval \<Rightarrow> string \<Rightarrow> decoded" where
  "unmarshal_field tab e dec v field attr target path =
     attempt (has_attr e (Some v) attr)
       (\<lambda>er. refuse target (wrapf ''eval: failed to check attr %q at %s: %w'' [AStr attr, AStr path] er))
       (\<lambda>has.
          let field_path = attr_path tab path attr in
          if \<not> has then
            (if field_required field then refuse target (MissingAttrErr attr field_path) else store target)
          else
            attempt (attr_value e (Some v) attr)
              (\<lambda>er. refuse target (wrapf ''eval: failed to get attr %q at %s: %w'' [AStr attr, AStr path] er))
              (\<lambda>child. do {
                 r \<leftarrow> dec child target field_path;
                 close_child child ''eval: failed to close attr %q at %s: %w'' [AStr attr, AStr path] r
               }))"

definition struct_fields :: "gval \<Rightarrow> gval list" where
  "struct_fields target = (case target of VStruct xs \<Rightarrow> xs | _ \<Rightarrow> [])"

definition pointee :: "gtype \<Rightarrow> gval \<Rightarrow> gval" where
  "pointee elem target = (case target of VPtr (Some x) \<Rightarrow> x | _ \<Rightarrow> zero_gval elem)"

text \<open>The opening of \<^verbatim>\<open>unmarshalValue\<close>: force, read the type, handle null.\<close>

definition with_forced ::
  "evaluator_ref \<Rightarrow> gtype \<Rightarrow> value_ref \<Rightarrow> gval \<Rightarrow> string \<Rightarrow> (value_type \<Rightarrow> decoded) \<Rightarrow> decoded" where
  "with_forced e ty v target path k =
     attempt (force e (Some v))
       (\<lambda>er. refuse target (wrapf ''eval: failed to force value at %s: %w'' [AStr path] er)) (\<lambda>_.
     attempt (get_type v)
       (\<lambda>er. refuse target (wrapf ''eval: failed to get value type at %s: %w'' [AStr path] er)) (\<lambda>typ.
     if typ = ValueTypeNull then
       (case ty of GPtr _ \<Rightarrow> store (VPtr None) | _ \<Rightarrow> type_error target typ ty path)
     else k typ))"

fun unmarshal_value ::
  "go_tables \<Rightarrow> evaluator_ref \<Rightarrow> gtype \<Rightarrow> value_ref \<Rightarrow> gval \<Rightarrow> string \<Rightarrow> decoded"
  and unmarshal_fields ::
    "go_tables \<Rightarrow> evaluator_ref \<Rightarrow> (field_tag \<times> gtype) list \<Rightarrow> value_ref \<Rightarrow> gval list \<Rightarrow> string \<Rightarrow>
     (gval list \<times> unit res) io" where
  "unmarshal_value tab e (GPtr elem) v target path =
     with_forced e (GPtr elem) v target path (\<lambda>typ. do {
       r \<leftarrow> unmarshal_value tab e elem v (pointee elem target) path;
       State_Monad.return (VPtr (Some (fst r)), snd r)
     })"
| "unmarshal_value tab e (GStruct fs) v target path =
     with_forced e (GStruct fs) v target path (\<lambda>typ.
       if typ \<noteq> ValueTypeAttrs then type_error target typ (GStruct fs) path
       else do {
         r \<leftarrow> unmarshal_fields tab e fs v (struct_fields target) path;
         State_Monad.return (VStruct (fst r), snd r)
       })"
| "unmarshal_value tab e (GMap key elem) v target path =
     with_forced e (GMap key elem) v target path (\<lambda>typ.
       unmarshal_map tab e (unmarshal_value tab e elem) key (zero_gval elem) v typ target (GMap key elem) path)"
| "unmarshal_value tab e (GSlice elem) v target path =
     with_forced e (GSlice elem) v target path (\<lambda>typ.
       unmarshal_slice e (unmarshal_value tab e elem) (zero_gval elem) v typ target (GSlice elem) path)"
| "unmarshal_value tab e (GArray n elem) v target path =
     with_forced e (GArray n elem) v target path (\<lambda>typ.
       unmarshal_array e (unmarshal_value tab e elem) n v typ target (GArray n elem) path)"
| "unmarshal_value tab e GString v target path =
     with_forced e GString v target path (\<lambda>typ. unmarshal_string v typ target GString path)"
| "unmarshal_value tab e GBool v target path =
     with_forced e GBool v target path (\<lambda>typ. unmarshal_bool v typ target GBool path)"
| "unmarshal_value tab e (GInt n) v target path =
     with_forced e (GInt n) v target path (\<lambda>typ. unmarshal_int n v typ target (GInt n) path)"
| "unmarshal_value tab e (GUint n) v target path =
     with_forced e (GUint n) v target path (\<lambda>typ. unmarshal_uint n v typ target (GUint n) path)"
| "unmarshal_value tab e (GFloat n) v target path =
     with_forced e (GFloat n) v target path (\<lambda>typ. unmarshal_float tab n v typ target (GFloat n) path)"
| "unmarshal_value tab e GInterface v target path =
     with_forced e GInterface v target path (\<lambda>typ. refuse target (UnsupportedTypeErr GInterface path))"
| "unmarshal_value tab e (GOther s) v target path =
     with_forced e (GOther s) v target path (\<lambda>typ. refuse target (UnsupportedTypeErr (GOther s) path))"
| "unmarshal_fields tab e [] v xs path = State_Monad.return (xs, Inr ())"
| "unmarshal_fields tab e (f # fs) v [] path = State_Monad.return ([], Inr ())"
| "unmarshal_fields tab e (f # fs) v (x # xs) path = do {
     r \<leftarrow> (if f_pkgpath (fst f) \<noteq> [] then store x
          else (case field_attr (fst f) of
            None \<Rightarrow> store x
          | Some attr \<Rightarrow> unmarshal_field tab e (unmarshal_value tab e (snd f)) v (fst f) attr x path));
     (case r of
        (x', Inl er) \<Rightarrow> State_Monad.return (x' # xs, Inl er)
      | (x', Inr _) \<Rightarrow> do {
          r \<leftarrow> unmarshal_fields tab e fs v xs path;
          State_Monad.return (x' # fst r, snd r)
        })
   }"

text \<open>The argument \<^verbatim>\<open>out any\<close> of \<^verbatim>\<open>Unmarshal\<close>: nil, not a pointer, a nil pointer,
  or a pointer to a variable.\<close>

datatype out_arg = OutNil | OutValue gtype | OutNilPtr gtype | OutPtr gtype gval

definition unmarshal ::
  "go_tables \<Rightarrow> evaluator_ref \<Rightarrow> value_ref option \<Rightarrow> out_arg \<Rightarrow> (out_arg \<times> unit res) io" where
  "unmarshal tab e v out = do {
     s \<leftarrow> get_ptr KState (ev_id e);
     (case s of
        None \<Rightarrow> State_Monad.return (out, Inl ErrClosed)
      | Some _ \<Rightarrow>
          (case v of
             None \<Rightarrow> State_Monad.return (out, Inl (InvalidUnmarshalErr None))
           | Some u \<Rightarrow>
               attempt (validate_value e v)
                 (\<lambda>er. State_Monad.return (out, Inl (wrapf ''eval: failed to validate value: %w'' [] er)))
                 (\<lambda>_. case out of
                    OutNil \<Rightarrow> State_Monad.return (out, Inl (InvalidUnmarshalErr None))
                  | OutValue ty \<Rightarrow> State_Monad.return (out, Inl (InvalidUnmarshalErr (Some ty)))
                  | OutNilPtr ty \<Rightarrow> State_Monad.return (out, Inl (InvalidUnmarshalErr (Some (GPtr ty))))
                  | OutPtr ty x \<Rightarrow> do {
                      r \<leftarrow> unmarshal_value tab e ty u x ''$'';
                      State_Monad.return (OutPtr ty (fst r), snd r)
                    })))
   }"

end
