(* ===== verification/Unmarshal_Types.thy ===== *)
theory Unmarshal_Types
  imports Unmarshal
begin

text \<open>
  Type safety of \<^verbatim>\<open>Unmarshal\<close>: whatever the native library answers and wherever decoding
  stops, the variable keeps its Go type, and no number is truncated on the way into it.
\<close>

fun has_gtype :: "gtype \<Rightarrow> gval \<Rightarrow> bool"
  and have_gtypes :: "(field_tag \<times> gtype) list \<Rightarrow> gval list \<Rightarrow> bool" where
  "has_gtype GBool x = (\<exists>b. x = VBool b)"
| "has_gtype GString x = (\<exists>s. x = VString s)"
| "has_gtype (GInt n) x = (\<exists>i. x = VInt i \<and> \<not> overflow_int n i)"
| "has_gtype (GUint n) x = (\<exists>i. x = VUint i \<and> \<not> overflow_uint n i)"
| "has_gtype (GFloat n) x = (if n = 32 then \<exists>i. x = VFloat32 i else \<exists>i. x = VFloat i)"
| "has_gtype (GSlice t) x =
     (x = VSlice None \<or> (\<exists>xs. x = VSlice (Some xs) \<and> (\<forall>y \<in> set xs. has_gtype t y)))"
| "has_gtype (GArray n t) x = (\<exists>xs. x = VArray xs \<and> length xs = n \<and> (\<forall>y \<in> set xs. has_gtype t y))"
| "has_gtype (GMap k t) x =
     (x = VMap None \<or> (\<exists>m. x = VMap (Some m) \<and> distinct (map fst m) \<and> (\<forall>y \<in> snd ` set m. has_gtype t y)))"
| "has_gtype (GStruct fs) x = (\<exists>xs. x = VStruct xs \<and> have_gtypes fs xs)"
| "has_gtype (GPtr t) x = (x = VPtr None \<or> (\<exists>y. x = VPtr (Some y) \<and> has_gtype t y))"
| "has_gtype GInterface x = (x = VOpaque)"
| "has_gtype (GOther s) x = (x = VOpaque)"
| "have_gtypes [] xs = (xs = [])"
| "have_gtypes (f # fs) xs = (\<exists>y ys. xs = y # ys \<and> has_gtype (snd f) y \<and> have_gtypes fs ys)"

lemma zero_not_overflow [simp]: "\<not> overflow_int n 0" "\<not> overflow_uint n 0"
  by (simp_all add: overflow_int_def overflow_uint_def)

lemma have_gtypes_map: "(\<And>f. f \<in> set fs \<Longrightarrow> has_gtype (snd f) (g f)) \<Longrightarrow> have_gtypes fs (map g fs)"
  by (induction fs) auto

lemma zero_gval_typed [simp]: "has_gtype t (zero_gval t)"
  by (induction t rule: zero_gval.induct) (auto intro: have_gtypes_map)

lemma map_set_values: "snd ` set (map_set k v m) \<subseteq> insert v (snd ` set m)"
  unfolding map_set_def by (induction m) auto

text \<open>\<open>yields m P\<close>: every result of \<open>m\<close>, from whatever state, satisfies \<open>P\<close>.\<close>

definition yields :: "'a io \<Rightarrow> ('a \<Rightarrow> bool) \<Rightarrow> bool" where
  "yields m P \<longleftrightarrow> (\<forall>w. wp m (\<lambda>r w'. P r) w)"

lemma yields_bind: "yields m P \<Longrightarrow> (\<And>x. P x \<Longrightarrow> yields (f x) Q) \<Longrightarrow> yields (m \<bind> f) Q"
  unfolding yields_def wp_bind by (blast intro: wp_mono)

lemma yields_any: "yields m (\<lambda>_. True)"
  by (simp add: yields_def wp_def split: prod.split)

lemma yields_return: "P x \<Longrightarrow> yields (State_Monad.return x) P"
  by (simp add: yields_def wp_rules)

lemma yields_attempt: "(\<And>e. yields (h e) P) \<Longrightarrow> (\<And>x. yields (k x) P) \<Longrightarrow> yields (attempt m h k) P"
  unfolding attempt_def by (rule yields_bind [OF yields_any]) (simp split: sum.split)

lemma yields_mono: "yields m P \<Longrightarrow> (\<And>x. P x \<Longrightarrow> Q x) \<Longrightarrow> yields m Q"
  unfolding yields_def by (blast intro: wp_mono)

text \<open>A decoder keeps the type \<open>t\<close>.\<close>

definition keeps_type :: "gtype \<Rightarrow> decoded \<Rightarrow> bool" where
  "keeps_type t m \<longleftrightarrow> yields m (\<lambda>r. has_gtype t (fst r))"

lemma keeps_refuse: "has_gtype t x \<Longrightarrow> keeps_type t (refuse x e)"
  and keeps_store: "has_gtype t x \<Longrightarrow> keeps_type t (store x)"
  and keeps_type_error: "has_gtype t x \<Longrightarrow> keeps_type t (type_error x typ ty path)"
  by (simp_all add: keeps_type_def refuse_def store_def type_error_def yields_return)

lemma keeps_attempt:
  "(\<And>e. keeps_type t (h e)) \<Longrightarrow> (\<And>x. keeps_type t (k x)) \<Longrightarrow> keeps_type t (attempt m h k)"
  unfolding keeps_type_def by (rule yields_attempt)

lemmas keeps_intros = keeps_refuse keeps_store keeps_type_error keeps_attempt

lemma keeps_forced:
  "has_gtype t x \<Longrightarrow> (\<And>typ. keeps_type t (k typ)) \<Longrightarrow> keeps_type t (with_forced e t v x path k)"
  unfolding with_forced_def by (auto intro!: keeps_intros split: gtype.split)

lemma keeps_scalars:
  "has_gtype GString x \<Longrightarrow> keeps_type GString (unmarshal_string v typ x ty path)"
  "has_gtype GBool x \<Longrightarrow> keeps_type GBool (unmarshal_bool v typ x ty path)"
  "has_gtype (GInt n) x \<Longrightarrow> keeps_type (GInt n) (unmarshal_int n v typ x ty path)"
  "has_gtype (GUint n) x \<Longrightarrow> keeps_type (GUint n) (unmarshal_uint n v typ x ty path)"
  "has_gtype (GFloat n) x \<Longrightarrow> keeps_type (GFloat n) (unmarshal_float tab n v typ x ty path)"
  unfolding unmarshal_string_def unmarshal_bool_def unmarshal_int_def unmarshal_uint_def
    unmarshal_float_def integer_error_def
  by (auto intro!: keeps_intros)

lemma keeps_close_child:
  "has_gtype t (fst r) \<Longrightarrow> keeps_type t (close_child child fmt args r)"
  unfolding close_child_def keeps_type_def
  by (rule yields_bind [OF yields_any], rule yields_return) (auto split: sum.split prod.split)

text \<open>A child that is decoded and closed.\<close>

lemma keeps_child:
  "keeps_type t m \<Longrightarrow> keeps_type t (do { r \<leftarrow> m; close_child child fmt args r })"
  unfolding keeps_type_def by (erule yields_bind) (rule keeps_close_child [unfolded keeps_type_def])

lemma keeps_index:
  assumes "\<And>v path. keeps_type t (dec v x path)" "has_gtype t x"
  shows "keeps_type t (unmarshal_index e dec v x i path)"
  unfolding unmarshal_index_def using assms by (auto intro!: keeps_intros keeps_child)

lemma yields_items:
  assumes "\<And>v x path. has_gtype t x \<Longrightarrow> keeps_type t (dec v x path)" "\<forall>x \<in> set xs. has_gtype t x"
  shows "yields (unmarshal_items e dec v path i xs)
    (\<lambda>r. length (fst r) = length xs \<and> (\<forall>x \<in> set (fst r). has_gtype t x))"
  using assms(2)
proof (induction xs arbitrary: i)
  case Nil
  then show ?case by (auto intro!: yields_return)
next
  case (Cons x xs)
  then have "keeps_type t (unmarshal_index e dec v x i (index_path path (of_nat i)))"
    by (intro keeps_index assms(1)) auto
  with Cons show ?case
    by (auto simp: keeps_type_def intro!: yields_return yields_bind [where P = "\<lambda>r. has_gtype t (fst r)"]
        yields_bind [OF Cons.IH] split: prod.split sum.split)
qed

lemma yields_attrs:
  assumes "\<And>v x path. has_gtype t x \<Longrightarrow> keeps_type t (dec v x path)" "has_gtype t zero"
    "distinct (map fst items)" "\<forall>x \<in> snd ` set items. has_gtype t x"
  shows "yields (unmarshal_attrs tab e dec zero v path is items)
    (\<lambda>r. \<forall>m. r = Inr m \<longrightarrow> distinct (map fst m) \<and> (\<forall>x \<in> snd ` set m. has_gtype t x))"
  using assms(3,4)
proof (induction "is" arbitrary: items)
  case Nil
  then show ?case by (auto simp: ok_def intro!: yields_return)
next
  case (Cons i "is")
  have set: "\<forall>y \<in> snd ` set (map_set n x items). has_gtype t y" if "has_gtype t x" for n x
    using Cons.prems(2) that map_set_values [of n x items] by blast
  show ?case
    unfolding unmarshal_attrs.simps chk_def fail_def
    using assms(1,2) Cons set
    by (auto simp: keeps_type_def intro!: yields_attempt yields_return
        yields_bind [where P = "\<lambda>r. has_gtype t (fst r)"]
        keeps_close_child [unfolded keeps_type_def] split: prod.split sum.split)
qed

lemma keeps_field:
  assumes "\<And>v x path. has_gtype t x \<Longrightarrow> keeps_type t (dec v x path)" "has_gtype t x"
  shows "keeps_type t (unmarshal_field tab e dec v field attr x path)"
  unfolding unmarshal_field_def Let_def using assms by (auto intro!: keeps_intros keeps_child)

lemma keeps_slice:
  assumes "\<And>v x path. has_gtype t x \<Longrightarrow> keeps_type t (dec v x path)" "has_gtype (GSlice t) x"
    "has_gtype t zero"
  shows "keeps_type (GSlice t) (unmarshal_slice e dec zero v typ x ty path)"
proof -
  have "keeps_type (GSlice t) (do { r \<leftarrow> unmarshal_items e dec v path 0 (replicate n zero);
      (case r of (items, Inl er) \<Rightarrow> refuse x er | (items, Inr _) \<Rightarrow> store (VSlice (Some items))) })" for n
    unfolding keeps_type_def
    by (rule yields_bind [OF yields_items [OF assms(1)]])
      (use assms(2,3) in \<open>auto simp: refuse_def store_def intro!: yields_return split: prod.split sum.split\<close>)
  then show ?thesis
    unfolding unmarshal_slice_def using assms(2) by (auto intro!: keeps_intros)
qed

lemma keeps_array:
  assumes "\<And>v x path. has_gtype t x \<Longrightarrow> keeps_type t (dec v x path)" "has_gtype (GArray n t) x"
  shows "keeps_type (GArray n t) (unmarshal_array e dec n v typ x ty path)"
  unfolding unmarshal_array_def using assms(2)
  by (auto simp: elements_def keeps_type_def [of _ "_ \<bind> _"]
      intro!: keeps_intros yields_bind [OF yields_items [OF assms(1)]] yields_return)

lemma keeps_map:
  assumes "\<And>v x path. has_gtype t x \<Longrightarrow> keeps_type t (dec v x path)" "has_gtype (GMap k t) x"
    "has_gtype t zero"
  shows "keeps_type (GMap k t) (unmarshal_map tab e dec k zero v typ x ty path)"
proof -
  have "keeps_type (GMap k t) (attempt (unmarshal_attrs tab e dec zero v path is [])
      (refuse x) (\<lambda>items. store (VMap (Some items))))" for "is"
    unfolding attempt_def keeps_type_def
    by (rule yields_bind [OF yields_attrs [OF assms(1,3)]])
      (use assms(2) in \<open>auto simp: refuse_def store_def intro!: yields_return split: sum.split\<close>)
  then show ?thesis
    unfolding unmarshal_map_def using assms(2)
    by (auto intro!: keeps_type_error keeps_refuse keeps_attempt [where m = "attr_len v"])
qed

lemma unmarshal_value_typed:
  "has_gtype ty x \<Longrightarrow> keeps_type ty (unmarshal_value tab e ty v x path)"
  "have_gtypes fs xs \<Longrightarrow> yields (unmarshal_fields tab e fs v xs path) (\<lambda>r. have_gtypes fs (fst r))"
proof (induction tab e ty v x path and tab e fs v xs path
    rule: unmarshal_value_unmarshal_fields.induct)
  case (1 tab e elem v target path)
  have "has_gtype elem (pointee elem target)"
    using 1(2) by (auto simp: pointee_def)
  with 1 show ?case
    by (auto simp: keeps_type_def [of _ "_ \<bind> _"] keeps_type_def [of elem]
        intro!: keeps_forced yields_bind [where P = "\<lambda>r. has_gtype elem (fst r)"] yields_return)
next
  case (2 tab e fs v target path)
  then obtain xs where xs: "target = VStruct xs" "have_gtypes fs xs" by auto
  with 2 show ?case
    by (auto simp: struct_fields_def keeps_type_def [of _ "_ \<bind> _"]
        intro!: keeps_forced keeps_type_error yields_bind [where P = "\<lambda>r. have_gtypes fs (fst r)"]
          yields_return)
next
  case (15 tab e f fs v x xs path)
  then show ?case
    by (auto simp: keeps_type_def
        intro!: yields_return yields_bind [where P = "\<lambda>r. has_gtype (snd f) (fst r)"]
          yields_bind [where P = "\<lambda>r. have_gtypes fs (fst r)"]
          keeps_field [unfolded keeps_type_def] keeps_store [unfolded keeps_type_def]
        split: prod.split sum.split option.split)
qed (auto intro!: keeps_forced keeps_slice keeps_array keeps_map keeps_scalars keeps_refuse
    simp: yields_return simp del: has_gtype.simps intro: zero_gval_typed)

end
