(* ===== verification/Unmarshal_Ledger.thy ===== *)
theory Unmarshal_Ledger
  imports Unmarshal
begin

text \<open>
  What decoding does to the ledger: every child value that was taken out of a list or an attribute
  set is given back, on every path, so the handles that are live afterwards are the ones that were
  live before.
\<close>

definition settled :: "world \<Rightarrow> world \<Rightarrow> bool" where
  "settled w w' \<longleftrightarrow> grows w w' \<and> live w' = live w"

lemma settled_simps [simp]:
  "settled w w" "settled w (with_hist h w') = settled w w'" "settled (with_hist h w) w' = settled w w'"
  by (simp_all add: settled_def)

lemma settled_trans: "settled w w' \<Longrightarrow> settled w' w'' \<Longrightarrow> settled w w''"
  by (auto simp: settled_def intro: grows_trans)

lemma settled_safe: "settled w w' \<Longrightarrow> safe w' = safe w"
  by (simp add: settled_def grows_safe)

text \<open>\<open>settles m\<close>: from every sound state \<open>m\<close> ends settled.\<close>

definition settles :: "'a io \<Rightarrow> bool" where
  "settles m \<longleftrightarrow> (\<forall>w. safe w \<longrightarrow> wp m (\<lambda>r w'. settled w w') w)"

lemma settles_from:
  assumes "settles m" "safe w1" "settled w w1" shows "wp m (\<lambda>r w'. settled w w') w1"
proof -
  have "wp m (\<lambda>r w'. settled w1 w') w1" using assms by (simp add: settles_def)
  then show ?thesis by (rule wp_mono) (rule settled_trans [OF assms(3)])
qed

lemma settles_bind:
  assumes "settles m" "\<And>x. settles (f x)" shows "settles (m \<bind> f)"
  unfolding settles_def wp_bind
proof (intro allI impI)
  fix w assume safe: "safe w"
  then have "wp m (\<lambda>r w'. settled w w') w" using assms(1) by (simp add: settles_def)
  then show "wp m (\<lambda>x. wp (f x) (\<lambda>r w'. settled w w')) w"
    by (rule wp_mono) (use safe in \<open>auto simp: settled_safe intro: settles_from assms(2)\<close>)
qed

lemma settles_return: "settles (State_Monad.return x)"
  by (simp add: settles_def wp_rules)

lemma settles_attempt:
  "settles m \<Longrightarrow> (\<And>e. settles (h e)) \<Longrightarrow> (\<And>x. settles (k x)) \<Longrightarrow> settles (attempt m h k)"
  unfolding attempt_def by (rule settles_bind) (simp_all split: sum.split)

lemma settles_quiet: "(\<And>w. safe w \<Longrightarrow> quiet m w) \<Longrightarrow> settles m"
  unfolding settles_def by (auto intro: wp_quiet_step)

lemma settles_refuse: "settles (refuse x e)" "settles (store x)" "settles (type_error x typ ty path)"
  by (simp_all add: refuse_def store_def type_error_def settles_return)

lemma settles_reads:
  "settles (get_bool v)" "settles (get_int v)" "settles (get_float v)" "settles (get_string v)"
  "settles (get_path_string v)" "settles (list_len v)" "settles (attr_len v)" "settles (get_type v)"
  "settles (force e u)" "settles (attr_name e u i)" "settles (has_attr e u n)"
  by (auto intro!: settles_quiet getters_quiet get_type_quiet quiet_force attr_name_quiet)

lemmas settles_intros = settles_refuse settles_return settles_attempt settles_reads

text \<open>A selection makes exactly one new value, in the evaluator's own context.\<close>

definition selects :: "evaluator_ref \<Rightarrow> value_ref res io \<Rightarrow> bool" where
  "selects e m \<longleftrightarrow> (\<forall>w Q. safe w \<longrightarrow> (\<forall>er h. Q (Inl er) (with_hist h w)) \<longrightarrow>
     (\<forall>p h rc. cells w (ctx_id (ev_ctx e)) = Some (KContext, rc) \<longrightarrow>
        Q (Inr \<lparr>val_id = next_ref w, val_ctx = ev_ctx e, val_owner = e\<rparr>)
          (with_hist h (gain (KValue, p) (alloc_cell (KValue, p) w)))) \<longrightarrow> wp m Q w)"

lemma wp_selects:
  assumes "selects e m" "safe w" "\<And>er h. Q (Inl er) (with_hist h w)"
    "\<And>p h rc. cells w (ctx_id (ev_ctx e)) = Some (KContext, rc) \<Longrightarrow>
      Q (Inr \<lparr>val_id = next_ref w, val_ctx = ev_ctx e, val_owner = e\<rparr>)
        (with_hist h (gain (KValue, p) (alloc_cell (KValue, p) w)))"
  shows "wp m Q w"
  using assms(1) [unfolded selects_def, rule_format, OF assms(2), of Q] assms(3,4) by blast

lemma selections:
  "selects e (index_value e v i)" "selects e (attr_value e v n)" "selects e (attr_by_index e v i)"
proof -
  have here: "Q (Inl er) w" if "\<forall>er h. Q (Inl er) (with_hist h w)" for Q :: "value_ref res \<Rightarrow> world \<Rightarrow> bool" and er w
    using that [rule_format, of er "hist w"] by simp
  show "selects e (index_value e v i)" "selects e (attr_value e v n)" "selects e (attr_by_index e v i)"
    unfolding selects_def index_value_def attr_value_def attr_by_index_def
    by (auto simp: wp_rules ptr_at_cell here intro!: wp_intros split: sum.split)
qed

text \<open>Select a child, use it, close it.\<close>

lemma settles_child:
  assumes "selects e m" "\<And>child. settles (f child)" "\<And>er. settles (g er)"
    "\<And>child r. settles (k child r)"
  shows "settles (attempt m g (\<lambda>child. do { r \<leftarrow> f child; r \<leftarrow> close_child child fmt args r; k child r }))"
  unfolding settles_def wp_attempt
proof (intro allI impI)
  fix w assume safe: "safe w"
  have inner: "wp (do { r \<leftarrow> f child; r \<leftarrow> close_child child fmt args r; k child r }) (\<lambda>r w'. settled w w') w1"
    if w1: "w1 = with_hist h (gain (KValue, p) (alloc_cell (KValue, p) w))"
      and child: "child = \<lparr>val_id = next_ref w, val_ctx = ev_ctx e, val_owner = e\<rparr>"
      and ctx: "cells w (ctx_id (ev_ctx e)) = Some (KContext, rc)" for w1 child h p rc
  proof -
    have safe1: "safe w1" and g1: "grows w w1" and live1: "live w1 = add_mset (KValue, p) (live w)"
      using safe by (simp_all add: w1)
    have "wp (f child) (\<lambda>r w'. settled w1 w') w1"
      using assms(2) safe1 by (simp add: settles_def)
    then show ?thesis
      unfolding wp_bind
    proof (rule wp_mono)
      fix r w2 assume "settled w1 w2"
      then have g2: "grows w1 w2" and live2: "live w2 = live w1" by (simp_all add: settled_def)
      have safe2: "safe w2" and g: "grows w w2"
        using safe1 g1 g2 by (auto simp: grows_safe intro: grows_trans)
      have cell: "cells w2 (next_ref w) = Some (KValue, p)"
        by (rule grows_cell [OF g2 safe1]) (simp add: w1)
      have ctx2: "cells w2 (ctx_id (ev_ctx e)) = Some (KContext, rc)"
        using grows_cell [OF g safe ctx] .
      have closed: "settled w (clear_cell (next_ref w) (drop_handle (KValue, p) w2))"
        using grows_close_fresh [OF safe g _ cell] live1 live2 by (simp add: settled_def)
      then have closed_safe: "safe (clear_cell (next_ref w) (drop_handle (KValue, p) w2))"
        using safe by (simp add: settled_safe)
      show "wp (close_child child fmt args r) (\<lambda>x. wp (k child x) (\<lambda>r w'. settled w w')) w2"
        unfolding close_child_def wp_bind wp_return
      proof (rule wp_value_close [OF safe2], goal_cases)
        case 1
        then show ?case using cell by (simp add: child ptr_at_cell)
      next
        case (2 er)
        then show ?case using ctx2 by (simp add: child ptr_at_cell)
      next
        case (3 q c h')
        then have "q = p" using cell by (simp add: child)
        then show ?case
          using closed closed_safe by (auto simp: child intro!: settles_from assms(4))
      qed
    qed
  qed
  show "wp m (\<lambda>r w'. case r of Inl er \<Rightarrow> wp (g er) (\<lambda>r w'. settled w w') w'
      | Inr child \<Rightarrow> wp (do { r \<leftarrow> f child; r \<leftarrow> close_child child fmt args r; k child r })
          (\<lambda>r w'. settled w w') w') w"
  proof (rule wp_selects [OF assms(1) safe], goal_cases)
    case (1 er h)
    then show ?case using safe by (auto intro: settles_from assms(3))
  next
    case (2 p h rc)
    then show ?case using inner [OF refl refl] by simp
  qed
qed

lemma settles_child_end:
  assumes "selects e m" "\<And>child. settles (f child)" "\<And>er. settles (g er)"
  shows "settles (attempt m g (\<lambda>child. do { r \<leftarrow> f child; close_child child fmt args r }))"
  using settles_child [where k = "\<lambda>child r. State_Monad.return r", OF assms settles_return] by simp

section \<open>The decoders\<close>

lemma settles_scalars:
  "settles (unmarshal_string v typ x ty path)" "settles (unmarshal_bool v typ x ty path)"
  "settles (unmarshal_int n v typ x ty path)" "settles (unmarshal_uint n v typ x ty path)"
  "settles (unmarshal_float tab n v typ x ty path)"
  unfolding unmarshal_string_def unmarshal_bool_def unmarshal_int_def unmarshal_uint_def
    unmarshal_float_def integer_error_def
  by (auto intro!: settles_intros)

lemma settles_forced: "(\<And>typ. settles (k typ)) \<Longrightarrow> settles (with_forced e ty v x path k)"
  unfolding with_forced_def by (auto intro!: settles_intros split: gtype.split)

lemma settles_items:
  assumes "\<And>v x path. settles (dec v x path)"
  shows "settles (unmarshal_items e dec v path i xs)"
proof (induction xs arbitrary: i)
  case (Cons x xs)
  have "settles (unmarshal_index e dec v x j path)" for j path
    unfolding unmarshal_index_def
    by (rule settles_child_end [OF selections(1)]) (auto intro: assms settles_refuse)
  then show ?case
    using Cons by (auto intro!: settles_bind settles_return split: prod.split sum.split)
qed (simp add: settles_return)

lemma settles_attrs:
  assumes "\<And>v x path. settles (dec v x path)"
  shows "settles (unmarshal_attrs tab e dec zero v path is items)"
proof (induction "is" arbitrary: items)
  case (Cons i "is")
  then show ?case
    unfolding unmarshal_attrs.simps chk_def fail_def
    by (auto intro!: settles_intros settles_child [OF selections(3)] assms split: prod.split sum.split)
qed (simp add: ok_def settles_return)

lemma settles_collections:
  assumes "\<And>v x path. settles (dec v x path)"
  shows "settles (unmarshal_slice e dec zero v typ x ty path)"
    "settles (unmarshal_array e dec n v typ x ty path)"
    "settles (unmarshal_map tab e dec key zero v typ x ty path)"
    "settles (unmarshal_field tab e dec v field attr x path)"
  unfolding unmarshal_slice_def unmarshal_array_def unmarshal_map_def unmarshal_field_def Let_def
  by (auto intro!: settles_intros settles_bind settles_items settles_attrs assms
      settles_child_end [OF selections(2)] split: prod.split sum.split)

lemma unmarshal_value_settles:
  "settles (unmarshal_value tab e ty v x path)"
  "settles (unmarshal_fields tab e fs v xs path)"
proof (induction tab e ty v x path and tab e fs v xs path
    rule: unmarshal_value_unmarshal_fields.induct)
qed (auto intro!: settles_forced settles_collections settles_scalars settles_refuse settles_return
    settles_bind split: prod.split sum.split option.split)

lemma unmarshal_settles: "safe w \<Longrightarrow> wp (unmarshal tab e v out) (\<lambda>r w'. settled w w') w"
  unfolding unmarshal_def
  by (auto simp: wp_rules intro!: wp_validate_value
      settles_from [OF settles_bind [OF unmarshal_value_settles(1) settles_return], unfolded wp_rules]
      split: option.split out_arg.split)

end
