(* ===== verification/Json_Decode.thy ===== *)
theory Json_Decode
  imports Json Go_Error
begin

text \<open>
  \<^verbatim>\<open>json.Unmarshal\<close> into the shapes the code uses: strings, numbers, booleans, slices, maps
  and structs. A decoder gets the value the variable has before, since JSON \<^verbatim>\<open>null\<close> leaves a
  string, a number, a boolean or a struct as it is, a map keeps its entries, and a key may come
  twice. An error is the first one met; its text is the standard library's and left out. (Not
  modelled: the elements that an earlier, longer array under the same key leaves in the capacity of
  a slice.)
\<close>

definition json_mismatch :: err where
  "json_mismatch = JsonErr ''cannot unmarshal''"

definition dec_string :: "string \<Rightarrow> json \<Rightarrow> string res" where
  "dec_string old v = (case v of JNull \<Rightarrow> Inr old | JStr s \<Rightarrow> Inr s | _ \<Rightarrow> Inl json_mismatch)"

definition dec_bool :: "bool \<Rightarrow> json \<Rightarrow> bool res" where
  "dec_bool old v = (case v of JNull \<Rightarrow> Inr old | JBool b \<Rightarrow> Inr b | _ \<Rightarrow> Inl json_mismatch)"

definition dec_bool_ptr :: "json \<Rightarrow> bool option res" where
  "dec_bool_ptr v = (case v of JNull \<Rightarrow> Inr None | JBool b \<Rightarrow> Inr (Some b) | _ \<Rightarrow> Inl json_mismatch)"

text \<open>\<^verbatim>\<open>strconv.ParseUint(s, 10, 64)\<close>.\<close>

definition parse_uint64 :: "string \<Rightarrow> 64 word option" where
  "parse_uint64 s =
     (if s \<noteq> [] \<and> (\<forall>c \<in> set s. is_digit_char c) \<and> read_nat s < 2 ^ 64
      then Some (of_nat (read_nat s)) else None)"

definition dec_uint64 :: "64 word \<Rightarrow> json \<Rightarrow> 64 word res" where
  "dec_uint64 old v =
     (case v of
        JNull \<Rightarrow> Inr old
      | JNum s \<Rightarrow> (case parse_uint64 s of None \<Rightarrow> Inl json_mismatch | Some n \<Rightarrow> Inr n)
      | _ \<Rightarrow> Inl json_mismatch)"

fun dec_list :: "(json \<Rightarrow> 'a res) \<Rightarrow> json list \<Rightarrow> 'a list res" where
  "dec_list dec [] = Inr []"
| "dec_list dec (v # vs) =
     (case dec v of
        Inl e \<Rightarrow> Inl e
      | Inr x \<Rightarrow> (case dec_list dec vs of Inl e \<Rightarrow> Inl e | Inr xs \<Rightarrow> Inr (x # xs)))"

text \<open>A slice or a map is \<open>None\<close> when it is nil.\<close>

definition dec_slice :: "(json \<Rightarrow> 'a res) \<Rightarrow> json \<Rightarrow> 'a list option res" where
  "dec_slice dec v =
     (case v of
        JNull \<Rightarrow> Inr None
      | JArr vs \<Rightarrow> (case dec_list dec vs of Inl e \<Rightarrow> Inl e | Inr xs \<Rightarrow> Inr (Some xs))
      | _ \<Rightarrow> Inl json_mismatch)"

fun dec_entries ::
  "(json \<Rightarrow> 'a res) \<Rightarrow> (string \<times> json) list \<Rightarrow> (string \<times> 'a) list \<Rightarrow> (string \<times> 'a) list res" where
  "dec_entries dec [] m = Inr m"
| "dec_entries dec ((k, v) # kvs) m =
     (case dec v of Inl e \<Rightarrow> Inl e | Inr x \<Rightarrow> dec_entries dec kvs (map_set k x m))"

definition entries :: "(string \<times> 'a) list option \<Rightarrow> (string \<times> 'a) list" where
  "entries m = (case m of None \<Rightarrow> [] | Some kvs \<Rightarrow> kvs)"

definition dec_map ::
  "(json \<Rightarrow> 'a res) \<Rightarrow> (string \<times> 'a) list option \<Rightarrow> json \<Rightarrow> (string \<times> 'a) list option res" where
  "dec_map dec old v =
     (case v of
        JNull \<Rightarrow> Inr None
      | JObj kvs \<Rightarrow>
          (case dec_entries dec kvs (entries old) of Inl e \<Rightarrow> Inl e | Inr m \<Rightarrow> Inr (Some m))
      | _ \<Rightarrow> Inl json_mismatch)"

text \<open>Keys of a struct are matched up to the case folding of \<^verbatim>\<open>encoding/json\<close>, which also
  identifies the Kelvin sign with \<^verbatim>\<open>k\<close> and the long s with \<^verbatim>\<open>s\<close>.\<close>

fun fold_key :: "string \<Rightarrow> string" where
  "fold_key [] = []"
| "fold_key (a # s) =
     (if byte_in 65 90 a then char_of (of_char a + 32 :: nat) # fold_key s
      else (case s of
        b # s' \<Rightarrow>
          if a = byte 0xC5 \<and> b = byte 0xBF then CHR ''s'' # fold_key s'
          else (case s' of
            c # s'' \<Rightarrow>
              if a = byte 0xE2 \<and> b = byte 0x84 \<and> c = byte 0xAA then CHR ''k'' # fold_key s''
              else a # fold_key s
          | [] \<Rightarrow> a # fold_key s)
      | [] \<Rightarrow> [a]))"

declare fold_key.simps(2) [simp del]

fun dec_members ::
  "(string \<Rightarrow> 's \<Rightarrow> json \<Rightarrow> 's res) \<Rightarrow> (string \<times> json) list \<Rightarrow> 's \<Rightarrow> 's res" where
  "dec_members step [] st = Inr st"
| "dec_members step ((k, v) # kvs) st =
     (case step (fold_key k) st v of Inl e \<Rightarrow> Inl e | Inr st' \<Rightarrow> dec_members step kvs st')"

definition dec_struct :: "(string \<Rightarrow> 's \<Rightarrow> json \<Rightarrow> 's res) \<Rightarrow> 's \<Rightarrow> json \<Rightarrow> 's res" where
  "dec_struct step st v =
     (case v of JNull \<Rightarrow> Inr st | JObj kvs \<Rightarrow> dec_members step kvs st | _ \<Rightarrow> Inl json_mismatch)"

text \<open>One field of a struct: decode, then update.\<close>

definition dec_field :: "'a res \<Rightarrow> ('a \<Rightarrow> 's) \<Rightarrow> 's res" where
  "dec_field r upd = (case r of Inl e \<Rightarrow> Inl e | Inr x \<Rightarrow> Inr (upd x))"

lemma dec_field_Inr [simp]: "dec_field (Inr x) upd = Inr (upd x)"
  by (simp add: dec_field_def)

section \<open>Reading back what was written\<close>

lemma parse_itoa [simp]: "parse_uint64 (itoa (uint n)) = Some n"
proof -
  have "nat (uint n) < 2 ^ 64"
    using unsigned_less [of n] by simp
  then show ?thesis
    using show_nat_digits [of "nat (uint n)"] by (auto simp: parse_uint64_def itoa_def)
qed

lemma dec_list_map: "(\<And>x. x \<in> set xs \<Longrightarrow> dec (enc x) = Inr x) \<Longrightarrow> dec_list dec (map enc xs) = Inr xs"
  by (induction xs) auto

lemma map_set_new: "k \<notin> fst ` set m \<Longrightarrow> map_set k x m = m @ [(k, x)]"
  unfolding map_set_def by (induction m) auto

lemma dec_entries_map:
  assumes "\<And>k x. (k, x) \<in> set kvs \<Longrightarrow> dec (enc x) = Inr x" "distinct (map fst (m @ kvs))"
  shows "dec_entries dec (map (\<lambda>(k, x). (k, enc x)) kvs) m = Inr (m @ kvs)"
  using assms
proof (induction kvs arbitrary: m)
  case (Cons kx kvs)
  obtain k x where kx: "kx = (k, x)" by force
  have "map_set k x m = m @ [(k, x)]" using Cons.prems(2) by (intro map_set_new) (auto simp: kx)
  moreover have "dec_entries dec (map (\<lambda>(k, x). (k, enc x)) kvs) (m @ [(k, x)]) = Inr ((m @ [(k, x)]) @ kvs)"
    using Cons.prems by (intro Cons.IH) (auto simp: kx)
  ultimately show ?case using Cons.prems(1) [of k x] by (simp add: kx)
qed simp

end
