(* ===== verification/Lock_Info.thy ===== *)
theory Lock_Info
  imports Json_Decode
begin

text \<open>
  \<^verbatim>\<open>flake/lock_info.go\<close>: the lock graph, with its custom JSON encoding of inputs and its
  default for the \<^verbatim>\<open>flake\<close> field.
\<close>

section \<open>Data\<close>

text \<open>A \<^verbatim>\<open>json.RawMessage\<close>: \<open>None\<close> stands for bytes that are not a JSON value, which
  \<^verbatim>\<open>json.Marshal\<close> rejects; a nil one is written as \<^verbatim>\<open>null\<close>.\<close>

type_synonym raw_message = "json option"

type_synonym lock_reference = "(string \<times> raw_message) list option"

record lock_input =
  li_node :: string
  li_follows :: "string list option"

record lock_node =
  Inputs :: "(string \<times> lock_input) list option"
  Original :: lock_reference
  Locked :: lock_reference
  Flake :: bool
  Parent :: "string list option"

record lock_info =
  Version :: "64 word"
  Root :: string
  Nodes :: "(string \<times> lock_node) list option"

definition zero_lock_input :: lock_input where
  "zero_lock_input = \<lparr>li_node = [], li_follows = None\<rparr>"

definition zero_lock_node :: lock_node where
  "zero_lock_node = \<lparr>Inputs = None, Original = None, Locked = None, Flake = False, Parent = None\<rparr>"

definition zero_lock_info :: lock_info where
  "zero_lock_info = \<lparr>Version = 0, Root = [], Nodes = None\<rparr>"

section \<open>Inputs\<close>

definition get_node :: "lock_input \<Rightarrow> string \<times> bool" where
  "get_node i = (if li_follows i \<noteq> None then ([], False) else (li_node i, True))"

definition get_follows :: "lock_input \<Rightarrow> string list option \<times> bool" where
  "get_follows i = (case li_follows i of None \<Rightarrow> (None, False) | Some path \<Rightarrow> (Some path, True))"

definition marshal_input :: "lock_input \<Rightarrow> json" where
  "marshal_input i =
     (case li_follows i of
        Some path \<Rightarrow> JArr (map (\<lambda>s. JStr (coerce_utf8 s)) path)
      | None \<Rightarrow> JStr (coerce_utf8 (li_node i)))"

text \<open>The data \<^verbatim>\<open>encoding/json\<close> hands to \<^verbatim>\<open>UnmarshalJSON\<close> is one JSON value without
  surrounding space, so it is not empty, and its first byte tells its sort.\<close>

definition unmarshal_input :: "json \<Rightarrow> lock_input res" where
  "unmarshal_input v =
     (case v of
        JStr node \<Rightarrow> Inr \<lparr>li_node = node, li_follows = None\<rparr>
      | JArr vs \<Rightarrow>
          (case dec_slice (dec_string []) (JArr vs) of
             Inl e \<Rightarrow> Inl (wrapf ''flake: failed to decode follows lock input: %w'' [] e)
           | Inr follows \<Rightarrow>
               Inr \<lparr>li_node = [], li_follows = (case follows of None \<Rightarrow> Some [] | Some f \<Rightarrow> Some f)\<rparr>)
      | _ \<Rightarrow> Inl (errorf ''flake: lock input must be a node string or follows path array'' []))"

section \<open>Nodes\<close>

definition dec_raw :: "json \<Rightarrow> raw_message res" where
  "dec_raw v = Inr (Some v)"

text \<open>The struct of \<^verbatim>\<open>LockNode.UnmarshalJSON\<close>: the embedded node and the pointer that
  shadows its \<^verbatim>\<open>flake\<close> field.\<close>

definition node_field :: "string \<Rightarrow> lock_node \<times> bool option \<Rightarrow> json \<Rightarrow> (lock_node \<times> bool option) res" where
  "node_field key d v =
     (if key = ''inputs'' then
        dec_field (dec_map unmarshal_input (Inputs (fst d)) v) (\<lambda>m. ((fst d)\<lparr>Inputs := m\<rparr>, snd d))
      else if key = ''original'' then
        dec_field (dec_map dec_raw (Original (fst d)) v) (\<lambda>m. ((fst d)\<lparr>Original := m\<rparr>, snd d))
      else if key = ''locked'' then
        dec_field (dec_map dec_raw (Locked (fst d)) v) (\<lambda>m. ((fst d)\<lparr>Locked := m\<rparr>, snd d))
      else if key = ''flake'' then
        dec_field (dec_bool_ptr v) (\<lambda>b. (fst d, b))
      else if key = ''parent'' then
        dec_field (dec_slice (dec_string []) v) (\<lambda>p. ((fst d)\<lparr>Parent := p\<rparr>, snd d))
      else Inr d)"

definition unmarshal_node :: "json \<Rightarrow> lock_node res" where
  "unmarshal_node v =
     dec_field (dec_struct node_field (zero_lock_node\<lparr>Flake := True\<rparr>, None) v)
       (\<lambda>(node, flake). (case flake of None \<Rightarrow> node | Some b \<Rightarrow> node\<lparr>Flake := b\<rparr>))"

text \<open>\<^verbatim>\<open>json.Marshal\<close> of a map writes its keys in increasing order.\<close>

definition marshal_map :: "('a \<Rightarrow> json) \<Rightarrow> (string \<times> 'a) list \<Rightarrow> json" where
  "marshal_map enc m =
     JObj (map (\<lambda>k. (coerce_utf8 k, enc (the (map_of m k)))) (sort_strings (map fst m)))"

definition marshal_reference :: "(string \<times> raw_message) list \<Rightarrow> json" where
  "marshal_reference = marshal_map the"

text \<open>\<^verbatim>\<open>omitempty\<close> leaves out a nil or empty map or slice.\<close>

definition omitempty :: "string \<Rightarrow> ('b list \<Rightarrow> json) \<Rightarrow> 'b list option \<Rightarrow> (string \<times> json) list" where
  "omitempty key enc x = (case x of None \<Rightarrow> [] | Some [] \<Rightarrow> [] | Some ys \<Rightarrow> [(key, enc ys)])"

definition marshal_strings :: "string list \<Rightarrow> json" where
  "marshal_strings xs = JArr (map (\<lambda>s. JStr (coerce_utf8 s)) xs)"

definition marshal_node :: "lock_node \<Rightarrow> json" where
  "marshal_node n = JObj (
     omitempty ''inputs'' (marshal_map marshal_input) (Inputs n) @
     omitempty ''original'' marshal_reference (Original n) @
     omitempty ''locked'' marshal_reference (Locked n) @
     [(''flake'', JBool (Flake n))] @
     omitempty ''parent'' marshal_strings (Parent n))"

section \<open>Graphs\<close>

definition info_field :: "string \<Rightarrow> lock_info \<Rightarrow> json \<Rightarrow> lock_info res" where
  "info_field key d v =
     (if key = ''version'' then dec_field (dec_uint64 (Version d) v) (\<lambda>n. d\<lparr>Version := n\<rparr>)
      else if key = ''root'' then dec_field (dec_string (Root d) v) (\<lambda>s. d\<lparr>Root := s\<rparr>)
      else if key = ''nodes'' then dec_field (dec_map unmarshal_node (Nodes d) v) (\<lambda>m. d\<lparr>Nodes := m\<rparr>)
      else Inr d)"

text \<open>\<^verbatim>\<open>json.Unmarshal(data, &lockInfo)\<close> into a zero value, after parsing.\<close>

definition unmarshal_info :: "json \<Rightarrow> lock_info res" where
  "unmarshal_info v = dec_struct info_field zero_lock_info v"

definition raw_valid :: "lock_reference \<Rightarrow> bool" where
  "raw_valid r \<longleftrightarrow> (\<forall>(k, v) \<in> set (entries r). v \<noteq> None)"

text \<open>\<^verbatim>\<open>json.Marshal(lockInfo)\<close>; it fails when some raw attribute is not JSON.\<close>

definition marshal_info :: "lock_info \<Rightarrow> json res" where
  "marshal_info d =
     (if (\<forall>(k, n) \<in> set (entries (Nodes d)). raw_valid (Original n) \<and> raw_valid (Locked n)) then
        Inr (JObj [(''version'', JNum (itoa (uint (Version d)))), (''root'', JStr (coerce_utf8 (Root d))),
          (''nodes'', (case Nodes d of None \<Rightarrow> JNull | Some m \<Rightarrow> marshal_map marshal_node m))])
      else Inl (JsonErr ''invalid raw message''))"

section \<open>Reading back a graph that was written\<close>

text \<open>What survives: maps are sorted, and those that \<^verbatim>\<open>omitempty\<close> leaves out, as well as an
  empty parent path, come back nil.\<close>

definition normal_map :: "('a \<Rightarrow> 'b) \<Rightarrow> (string \<times> 'a) list \<Rightarrow> (string \<times> 'b) list" where
  "normal_map f m = map (\<lambda>k. (k, f (the (map_of m k)))) (sort_strings (map fst m))"

definition nonempty :: "'b list option \<Rightarrow> 'b list option" where
  "nonempty x = (case x of None \<Rightarrow> None | Some [] \<Rightarrow> None | Some ys \<Rightarrow> Some ys)"

definition normal_node :: "lock_node \<Rightarrow> lock_node" where
  "normal_node n = \<lparr>Inputs = map_option (normal_map id) (nonempty (Inputs n)),
     Original = map_option (normal_map id) (nonempty (Original n)),
     Locked = map_option (normal_map id) (nonempty (Locked n)), Flake = Flake n,
     Parent = nonempty (Parent n)\<rparr>"

definition normal_info :: "lock_info \<Rightarrow> lock_info" where
  "normal_info d = d\<lparr>Nodes := map_option (normal_map normal_node) (Nodes d)\<rparr>"

text \<open>The strings are valid UTF-8, a map has each key once, a raw attribute is JSON, and an input is
  one of its two variants.\<close>

definition keys_ok :: "(string \<times> 'a) list option \<Rightarrow> bool" where
  "keys_ok m \<longleftrightarrow> distinct (map fst (entries m)) \<and> (\<forall>k \<in> fst ` set (entries m). valid_utf8 k)"

definition input_ok :: "lock_input \<Rightarrow> bool" where
  "input_ok i \<longleftrightarrow> valid_utf8 (li_node i) \<and>
     (case li_follows i of None \<Rightarrow> True | Some path \<Rightarrow> li_node i = [] \<and> (\<forall>s \<in> set path. valid_utf8 s))"

definition node_ok :: "lock_node \<Rightarrow> bool" where
  "node_ok n \<longleftrightarrow> keys_ok (Inputs n) \<and> keys_ok (Original n) \<and> keys_ok (Locked n) \<and>
     (\<forall>i \<in> snd ` set (entries (Inputs n)). input_ok i) \<and> raw_valid (Original n) \<and> raw_valid (Locked n) \<and>
     (case Parent n of None \<Rightarrow> True | Some path \<Rightarrow> \<forall>s \<in> set path. valid_utf8 s)"

definition info_ok :: "lock_info \<Rightarrow> bool" where
  "info_ok d \<longleftrightarrow> valid_utf8 (Root d) \<and> keys_ok (Nodes d) \<and> (\<forall>n \<in> snd ` set (entries (Nodes d)). node_ok n)"

lemma marshal_map_eq:
  assumes "\<forall>k \<in> fst ` set m. valid_utf8 k"
  shows "marshal_map enc m = JObj (map (\<lambda>(k, x). (k, enc x)) (normal_map id m))"
  using assms by (simp add: marshal_map_def normal_map_def coerce_valid)

lemma normal_map_comp: "normal_map f m = map (\<lambda>(k, x). (k, f x)) (normal_map id m)"
  by (simp add: normal_map_def)

lemma normal_map_set:
  "distinct (map fst m) \<Longrightarrow> set (normal_map id m) = set m"
  by (force simp: normal_map_def image_iff intro: map_of_SomeD)

lemma normal_map_keys: "map fst (normal_map f m) = sort_strings (map fst m)"
  by (simp add: normal_map_def comp_def)

text \<open>A map read back, for elements that are read back as \<open>f\<close> of what was written.\<close>

lemma dec_map_marshal:
  assumes "distinct (map fst m)" "\<forall>k \<in> fst ` set m. valid_utf8 k"
    "\<And>x. x \<in> snd ` set m \<Longrightarrow> dec (enc x) = Inr (f x)"
  shows "dec_map dec None (marshal_map enc m) = Inr (Some (normal_map f m))"
proof -
  have "dec_entries dec (map (\<lambda>(k, x). (k, enc x)) ps) acc = Inr (acc @ map (\<lambda>(k, x). (k, f x)) ps)"
    if "\<And>x. x \<in> snd ` set ps \<Longrightarrow> dec (enc x) = Inr (f x)"
      "distinct (map fst acc @ map fst ps)" for ps acc
    using that
  proof (induction ps arbitrary: acc)
    case (Cons kx ps)
    obtain k x where kx: "kx = (k, x)" by force
    have "map_set k (f x) acc = acc @ [(k, f x)]"
      using Cons.prems(2) by (intro map_set_new) (auto simp: kx)
    then show ?case
      using Cons.IH [of "acc @ [(k, f x)]"] Cons.prems by (simp add: kx)
  qed simp
  from this [of "normal_map id m" "[]"] assms show ?thesis
    by (simp add: marshal_map_eq dec_map_def entries_def normal_map_set normal_map_keys
        normal_map_comp [of f])
qed

lemma dec_strings: "\<forall>s \<in> set xs. valid_utf8 s \<Longrightarrow>
    dec_list (dec_string old) (map (\<lambda>s. JStr (coerce_utf8 s)) xs) = Inr xs"
  by (rule dec_list_map) (simp add: dec_string_def coerce_valid)

lemma unmarshal_marshal_input: "input_ok i \<Longrightarrow> unmarshal_input (marshal_input i) = Inr i"
  by (cases i) (auto simp: input_ok_def unmarshal_input_def marshal_input_def dec_slice_def dec_strings
      coerce_valid split: option.splits)

lemma dec_raw_the: "v \<noteq> None \<Longrightarrow> dec_raw (the v) = Inr v"
  by (simp add: dec_raw_def)

lemma fold_key_lower: "byte_in 97 122 a \<Longrightarrow> fold_key (a # s) = a # fold_key s"
  by (subst fold_key.simps) (auto simp: byte_in_def byte_def split: list.split)

lemma fold_lower: "\<forall>c \<in> set s. byte_in 97 122 c \<Longrightarrow> fold_key s = s"
  by (induction s) (simp_all add: fold_key_lower)

lemma fold_keys [simp]:
  "fold_key ''inputs'' = ''inputs''" "fold_key ''original'' = ''original''"
  "fold_key ''locked'' = ''locked''" "fold_key ''flake'' = ''flake''" "fold_key ''parent'' = ''parent''"
  "fold_key ''version'' = ''version''" "fold_key ''root'' = ''root''" "fold_key ''nodes'' = ''nodes''"
  by (rule fold_lower, simp add: byte_in_def)+

lemma dec_members_append:
  "dec_members step (xs @ ys) st =
     (case dec_members step xs st of Inl e \<Rightarrow> Inl e | Inr st' \<Rightarrow> dec_members step ys st')"
  by (induction xs arbitrary: st) (auto split: sum.split)

text \<open>A member that \<^verbatim>\<open>omitempty\<close> may leave out.\<close>

lemma dec_omitempty:
  assumes "\<And>ys. x = Some ys \<Longrightarrow> ys \<noteq> [] \<Longrightarrow> step (fold_key key) st (enc ys) = Inr (upd (Some (f ys)))"
    "upd None = st"
  shows "dec_members step (omitempty key enc x) st = Inr (upd (map_option f (nonempty x)))"
  using assms by (auto simp: omitempty_def nonempty_def split: option.split list.split)

lemma node_field_simps:
  "node_field ''inputs'' d v =
     dec_field (dec_map unmarshal_input (Inputs (fst d)) v) (\<lambda>m. ((fst d)\<lparr>Inputs := m\<rparr>, snd d))"
  "node_field ''original'' d v =
     dec_field (dec_map dec_raw (Original (fst d)) v) (\<lambda>m. ((fst d)\<lparr>Original := m\<rparr>, snd d))"
  "node_field ''locked'' d v =
     dec_field (dec_map dec_raw (Locked (fst d)) v) (\<lambda>m. ((fst d)\<lparr>Locked := m\<rparr>, snd d))"
  "node_field ''flake'' d v = dec_field (dec_bool_ptr v) (\<lambda>b. (fst d, b))"
  "node_field ''parent'' d v =
     dec_field (dec_slice (dec_string []) v) (\<lambda>p. ((fst d)\<lparr>Parent := p\<rparr>, snd d))"
  by (simp_all add: node_field_def)

lemma dec_inputs:
  assumes "keys_ok (Some m)" "\<forall>i \<in> snd ` set m. input_ok i"
  shows "dec_map unmarshal_input None (marshal_map marshal_input m) = Inr (Some (normal_map id m))"
  using assms by (intro dec_map_marshal) (auto simp: keys_ok_def entries_def unmarshal_marshal_input)

lemma dec_reference:
  assumes "keys_ok (Some m)" "raw_valid (Some m)"
  shows "dec_map dec_raw None (marshal_reference m) = Inr (Some (normal_map id m))"
  unfolding marshal_reference_def using assms
  by (intro dec_map_marshal) (auto simp: keys_ok_def entries_def raw_valid_def dec_raw_def)

lemma unmarshal_marshal_node:
  assumes "node_ok n" shows "unmarshal_node (marshal_node n) = Inr (normal_node n)"
proof -
  let ?z = "zero_lock_node\<lparr>Flake := True\<rparr>"
  let ?i = "?z\<lparr>Inputs := map_option (normal_map id) (nonempty (Inputs n))\<rparr>"
  let ?o = "?i\<lparr>Original := map_option (normal_map id) (nonempty (Original n))\<rparr>"
  let ?l = "?o\<lparr>Locked := map_option (normal_map id) (nonempty (Locked n))\<rparr>"
  from assms have ok: "Inputs n = Some m \<Longrightarrow> keys_ok (Some m) \<and> (\<forall>i \<in> snd ` set m. input_ok i)"
    "Original n = Some r \<Longrightarrow> keys_ok (Some r) \<and> raw_valid (Some r)"
    "Locked n = Some r \<Longrightarrow> keys_ok (Some r) \<and> raw_valid (Some r)"
    "Parent n = Some xs \<Longrightarrow> \<forall>s \<in> set xs. valid_utf8 s" for m r xs
    by (auto simp: node_ok_def entries_def)
  have "dec_members node_field (omitempty ''inputs'' (marshal_map marshal_input) (Inputs n)) (?z, None) =
      Inr (?i, None)"
    by (rule dec_omitempty [where upd = "\<lambda>m. (?z\<lparr>Inputs := m\<rparr>, None)"])
      (simp_all add: ok node_field_simps zero_lock_node_def dec_inputs)
  moreover have "dec_members node_field (omitempty ''original'' marshal_reference (Original n)) (?i, None) =
      Inr (?o, None)"
    by (rule dec_omitempty [where upd = "\<lambda>m. (?i\<lparr>Original := m\<rparr>, None)"])
      (simp_all add: ok node_field_simps zero_lock_node_def dec_reference)
  moreover have "dec_members node_field (omitempty ''locked'' marshal_reference (Locked n)) (?o, None) =
      Inr (?l, None)"
    by (rule dec_omitempty [where upd = "\<lambda>m. (?o\<lparr>Locked := m\<rparr>, None)"])
      (simp_all add: ok node_field_simps zero_lock_node_def dec_reference)
  moreover have "dec_members node_field ((''flake'', JBool (Flake n)) # rest) (?l, None) =
      dec_members node_field rest (?l, Some (Flake n))" for rest
    by (simp add: node_field_simps dec_bool_ptr_def)
  moreover have "dec_members node_field (omitempty ''parent'' marshal_strings (Parent n)) (?l, Some (Flake n)) =
      Inr (?l\<lparr>Parent := map_option id (nonempty (Parent n))\<rparr>, Some (Flake n))"
    by (rule dec_omitempty [where upd = "\<lambda>p. (?l\<lparr>Parent := p\<rparr>, Some (Flake n))"])
      (simp_all add: ok node_field_simps zero_lock_node_def marshal_strings_def dec_slice_def dec_strings)
  ultimately show ?thesis
    by (simp add: unmarshal_node_def marshal_node_def dec_struct_def dec_members_append normal_node_def
        zero_lock_node_def option.map_id0 del: dec_members.simps)
qed

lemma unmarshal_info_written:
  assumes "info_ok d"
  shows "\<exists>j. marshal_info d = Inr j \<and> unmarshal_info j = Inr (normal_info d)"
proof -
  from assms have valid: "\<forall>(k, n) \<in> set (entries (Nodes d)). raw_valid (Original n) \<and> raw_valid (Locked n)"
    by (force simp: info_ok_def node_ok_def)
  have fields: "info_field ''version'' = (\<lambda>d v. dec_field (dec_uint64 (Version d) v) (\<lambda>n. d\<lparr>Version := n\<rparr>))"
    "info_field ''root'' = (\<lambda>d v. dec_field (dec_string (Root d) v) (\<lambda>s. d\<lparr>Root := s\<rparr>))"
    "info_field ''nodes'' = (\<lambda>d v. dec_field (dec_map unmarshal_node (Nodes d) v) (\<lambda>m. d\<lparr>Nodes := m\<rparr>))"
    by (simp_all add: info_field_def fun_eq_iff)
  have "dec_map unmarshal_node None (case Nodes d of None \<Rightarrow> JNull | Some m \<Rightarrow> marshal_map marshal_node m) =
      Inr (map_option (normal_map normal_node) (Nodes d))"
  proof (cases "Nodes d")
    case None
    then show ?thesis by (simp add: dec_map_def)
  next
    case (Some m)
    with assms have "dec_map unmarshal_node None (marshal_map marshal_node m) =
        Inr (Some (normal_map normal_node m))"
      by (intro dec_map_marshal unmarshal_marshal_node) (auto simp: info_ok_def keys_ok_def entries_def)
    with Some show ?thesis by simp
  qed
  with valid assms show ?thesis
    by (simp add: marshal_info_def unmarshal_info_def dec_struct_def fields dec_uint64_def dec_string_def
        zero_lock_info_def normal_info_def coerce_valid info_ok_def)
qed

section \<open>Properties\<close>

text \<open>
  C20: A lock graph whose strings are valid UTF-8 and whose raw attributes are JSON can be written,
  and reading it back gives the same graph with sorted maps, up to what \<^verbatim>\<open>omitempty\<close> leaves
  out: empty maps and an empty parent path come back nil. In particular version, root, every input
  edge (direct or follows, the empty follows path included), every raw attribute and every
  \<^verbatim>\<open>flake\<close> flag survive.
\<close>

theorem lock_info_roundtrip:
  assumes "info_ok d" "marshal_info d = Inr j"
  shows "unmarshal_info j = Inr (normal_info d)"
  using unmarshal_info_written [OF assms(1)] assms(2) by auto

definition sample_info :: lock_info where
  "sample_info = \<lparr>Version = 7, Root = ''root'', Nodes = Some
     [(''root'', \<lparr>Inputs = Some [(''dep'', \<lparr>li_node = ''dep'', li_follows = None\<rparr>),
          (''empty'', \<lparr>li_node = [], li_follows = Some []\<rparr>)], Original = None, Locked = None,
        Flake = True, Parent = None\<rparr>),
      (''dep'', \<lparr>Inputs = None, Original = Some [(''type'', Some (JStr ''path''))], Locked = None,
        Flake = False, Parent = Some []\<rparr>)]\<rparr>"

lemma sample_info_ok: "info_ok sample_info"
proof -
  have "valid_utf8 s" if "\<forall>c \<in> set s. byte_in 97 122 c" for s
    using that by (intro valid_ascii) (auto simp: byte_in_def)
  then have "valid_utf8 ''root''" "valid_utf8 ''dep''" "valid_utf8 ''empty''" "valid_utf8 ''type''"
    by (simp_all add: byte_in_def)
  then show ?thesis
    by (auto simp: info_ok_def sample_info_def keys_ok_def entries_def node_ok_def input_ok_def raw_valid_def)
qed

theorem lock_info_roundtrip_witness:
  "\<exists>j. marshal_info sample_info = Inr j \<and> unmarshal_info j = Inr (normal_info sample_info)"
proof -
  obtain j where j: "marshal_info sample_info = Inr j"
    using unmarshal_info_written [OF sample_info_ok] by auto
  from j lock_info_roundtrip [OF sample_info_ok j] show ?thesis by auto
qed

text \<open>
  A parent path that is present and empty, as the lock file of an input at the root's level
  records it, is read from JSON as present, but is gone once the node has been written and read
  again: \<^verbatim>\<open>omitempty\<close> does not tell an empty slice from a nil one.
\<close>

theorem lock_node_parent_lost:
  "unmarshal_node (JObj [(''parent'', JArr [])]) = Inr (zero_lock_node\<lparr>Flake := True, Parent := Some []\<rparr>) \<and>
   unmarshal_node (marshal_node (n\<lparr>Inputs := None, Original := None, Locked := None, Parent := Some []\<rparr>)) =
     Inr (zero_lock_node\<lparr>Flake := Flake n, Parent := None\<rparr>)"
proof
  show "unmarshal_node (JObj [(''parent'', JArr [])]) =
      Inr (zero_lock_node\<lparr>Flake := True, Parent := Some []\<rparr>)"
    by (simp add: unmarshal_node_def dec_struct_def node_field_simps dec_slice_def zero_lock_node_def)
  have "node_ok (n\<lparr>Inputs := None, Original := None, Locked := None, Parent := Some []\<rparr>)"
    by (simp add: node_ok_def keys_ok_def entries_def raw_valid_def)
  from unmarshal_marshal_node [OF this]
  show "unmarshal_node (marshal_node (n\<lparr>Inputs := None, Original := None, Locked := None, Parent := Some []\<rparr>)) =
      Inr (zero_lock_node\<lparr>Flake := Flake n, Parent := None\<rparr>)"
    by (simp add: normal_node_def nonempty_def zero_lock_node_def)
qed

text \<open>The pointer that shadows \<^verbatim>\<open>flake\<close> is what the last member of that name says.\<close>

lemma node_field_flag:
  "node_field key d v = Inr d' \<Longrightarrow> key \<noteq> ''flake'' \<Longrightarrow> snd d' = snd d \<and> Flake (fst d') = Flake (fst d)"
  "node_field ''flake'' d v = Inr d' \<Longrightarrow> Flake (fst d') = Flake (fst d) \<and>
     snd d' = (case v of JBool b \<Rightarrow> Some b | _ \<Rightarrow> None)"
  by (auto simp: node_field_def dec_field_def dec_bool_ptr_def split: if_splits sum.splits json.splits)

text \<open>The last member with the key \<open>flake\<close> (up to case), as a Boolean or nothing.\<close>

definition flake_member :: "(string \<times> json) list \<Rightarrow> bool option" where
  "flake_member kvs =
     foldl (\<lambda>b (k, v). if fold_key k = ''flake'' then (case v of JBool c \<Rightarrow> Some c | _ \<Rightarrow> None) else b)
       None kvs"

lemma dec_members_flag:
  "dec_members node_field kvs d = Inr d' \<Longrightarrow> Flake (fst d') = Flake (fst d) \<and>
     snd d' = foldl (\<lambda>b (k, v). if fold_key k = ''flake'' then (case v of JBool c \<Rightarrow> Some c | _ \<Rightarrow> None)
       else b) (snd d) kvs"
proof (induction kvs arbitrary: d)
  case (Cons kv kvs)
  obtain k v where kv: "kv = (k, v)" by force
  then obtain d1 where d1: "node_field (fold_key k) d v = Inr d1" "dec_members node_field kvs d1 = Inr d'"
    using Cons.prems by (auto split: sum.splits)
  show ?case
  proof (cases "fold_key k = ''flake''")
    case True
    with d1 Cons.IH [OF d1(2)] node_field_flag(2) [of d v d1] show ?thesis by (simp add: kv)
  next
    case False
    with d1 Cons.IH [OF d1(2)] node_field_flag(1) [OF d1(1)] show ?thesis by (simp add: kv)
  qed
qed simp

text \<open>
  A node that was decoded is a flake unless its JSON says \<^verbatim>\<open>false\<close>: with the member
  \<^verbatim>\<open>flake\<close> absent or null the flag is true, otherwise it is the Boolean given last.
\<close>

theorem lock_node_flake_default:
  assumes "unmarshal_node (JObj kvs) = Inr n"
  shows "Flake n = (case flake_member kvs of None \<Rightarrow> True | Some b \<Rightarrow> b)"
proof -
  let ?z = "zero_lock_node\<lparr>Flake := True\<rparr>"
  from assms obtain d where d: "dec_members node_field kvs (?z, None) = Inr d"
    and n: "n = (case snd d of None \<Rightarrow> fst d | Some b \<Rightarrow> (fst d)\<lparr>Flake := b\<rparr>)"
    by (fastforce simp: unmarshal_node_def dec_struct_def dec_field_def
      split: sum.splits prod.splits option.splits)
  from dec_members_flag [OF d] n show ?thesis
    by (auto simp: flake_member_def split: option.split)
qed

theorem lock_node_flake_default_witness:
  "unmarshal_node (JObj [(''flake'', JBool False)]) = Inr zero_lock_node \<and> Flake zero_lock_node = False"
proof -
  have eq: "unmarshal_node (JObj [(''flake'', JBool False)]) = Inr zero_lock_node"
    by (simp add: unmarshal_node_def dec_struct_def node_field_simps dec_bool_ptr_def zero_lock_node_def)
  from lock_node_flake_default [OF this] eq show ?thesis by (simp add: flake_member_def)
qed

end
