(* ===== verification/Client_Middleware.thy ===== *)
theory Client_Middleware
  imports Prelude
begin

text \<open>
  The concurrency protocol of \<^verbatim>\<open>client.go\<close>: \<^verbatim>\<open>middleware\<close> and \<^verbatim>\<open>Close\<close> as control
  points, taken by any number of goroutines that call operations of one client, each with a second
  goroutine for its handler. A step is one goroutine passing to its next control point; which one moves is
  not determined. What the handler and the closing do to the ledger is the subject of \<open>Client_Ops\<close>.
\<close>

section \<open>States\<close>

text \<open>How a call came back: \<^verbatim>\<open>ErrConcurrentUse\<close>, \<^verbatim>\<open>ErrClosed\<close>, the result of the
  handler, the joined errors of a cancelled operation, the result of \<^verbatim>\<open>Close\<close>.\<close>

datatype answer = Refused | WasClosed | Completed | Interrupted | ClosedNow

text \<open>The control points of a caller: outside; holding \<^verbatim>\<open>busy\<close> and about to look at
  \<^verbatim>\<open>c.ctx\<close>; in the select; after \<^verbatim>\<open>InterruptRequest\<close>; after \<^verbatim>\<open>StoreInterrupt\<close>
  or the failure to make a context for it, waiting for the handler; after the handler; after
  \<^verbatim>\<open>InterruptClear\<close>; in \<^verbatim>\<open>Close\<close> before \<^verbatim>\<open>closeLocked\<close>; before the deferred
  release of \<^verbatim>\<open>busy\<close>; returned.\<close>

datatype control =
    Outside | Entered | Selecting | Requested | Waiting | Stopped | Cleared | CloseEntered
  | Returning answer | Returned answer

datatype handler_state = NoHandler | Running | Finished

record protocol =
  busy :: bool
  ctx_open :: bool
  interrupt :: bool
  control :: "nat \<Rightarrow> control"
  handlers :: "nat \<Rightarrow> handler_state"
  cancelled :: "nat \<Rightarrow> bool"

definition protocol_start :: protocol where
  "protocol_start = \<lparr>busy = False, ctx_open = True, interrupt = False, control = (\<lambda>_. Outside),
     handlers = (\<lambda>_. NoHandler), cancelled = (\<lambda>_. False)\<rparr>"

definition goto :: "nat \<Rightarrow> control \<Rightarrow> protocol \<Rightarrow> protocol" where
  "goto t p s = s\<lparr>control := (control s)(t := p)\<rparr>"

definition set_handler :: "nat \<Rightarrow> handler_state \<Rightarrow> protocol \<Rightarrow> protocol" where
  "set_handler t h s = s\<lparr>handlers := (handlers s)(t := h)\<rparr>"

section \<open>Steps\<close>

text \<open>Who moves: the caller \<open>t\<close>, its handler, or whoever cancels its \<^verbatim>\<open>context.Context\<close>.\<close>

datatype actor = Caller nat | Handler nat | Canceller nat

inductive protocol_step :: "actor \<Rightarrow> protocol \<Rightarrow> protocol \<Rightarrow> bool" where
  refuse: "control s t = Outside \<Longrightarrow> busy s \<Longrightarrow> protocol_step (Caller t) s (goto t (Returned Refused) s)"
| enter: "control s t = Outside \<Longrightarrow> \<not> busy s \<Longrightarrow> protocol_step (Caller t) s (goto t Entered (s\<lparr>busy := True\<rparr>))"
| enter_close: "control s t = Outside \<Longrightarrow> \<not> busy s \<Longrightarrow>
    protocol_step (Caller t) s (goto t CloseEntered (s\<lparr>busy := True\<rparr>))"
| found_closed: "control s t = Entered \<Longrightarrow> \<not> ctx_open s \<Longrightarrow>
    protocol_step (Caller t) s (goto t (Returning WasClosed) s)"
| spawn: "control s t = Entered \<Longrightarrow> ctx_open s \<Longrightarrow>
    protocol_step (Caller t) s (goto t Selecting (set_handler t Running s))"
| finish: "handlers s t = Running \<Longrightarrow> protocol_step (Handler t) s (set_handler t Finished s)"
| cancel: "protocol_step (Canceller t) s (s\<lparr>cancelled := (cancelled s)(t := True)\<rparr>)"
| receive: "control s t = Selecting \<Longrightarrow> handlers s t = Finished \<Longrightarrow>
    protocol_step (Caller t) s (goto t (Returning Completed) (set_handler t NoHandler s))"
| request: "control s t = Selecting \<Longrightarrow> cancelled s t \<Longrightarrow>
    protocol_step (Caller t) s (goto t Requested (s\<lparr>interrupt := True\<rparr>))"
| interrupt_store: "control s t = Requested \<Longrightarrow> protocol_step (Caller t) s (goto t Waiting s)"
| await: "control s t = Waiting \<Longrightarrow> handlers s t = Finished \<Longrightarrow>
    protocol_step (Caller t) s (goto t Stopped (set_handler t NoHandler s))"
| clear: "control s t = Stopped \<Longrightarrow> protocol_step (Caller t) s (goto t Cleared (s\<lparr>interrupt := False\<rparr>))"
| close_client: "control s t = Cleared \<Longrightarrow>
    protocol_step (Caller t) s (goto t (Returning Interrupted) (s\<lparr>ctx_open := False\<rparr>))"
| close_now: "control s t = CloseEntered \<Longrightarrow>
    protocol_step (Caller t) s (goto t (Returning ClosedNow) (s\<lparr>ctx_open := False\<rparr>))"
| release: "control s t = Returning a \<Longrightarrow> protocol_step (Caller t) s (goto t (Returned a) (s\<lparr>busy := False\<rparr>))"
| call_again: "control s t = Returned a \<Longrightarrow>
    protocol_step (Caller t) s (goto t Outside (s\<lparr>cancelled := (cancelled s)(t := False)\<rparr>))"

inductive protocol_reachable :: "protocol \<Rightarrow> bool" where
  start: "protocol_reachable protocol_start"
| move: "protocol_reachable s \<Longrightarrow> protocol_step a s s' \<Longrightarrow> protocol_reachable s'"

inductive_cases handler_step: "protocol_step (Handler t) s s'"
inductive_cases canceller_step: "protocol_step (Canceller t) s s'"
inductive_simps caller_step: "protocol_step (Caller t) s s'"

lemma goto_simps [simp]:
  "busy (goto t p s) = busy s" "ctx_open (goto t p s) = ctx_open s" "interrupt (goto t p s) = interrupt s"
  "control (goto t p s) = (control s)(t := p)" "handlers (goto t p s) = handlers s"
  "cancelled (goto t p s) = cancelled s"
  "busy (set_handler t h s) = busy s" "ctx_open (set_handler t h s) = ctx_open s"
  "interrupt (set_handler t h s) = interrupt s" "control (set_handler t h s) = control s"
  "handlers (set_handler t h s) = (handlers s)(t := h)" "cancelled (set_handler t h s) = cancelled s"
  by (simp_all add: goto_def set_handler_def)

section \<open>Invariants\<close>

text \<open>The control points at which a caller holds \<^verbatim>\<open>busy\<close>, and those at which its handler has
  been started and not yet waited for.\<close>

fun inside :: "control \<Rightarrow> bool" where
  "inside Outside = False"
| "inside (Returned a) = False"
| "inside p = True"

fun operating :: "control \<Rightarrow> bool" where
  "operating Selecting = True"
| "operating Requested = True"
| "operating Waiting = True"
| "operating p = False"

fun interrupting :: "control \<Rightarrow> bool" where
  "interrupting Requested = True"
| "interrupting Waiting = True"
| "interrupting Stopped = True"
| "interrupting p = False"

definition protocol_inv :: "protocol \<Rightarrow> bool" where
  "protocol_inv s \<longleftrightarrow>
     (\<forall>t u. inside (control s t) \<longrightarrow> inside (control s u) \<longrightarrow> t = u) \<and>
     (busy s \<longleftrightarrow> (\<exists>t. inside (control s t))) \<and>
     (\<forall>t. handlers s t \<noteq> NoHandler \<longleftrightarrow> operating (control s t)) \<and>
     (\<forall>t. operating (control s t) \<longrightarrow> ctx_open s) \<and>
     (interrupt s \<longleftrightarrow> (\<exists>t. interrupting (control s t)))"

lemma operating_inside: "operating p \<Longrightarrow> inside p" "interrupting p \<Longrightarrow> inside p"
  by (cases p; simp)+

lemma inv_start: "protocol_inv protocol_start"
  by (simp add: protocol_inv_def protocol_start_def)

text \<open>The invariant seen from the goroutine that moves: what it says of the others when this one is
  inside, and when it is not.\<close>

lemma inv_inside:
  assumes "protocol_inv s" "inside (control s t)"
  shows "busy s" "u \<noteq> t \<Longrightarrow> \<not> inside (control s u)" "u \<noteq> t \<Longrightarrow> handlers s u = NoHandler"
    "interrupt s \<longleftrightarrow> interrupting (control s t)" "operating (control s t) \<Longrightarrow> ctx_open s"
    "handlers s t \<noteq> NoHandler \<longleftrightarrow> operating (control s t)"
  using assms operating_inside unfolding protocol_inv_def by metis+

lemma inv_free:
  assumes "protocol_inv s" "\<not> busy s"
  shows "\<not> inside (control s u)" "handlers s u = NoHandler" "\<not> interrupt s"
  using assms operating_inside unfolding protocol_inv_def by metis+

text \<open>A state in which one goroutine is inside satisfies the invariant as soon as the others are
  outside and this one's handler, the context and the interrupt fit its control point.\<close>

lemma inv_insideI:
  assumes "inside (control s t)" "busy s" "\<And>u. u \<noteq> t \<Longrightarrow> \<not> inside (control s u)"
    "\<And>u. u \<noteq> t \<Longrightarrow> handlers s u = NoHandler" "handlers s t \<noteq> NoHandler \<longleftrightarrow> operating (control s t)"
    "operating (control s t) \<Longrightarrow> ctx_open s" "interrupt s \<longleftrightarrow> interrupting (control s t)"
  shows "protocol_inv s"
  using assms operating_inside unfolding protocol_inv_def by metis

lemma inv_freeI:
  assumes "\<not> busy s" "\<And>u. \<not> inside (control s u)" "\<And>u. handlers s u = NoHandler" "\<not> interrupt s"
  shows "protocol_inv s"
  using assms operating_inside unfolding protocol_inv_def by metis

lemma inv_irrelevant:
  assumes "protocol_inv s" "busy s' = busy s" "ctx_open s' = ctx_open s" "interrupt s' = interrupt s"
    "handlers s' = handlers s" "\<And>t. inside (control s' t) = inside (control s t)"
    "\<And>t. operating (control s' t) = operating (control s t)"
    "\<And>t. interrupting (control s' t) = interrupting (control s t)"
  shows "protocol_inv s'"
  using assms unfolding protocol_inv_def by simp

lemma inv_step:
  assumes "protocol_step a s s'" "protocol_inv s" shows "protocol_inv s'"
  using assms(1)
proof (cases rule: protocol_step.cases)
  case (refuse t)
  then show ?thesis using assms(2) by (intro inv_irrelevant [OF assms(2)]) auto
next
  case (enter t)
  then show ?thesis using inv_free [OF assms(2)] by (intro inv_insideI [of _ t]) auto
next
  case (enter_close t)
  then show ?thesis using inv_free [OF assms(2)] by (intro inv_insideI [of _ t]) auto
next
  case (finish t)
  then have "inside (control s t)"
    using assms(2) operating_inside by (metis handler_state.distinct(1) protocol_inv_def)
  note facts = inv_inside [OF assms(2) this]
  show ?thesis
    using finish facts \<open>inside (control s t)\<close> by (intro inv_insideI [of _ t]) auto
next
  case (cancel t)
  then show ?thesis using assms(2) by (intro inv_irrelevant [OF assms(2)]) auto
next
  case (release t b)
  then show ?thesis using inv_inside [OF assms(2), of t] by (intro inv_freeI) (auto, metis)
next
  case (call_again t b)
  then show ?thesis using assms(2) by (intro inv_irrelevant [OF assms(2)]) auto
next
  case (found_closed t)
  then show ?thesis using inv_inside [OF assms(2), of t] by (intro inv_insideI [of _ t]) auto
next
  case (spawn t)
  then show ?thesis using inv_inside [OF assms(2), of t] by (intro inv_insideI [of _ t]) auto
next
  case (receive t)
  then show ?thesis using inv_inside [OF assms(2), of t] by (intro inv_insideI [of _ t]) auto
next
  case (request t)
  then show ?thesis using inv_inside [OF assms(2), of t] by (intro inv_insideI [of _ t]) auto
next
  case (interrupt_store t)
  then show ?thesis using inv_inside [OF assms(2), of t] by (intro inv_insideI [of _ t]) auto
next
  case (await t)
  then show ?thesis using inv_inside [OF assms(2), of t] by (intro inv_insideI [of _ t]) auto
next
  case (clear t)
  then show ?thesis using inv_inside [OF assms(2), of t] by (intro inv_insideI [of _ t]) auto
next
  case (close_client t)
  then show ?thesis using inv_inside [OF assms(2), of t] by (intro inv_insideI [of _ t]) auto
next
  case (close_now t)
  then show ?thesis using inv_inside [OF assms(2), of t] by (intro inv_insideI [of _ t]) auto
qed

lemma reachable_inv: "protocol_reachable s \<Longrightarrow> protocol_inv s"
  by (induction rule: protocol_reachable.induct) (auto intro: inv_start inv_step)

section \<open>What the protocol guarantees\<close>

text \<open>
  C7: at any time at most one call is between taking and releasing \<^verbatim>\<open>busy\<close>, and at most one
  handler goroutine exists, the one of that call; it never runs on a closed client.
\<close>

theorem middleware_exclusion:
  assumes "protocol_reachable s"
  shows "(inside (control s t) \<and> inside (control s u) \<longrightarrow> t = u) \<and>
    (handlers s t \<noteq> NoHandler \<longrightarrow> operating (control s t) \<and> ctx_open s \<and> busy s \<and>
      (handlers s u \<noteq> NoHandler \<longrightarrow> t = u))"
  using reachable_inv [OF assms] operating_inside unfolding protocol_inv_def by metis

text \<open>A run to compute with: goroutine 0 is in an operation that is cancelled, goroutine 1 waits.\<close>

definition sample_running :: protocol where
  "sample_running = goto 0 Selecting (set_handler 0 Running (goto 0 Entered (protocol_start\<lparr>busy := True\<rparr>)))"

definition sample_interrupted :: protocol where
  "sample_interrupted = goto 0 Requested (sample_running\<lparr>cancelled := (\<lambda>_. False)(0 := True), interrupt := True\<rparr>)"

definition sample_cleared :: protocol where
  "sample_cleared = goto 0 Cleared (goto 0 Stopped (set_handler 0 NoHandler
     (goto 0 Waiting (set_handler 0 Finished sample_interrupted)))\<lparr>interrupt := False\<rparr>)"

lemma sample_running_reachable: "protocol_reachable sample_running"
proof -
  have "protocol_reachable (goto 0 Entered (protocol_start\<lparr>busy := True\<rparr>))"
    by (rule move [OF start enter]) (simp_all add: protocol_start_def)
  then show ?thesis
    unfolding sample_running_def by (rule move [OF _ spawn]) (simp_all add: protocol_start_def)
qed

lemma sample_interrupted_reachable: "protocol_reachable sample_interrupted"
proof -
  have "protocol_reachable (sample_running\<lparr>cancelled := (cancelled sample_running)(0 := True)\<rparr>)"
    by (rule move [OF sample_running_reachable cancel])
  then have "protocol_reachable (goto 0 Requested
      (sample_running\<lparr>cancelled := (cancelled sample_running)(0 := True)\<rparr>\<lparr>interrupt := True\<rparr>))"
    by (rule move [OF _ request]) (simp_all add: sample_running_def)
  moreover have "cancelled sample_running = (\<lambda>_. False)"
    by (simp add: sample_running_def protocol_start_def)
  ultimately show ?thesis by (simp add: sample_interrupted_def)
qed

lemma sample_cleared_reachable: "protocol_reachable sample_cleared"
proof -
  have "protocol_reachable (set_handler 0 Finished sample_interrupted)"
    by (rule move [OF sample_interrupted_reachable finish])
      (simp add: sample_interrupted_def sample_running_def)
  then have "protocol_reachable (goto 0 Waiting (set_handler 0 Finished sample_interrupted))"
    by (rule move [OF _ interrupt_store]) (simp add: sample_interrupted_def)
  then have "protocol_reachable (goto 0 Stopped (set_handler 0 NoHandler
      (goto 0 Waiting (set_handler 0 Finished sample_interrupted))))"
    by (rule move [OF _ await]) simp_all
  then show ?thesis
    unfolding sample_cleared_def by (rule move [OF _ clear]) simp
qed

lemma middleware_exclusion_witness:
  "handlers sample_running 0 = Running \<and> ctx_open sample_running \<and> busy sample_running \<and>
   \<not> inside (control sample_running 1)"
  using middleware_exclusion [OF sample_running_reachable, of 0 1]
  by (auto simp: sample_running_def protocol_start_def)

text \<open>
  C11: the resources of the client are released only while no handler exists and no interrupt is
  pending, and a closed client is never reopened.
\<close>

theorem middleware_closes_idle:
  assumes "protocol_reachable s" "protocol_step a s s'"
  shows "(ctx_open s \<and> \<not> ctx_open s' \<longrightarrow> (\<forall>u. handlers s u = NoHandler) \<and> \<not> interrupt s) \<and>
    (\<not> ctx_open s \<longrightarrow> \<not> ctx_open s')"
proof -
  note inv = inv_inside [OF reachable_inv [OF assms(1)]]
  have idle: "(\<forall>u. handlers s u = NoHandler) \<and> \<not> interrupt s"
    if "inside (control s t)" "\<not> operating (control s t)" "\<not> interrupting (control s t)" for t
    using inv [OF that(1)] that by metis
  show ?thesis
    using assms(2)
  proof (cases rule: protocol_step.cases)
    case (close_client t)
    then show ?thesis using idle [of t] by auto
  next
    case (close_now t)
    then show ?thesis using idle [of t] by auto
  qed auto
qed

lemma middleware_closes_idle_witness:
  "ctx_open sample_cleared \<and> handlers sample_cleared 0 = NoHandler \<and>
   \<not> ctx_open (goto 0 (Returning Interrupted) (sample_cleared\<lparr>ctx_open := False\<rparr>))"
proof -
  have "protocol_step (Caller 0) sample_cleared (goto 0 (Returning Interrupted) (sample_cleared\<lparr>ctx_open := False\<rparr>))"
    by (rule close_client) (simp add: sample_cleared_def)
  from middleware_closes_idle [OF sample_cleared_reachable this] show ?thesis
    by (simp add: sample_cleared_def sample_interrupted_def sample_running_def protocol_start_def)
qed

text \<open>
  C10: the process-global interrupt flag is set exactly while a cancelled operation is waiting for its
  handler or about to clear it; whenever the client is not busy, and whenever an operation is still
  waiting for its handler undisturbed, it is clear: one cancelled operation does not interrupt the
  next.
\<close>

theorem middleware_interrupt_cleared:
  assumes "protocol_reachable s"
  shows "(interrupt s \<longleftrightarrow> (\<exists>t. interrupting (control s t))) \<and> (\<not> busy s \<longrightarrow> \<not> interrupt s) \<and>
    (control s t = Selecting \<longrightarrow> \<not> interrupt s)"
proof -
  note inv = reachable_inv [OF assms]
  have "\<not> busy s \<longrightarrow> \<not> interrupt s" using inv_free [OF inv] by blast
  moreover have "control s t = Selecting \<longrightarrow> \<not> interrupt s" using inv_inside [OF inv, of t] by auto
  ultimately show ?thesis using inv by (simp add: protocol_inv_def)
qed

lemma middleware_interrupt_cleared_witness:
  "interrupt sample_interrupted \<and> (\<exists>t. interrupting (control sample_interrupted t)) \<and> \<not> interrupt sample_cleared"
proof -
  have "interrupt sample_interrupted" by (simp add: sample_interrupted_def)
  then show ?thesis
    using middleware_interrupt_cleared [OF sample_interrupted_reachable] by (simp add: sample_cleared_def)
qed

section \<open>Calls return\<close>

text \<open>An upper bound on the steps a call and its handler still make.\<close>

fun steps_left :: "control \<Rightarrow> nat" where
  "steps_left Entered = 16"
| "steps_left Selecting = 12"
| "steps_left Requested = 10"
| "steps_left Waiting = 8"
| "steps_left Stopped = 6"
| "steps_left Cleared = 4"
| "steps_left CloseEntered = 4"
| "steps_left (Returning a) = 2"
| "steps_left p = 0"

definition remaining :: "nat \<Rightarrow> protocol \<Rightarrow> nat" where
  "remaining t s = steps_left (control s t) + (if handlers s t = Running then 1 else 0)"

lemma remaining_decreases:
  assumes "protocol_step a s s'" "inside (control s t)" "a = Caller t \<or> a = Handler t"
  shows "remaining t s' < remaining t s"
  using assms by (cases rule: protocol_step.cases) (auto simp: remaining_def)

lemma others_leave_alone:
  assumes "protocol_step a s s'" "a \<noteq> Caller t" "a \<noteq> Handler t"
  shows "control s' t = control s t" "handlers s' t = handlers s t"
  using assms by (cases rule: protocol_step.cases; auto)+

lemma own_step_enabled:
  assumes "protocol_inv s" "inside (control s t)"
  shows "\<exists>a s'. (a = Caller t \<or> a = Handler t) \<and> protocol_step a s s'"
proof -
  have "\<exists>s'. protocol_step (Handler t) s s'" if "handlers s t = Running"
    using that by (blast intro: finish)
  moreover have "\<exists>s'. protocol_step (Caller t) s s'" if "handlers s t \<noteq> Running"
  proof (cases "control s t")
    case Selecting
    then have "handlers s t = Finished"
      using that inv_inside(6) [OF assms] by (cases "handlers s t") auto
    with Selecting show ?thesis by (blast intro: receive)
  next
    case Waiting
    then have "handlers s t = Finished"
      using that inv_inside(6) [OF assms] by (cases "handlers s t") auto
    with Waiting show ?thesis by (blast intro: await)
  next
    case Entered
    then show ?thesis by (cases "ctx_open s") (blast intro: spawn found_closed)+
  qed (use assms(2) in \<open>auto intro: interrupt_store clear close_client close_now release\<close>)
  ultimately show ?thesis by blast
qed

text \<open>A run of \<open>n\<close> steps made by the call \<open>t\<close> or its handler.\<close>

inductive own_run :: "nat \<Rightarrow> nat \<Rightarrow> protocol \<Rightarrow> protocol \<Rightarrow> bool" for t where
  own_run_here: "own_run t 0 s s"
| own_run_step: "protocol_step a s s' \<Longrightarrow> a = Caller t \<or> a = Handler t \<Longrightarrow> own_run t n s' s'' \<Longrightarrow>
    own_run t (Suc n) s s''"

lemma stays_until_returned:
  assumes "protocol_step a s s'" "inside (control s t)" "a = Caller t \<or> a = Handler t"
  shows "inside (control s' t) \<or> (\<exists>r. control s' t = Returned r)"
  using assms by (cases rule: protocol_step.cases) auto

text \<open>
  C9: a call that has entered is never stuck: if its handler terminates it returns, after at most 17
  of its own steps, whatever state the other goroutines are in; each of these steps brings it closer.
\<close>

theorem middleware_call_returns:
  assumes "protocol_reachable s" "inside (control s t)"
  shows "\<exists>n s' r. n \<le> 17 \<and> own_run t n s s' \<and> control s' t = Returned r"
proof -
  have "\<exists>n s' r. n \<le> remaining t s \<and> own_run t n s s' \<and> control s' t = Returned r"
    using reachable_inv [OF assms(1)] assms(2)
  proof (induction "remaining t s" arbitrary: s rule: less_induct)
    case less
    obtain a s1 where a: "a = Caller t \<or> a = Handler t" and step: "protocol_step a s s1"
      using own_step_enabled [OF less.prems] by blast
    have smaller: "remaining t s1 < remaining t s" using remaining_decreases [OF step less.prems(2) a] .
    show ?case
    proof (cases "inside (control s1 t)")
      case True
      then obtain n s' r where "n \<le> remaining t s1" "own_run t n s1 s'" "control s' t = Returned r"
        using less.hyps [OF smaller inv_step [OF step less.prems(1)]] by blast
      then show ?thesis
        using own_run_step [OF step a] smaller by (intro exI [of _ "Suc n"]) auto
    next
      case False
      then obtain r where "control s1 t = Returned r"
        using stays_until_returned [OF step less.prems(2) a] by blast
      then show ?thesis
        using own_run_step [OF step a own_run_here] smaller by (intro exI [of _ "Suc 0"]) auto
    qed
  qed
  moreover have "remaining t s \<le> 17" by (cases "control s t") (auto simp: remaining_def)
  ultimately show ?thesis by (meson order_trans)
qed

lemma middleware_call_returns_witness:
  "\<exists>n s' r. n \<le> 17 \<and> own_run 0 n sample_interrupted s' \<and> control s' 0 = Returned r"
  by (rule middleware_call_returns [OF sample_interrupted_reachable]) (simp add: sample_interrupted_def)

section \<open>Calls terminate\<close>

text \<open>An interleaving of all goroutines, and of those who cancel, up to some point of the call \<open>t\<close>; \<open>n\<close>
  counts the steps that the call and its handler make.\<close>

inductive interleaved :: "nat \<Rightarrow> nat \<Rightarrow> protocol \<Rightarrow> protocol \<Rightarrow> bool" for t where
  stopped: "interleaved t 0 s s"
| own_move: "inside (control s t) \<Longrightarrow> protocol_step a s s' \<Longrightarrow> a = Caller t \<or> a = Handler t \<Longrightarrow>
    interleaved t n s' s'' \<Longrightarrow> interleaved t (Suc n) s s''"
| other_move: "protocol_step a s s' \<Longrightarrow> a \<noteq> Caller t \<Longrightarrow> a \<noteq> Handler t \<Longrightarrow>
    interleaved t n s' s'' \<Longrightarrow> interleaved t n s s''"

lemma remaining_bound: "remaining t s \<le> 17"
  by (cases "control s t") (auto simp: remaining_def)

lemma interleaved_remaining: "interleaved t n s s' \<Longrightarrow> n + remaining t s' \<le> remaining t s"
proof (induction rule: interleaved.induct)
  case (own_move s a s' n s'')
  then show ?case using remaining_decreases [of a s s' t] by simp
next
  case (other_move a s s' n s'')
  then show ?case using others_leave_alone [of a s s' t] by (simp add: remaining_def)
qed simp



end
