(* ===== verification/Locked_Flake.thy ===== *)
theory Locked_Flake
  imports Lock_Info Value_Getters Settings
begin

text \<open>
  \<^verbatim>\<open>flake/flake.go\<close>, \<^verbatim>\<open>flake/flake_options.go\<close> and
  \<^verbatim>\<open>flake/lock_mode.go\<close>: locking a flake reference, with its nest of temporaries that are
  released by deferred calls, and the locked flake's lifecycle. The concrete syntax of JSON is a
  parameter: \<open>render\<close> writes a document, \<open>parse\<close> reads one.
\<close>

section \<open>Options\<close>

type_synonym lock_mode = int

definition LockModeVirtual :: lock_mode where "LockModeVirtual = 0"
definition LockModeCheck :: lock_mode where "LockModeCheck = 1"
definition LockModeWriteAsNeeded :: lock_mode where "LockModeWriteAsNeeded = 2"

record input_override =
  ov_path :: string
  ov_ref :: string

record flake_config =
  baseDirectory :: string
  flake_mode :: lock_mode
  inputOverrides :: "input_override list"
  referenceLockInfo :: "lock_info option"

definition zero_flake_config :: flake_config where
  "zero_flake_config =
     \<lparr>baseDirectory = [], flake_mode = 0, inputOverrides = [], referenceLockInfo = None\<rparr>"

type_synonym flake_option = "flake_config \<Rightarrow> flake_config"

definition WithLockMode :: "lock_mode \<Rightarrow> flake_option" where
  "WithLockMode mode c = c\<lparr>flake_mode := mode\<rparr>"

definition WithInputOverride :: "string \<Rightarrow> string \<Rightarrow> flake_option" where
  "WithInputOverride input_path ref c =
     c\<lparr>inputOverrides := inputOverrides c @ [\<lparr>ov_path = input_path, ov_ref = ref\<rparr>]\<rparr>"

definition WithBaseDirectory :: "string \<Rightarrow> flake_option" where
  "WithBaseDirectory path c = c\<lparr>baseDirectory := path\<rparr>"

definition WithReferenceLockInfo :: "lock_info \<Rightarrow> flake_option" where
  "WithReferenceLockInfo info c = c\<lparr>referenceLockInfo := Some info\<rparr>"

section \<open>Locked flakes\<close>

record flake_ref =
  lf_id :: nat
  lf_ref :: string
  lf_fragment :: string
  lf_fingerprint :: string
  lf_json :: string
  lf_ctx :: context_ref
  lf_settings :: flakesettings_ref
  lf_evaluator :: evaluator_ref

definition flake_borrow :: "flake_ref \<Rightarrow> ptr res io" where
  "flake_borrow f = do {
     p \<leftarrow> get_ptr KLockedFlake (lf_id f);
     (case p of None \<Rightarrow> fail ErrClosed | Some p \<Rightarrow> ok p)
   }"

definition flake_close :: "flake_ref \<Rightarrow> unit res io" where
  "flake_close f = do {
     p \<leftarrow> get_ptr KLockedFlake (lf_id f);
     (case p of
        None \<Rightarrow> ok ()
      | Some p \<Rightarrow> do { raw_free (F (LockedFlakeFree p)); set_nil (lf_id f); ok () })
   }"

interpretation flk: wrapper KLockedFlake lf_id "\<lambda>p. F (LockedFlakeFree p)" flake_borrow flake_close
  by unfold_locales (auto intro: close_run_eq [OF flake_close_def] borrow_run_eq [OF flake_borrow_def])

lemmas [wp_intros] = flk.wp_borrow flk.wp_close

definition flake_fragment :: "flake_ref \<Rightarrow> string" where
  "flake_fragment f = lf_fragment f"

definition flake_fingerprint :: "flake_ref \<Rightarrow> string" where
  "flake_fingerprint f = lf_fingerprint f"

definition flake_lock_info :: "(string \<Rightarrow> json option) \<Rightarrow> flake_ref \<Rightarrow> lock_info res" where
  "flake_lock_info parse f =
     (case (case parse (lf_json f) of None \<Rightarrow> Inl (JsonErr ''syntax'') | Some v \<Rightarrow> unmarshal_info v) of
        Inl e \<Rightarrow> Inl (wrapf ''flake: failed to decode lock info: %w'' [] e)
      | Inr info \<Rightarrow> Inr info)"

definition apply_lock_mode :: "ptr \<Rightarrow> ptr \<Rightarrow> lock_mode \<Rightarrow> unit res io" where
  "apply_lock_mode raw_ctx flags mode =
     (if mode = LockModeVirtual then
        check_code raw_ctx (F (FlakeLockFlagsSetModeVirtual raw_ctx flags)) ''unknown lock mode: %w'' []
      else if mode = LockModeCheck then
        check_code raw_ctx (F (FlakeLockFlagsSetModeCheck raw_ctx flags)) ''unknown lock mode: %w'' []
      else if mode = LockModeWriteAsNeeded then
        check_code raw_ctx (F (FlakeLockFlagsSetModeWriteAsNeeded raw_ctx flags)) ''unknown lock mode: %w'' []
      else fail (errorf ''flake: invalid lock mode %d'' [ANum mode]))"

text \<open>
  \<^verbatim>\<open>err = status.FromContext(rawCtx)\<close> where \<^verbatim>\<open>err\<close> has the interface type
  \<^verbatim>\<open>error\<close>: the interface then holds a \<^verbatim>\<open>*NixError\<close>, and is not nil even when that
  pointer is.
\<close>

definition assigned_error :: "nix_error option \<Rightarrow> err option" where
  "assigned_error e = Some (nix_err e)"

text \<open>The cached metadata of a locked flake: the lock graph and the fingerprint.\<close>

definition flake_metadata :: "ptr \<Rightarrow> store_ref \<Rightarrow> ptr \<Rightarrow> ptr \<Rightarrow> (string \<times> string) res io" where
  "flake_metadata raw_ctx s gp locked = do {
     json_ptr \<leftarrow> raw_str (F (LockedFlakeGetLockJson raw_ctx locked));
     (case json_ptr of
        None \<Rightarrow> do {
          e \<leftarrow> from_context raw_ctx;
          (case assigned_error e of
             Some er \<Rightarrow> fail (wrapf ''flake: failed to get lock json: %w'' [] er)
           | None \<Rightarrow> fail (errorf ''flake: failed to get lock json'' []))
        }
      | Some json_ptr \<Rightarrow> do {
          json \<leftarrow> take_cstring (Some json_ptr);
          chk (store_borrow s) (wrapf ''flake: failed to borrow store: %w'' []) (\<lambda>sp. do {
            fp \<leftarrow> raw_str (F (LockedFlakeGetFingerprint raw_ctx sp gp locked));
            (case fp of
               None \<Rightarrow> do {
                 e \<leftarrow> from_context raw_ctx;
                 (case assigned_error e of
                    Some er \<Rightarrow> fail (wrapf ''flake: failed to get fingerprint: %w'' [] er)
                  | None \<Rightarrow> ok (json, []))
               }
             | Some fp \<Rightarrow> do { x \<leftarrow> take_cstring (Some fp); ok (json, x) })
          })
        })
   }"

text \<open>From \<^verbatim>\<open>FlakeLock\<close> to the end; an error releases the locked flake.\<close>

definition flake_lock ::
  "ptr \<Rightarrow> ptr \<Rightarrow> ptr \<Rightarrow> ptr \<Rightarrow> ptr \<Rightarrow> ptr option \<Rightarrow> store_ref \<Rightarrow> (nat \<Rightarrow> string \<Rightarrow> string \<Rightarrow> flake_ref) \<Rightarrow>
   flake_ref res io" where
  "flake_lock raw_ctx gp fp state lock_flags ref_ptr s build =
     chk (check_ptr raw_ctx (F (FlakeLock raw_ctx gp fp state lock_flags ref_ptr))
         ''flake: failed to lock reference: %w'' []) (\<lambda>e. e) (\<lambda>locked.
     attempt (flake_metadata raw_ctx s gp locked)
       (\<lambda>e. do { raw_free (F (LockedFlakeFree locked)); fail e })
       (\<lambda>(json, fingerprint). do {
          i \<leftarrow> new_cell KLockedFlake locked;
          ok (build i json fingerprint)
        }))"

text \<open>\<^verbatim>\<open>x := alloc(...); if x == nil { return err }; defer free(x)\<close> around the rest.\<close>

definition scoped :: "ptr res io \<Rightarrow> (ptr \<Rightarrow> call) \<Rightarrow> (ptr \<Rightarrow> 'a res io) \<Rightarrow> 'a res io" where
  "scoped alloc free k =
     chk alloc (\<lambda>e. e) (\<lambda>p. do { r \<leftarrow> k p; raw_free (free p); State_Monad.return r })"

text \<open>The reference taken out of a parse result is not checked for nil; releasing a nil one does
  nothing in the C library.\<close>

definition free_ref :: "ptr option \<Rightarrow> unit io" where
  "free_ref r = (case r of None \<Rightarrow> State_Monad.return () | Some p \<Rightarrow> raw_free (F (FlakeReferenceFree p)))"

definition scoped_ref :: "ptr \<Rightarrow> (ptr option \<Rightarrow> 'a res io) \<Rightarrow> 'a res io" where
  "scoped_ref result k = do {
     ref \<leftarrow> raw_ptr (F (FlakeReferenceResultTakeReference result));
     r \<leftarrow> k ref;
     free_ref ref;
     State_Monad.return r
   }"

fun with_overrides ::
  "ptr \<Rightarrow> ptr \<Rightarrow> ptr \<Rightarrow> ptr \<Rightarrow> ptr \<Rightarrow> input_override list \<Rightarrow> 'a res io \<Rightarrow> 'a res io" where
  "with_overrides raw_ctx gp fp parse_flags lock_flags [] k = k"
| "with_overrides raw_ctx gp fp parse_flags lock_flags (o1 # os) k =
     scoped (check_ptr raw_ctx (F (FlakeReferenceAndFragmentFromString raw_ctx gp fp parse_flags
           (ov_ref o1) (length (ov_ref o1)))) ''flake: failed to parse override reference %q: %w'' [AStr (ov_ref o1)])
       (\<lambda>p. F (FlakeReferenceResultFree p)) (\<lambda>result.
     scoped_ref result (\<lambda>ref.
     chk (check_code raw_ctx (F (FlakeLockFlagsAddInputOverride raw_ctx lock_flags (ov_path o1) ref))
         ''flake: failed to add input override '%q': %w'' [AStr (ov_path o1)]) (\<lambda>e. e) (\<lambda>_.
     with_overrides raw_ctx gp fp parse_flags lock_flags os k)))"

definition set_reference_lock :: "(json \<Rightarrow> string) \<Rightarrow> ptr \<Rightarrow> ptr \<Rightarrow> lock_info option \<Rightarrow> unit res io" where
  "set_reference_lock render raw_ctx lock_flags info =
     (case info of
        None \<Rightarrow> ok ()
      | Some info \<Rightarrow>
          (case marshal_info info of
             Inl e \<Rightarrow> fail (wrapf ''flake: failed to encode reference lock info: %w'' [] e)
           | Inr j \<Rightarrow>
               check_code raw_ctx (F (FlakeLockFlagsSetReferenceLockJson raw_ctx lock_flags (render j)
                 (length (render j)))) ''flake: failed to set reference lock info: %w'' []))"

definition set_base_directory :: "ptr \<Rightarrow> ptr \<Rightarrow> string \<Rightarrow> unit res io" where
  "set_base_directory raw_ctx parse_flags dir =
     (if dir \<noteq> [] then
        check_code raw_ctx (F (FlakeReferenceParseFlagsSetBaseDirectory raw_ctx parse_flags dir (length dir)))
          ''flake: failed to set base directory: %w'' []
      else ok ())"

definition flake_new ::
  "(json \<Rightarrow> string) \<Rightarrow> context_ref \<Rightarrow> store_ref \<Rightarrow> fetchers_ref \<Rightarrow> flakesettings_ref \<Rightarrow> evaluator_ref \<Rightarrow>
   string \<Rightarrow> flake_option list \<Rightarrow> flake_ref res io" where
  "flake_new render ctx s fetch_settings flake_settings evaluator ref opts =
     (let cfg = apply_options opts zero_flake_config in
     chk (context_borrow ctx) (wrapf ''flake: borrow context: %w'' []) (\<lambda>raw_ctx.
     chk (evaluator_borrow evaluator) (wrapf ''flake: failed to borrow evaluator: %w'' []) (\<lambda>state.
     chk (fetchers_borrow fetch_settings) (wrapf ''flake: failed to borrow fetch settings: %w'' []) (\<lambda>gp.
     chk (flakesettings_borrow flake_settings) (wrapf ''flake: failed to borrow flake settings: %w'' []) (\<lambda>fp.
     scoped (check_ptr raw_ctx (F (FlakeReferenceParseFlagsNew raw_ctx fp))
         ''flake: failed to create parse flags: %w'' [])
       (\<lambda>p. F (FlakeReferenceParseFlagsFree p)) (\<lambda>parse_flags.
     chk (set_base_directory raw_ctx parse_flags (baseDirectory cfg)) (\<lambda>e. e) (\<lambda>_.
     scoped (check_ptr raw_ctx (F (FlakeReferenceAndFragmentFromString raw_ctx gp fp parse_flags ref (length ref)))
         ''flake: failed to parse reference %q: %w'' [AStr ref])
       (\<lambda>p. F (FlakeReferenceResultFree p)) (\<lambda>result.
     scoped_ref result (\<lambda>ref_ptr. do {
       fragment \<leftarrow> take_raw (F (FlakeReferenceResultTakeFragment result));
       scoped (check_ptr raw_ctx (F (FlakeLockFlagsNew raw_ctx fp))
           ''flake: failed to create lock flags: %w'' [])
         (\<lambda>p. F (FlakeLockFlagsFree p)) (\<lambda>lock_flags.
       chk (apply_lock_mode raw_ctx lock_flags (flake_mode cfg))
         (wrapf ''flake: failed to set lock mode: %w'' []) (\<lambda>_.
       chk (set_reference_lock render raw_ctx lock_flags (referenceLockInfo cfg)) (\<lambda>e. e) (\<lambda>_.
       with_overrides raw_ctx gp fp parse_flags lock_flags (inputOverrides cfg)
         (flake_lock raw_ctx gp fp state lock_flags ref_ptr s (\<lambda>i json fingerprint.
           \<lparr>lf_id = i, lf_ref = ref, lf_fragment = fragment, lf_fingerprint = fingerprint, lf_json = json,
            lf_ctx = ctx, lf_settings = flake_settings, lf_evaluator = evaluator\<rparr>)))))
     })))))))))"

definition output_attrs :: "flake_ref \<Rightarrow> value_ref res io" where
  "output_attrs f = do {
     p \<leftarrow> get_ptr KLockedFlake (lf_id f);
     (case p of
        None \<Rightarrow> fail ErrClosed
      | Some lp \<Rightarrow>
          chk (context_borrow (lf_ctx f)) (wrapf ''flake: failed to borrow context: %w'' []) (\<lambda>raw_ctx.
          chk (evaluator_borrow (lf_evaluator f)) (wrapf ''flake: failed to borrow evaluator: %w'' []) (\<lambda>state.
          chk (flakesettings_borrow (lf_settings f)) (wrapf ''flake: failed to borrow flake settings: %w'' []) (\<lambda>fp.
          chk (check_ptr raw_ctx (F (LockedFlakeGetOutputAttrs raw_ctx fp state lp))
              ''flake: failed to get output attrs: %w'' []) (\<lambda>e. e) (\<lambda>ptr.
          attempt (wrap_value (lf_evaluator f) ptr)
            (\<lambda>er. do {
               code \<leftarrow> raw_code (E (ValueDecref raw_ctx ptr));
               (if code \<noteq> ErrorCodeOK
                then fail_status raw_ctx ''flake: failed to wrap output attrs and decref value: %w'' []
                else fail (wrapf ''flake: failed to wrap output attrs: %w'' [] er))
             })
            ok)))))
   }"

section \<open>Ledger\<close>

lemma creates_with_hist [simp]: "creates k f (with_hist h w) = creates k f w"
  by (simp add: creates_def fun_eq_iff)

text \<open>\<open>wider w w'\<close>: \<open>w'\<close> may hold more temporaries than \<open>w\<close>.\<close>

definition wider :: "world \<Rightarrow> world \<Rightarrow> bool" where
  "wider w w' \<longleftrightarrow> ext w w' \<and> live w \<subseteq># live w'"

lemma wider_simps [simp]:
  "wider w w" "wider w (with_hist h w') = wider w w'" "wider w w' \<Longrightarrow> wider w (gain x w')"
  by (simp_all add: wider_def subset_add_mset_trans)

lemma wider_from_hist [simp]: "wider (with_hist h w) w' = wider w w'"
  by (simp add: wider_def ext_def)

lemma wider_live: "wider w w' \<Longrightarrow> x \<in># live w \<Longrightarrow> x \<in># live w'"
  by (auto simp: wider_def dest: mset_subset_eqD)

lemma via_same: "same w0 w \<Longrightarrow> wp m (creates k f w) w \<Longrightarrow> wp m (creates k f w0) w"
  by (auto simp: same_def)

lemma wider_trans: "wider w w' \<Longrightarrow> wider w' w'' \<Longrightarrow> wider w w''"
  unfolding wider_def by (blast intro: ext_trans subset_mset.order_trans)

lemma wider_ready: "wider w w' \<Longrightarrow> safe w' \<Longrightarrow> ready w hs \<Longrightarrow> ready w' hs"
  by (auto simp: wider_def ready_def dest: mset_subset_eqD)

text \<open>The end of a scope: the handle is released, and what was created stays.\<close>

lemma wp_scope_end:
  assumes "wp m (creates k f w1) w1" "w1 = with_hist h (gain x w)" "safe w" "frees c = Some x" "uses c = []"
  shows "wp (do { r \<leftarrow> m; raw_free c; State_Monad.return r }) (creates k f w) w1"
  unfolding wp_bind wp_return
  using assms(1)
proof (rule wp_mono)
  fix r w' assume c: "creates k f w1 r w'"
  then have g: "grows (gain x w) w'" by (simp add: assms(2) creates_def)
  then have "grows w (drop_handle x w')" using assms(3) by (rule grows_gain_drop)
  moreover have "ready w' [x]"
    using g assms(3) by (auto simp: ready_def grows_safe intro: grows_live)
  ultimately show "wp (raw_free c) (\<lambda>_. creates k f w r) w'"
    using c assms(2,4,5) by (auto simp: creates_def intro!: wp_free)
qed

lemma wp_scoped:
  assumes "safe w" "ready w ((KContext, raw_ctx) # uses c)" "frees c = None"
    "\<And>p. frees (free p) = Some (kind_of c, p)" "\<And>p. uses (free p) = []"
    "\<And>p h. wp (k p) (creates kd f (with_hist h (gain (kind_of c, p) w))) (with_hist h (gain (kind_of c, p) w))"
  shows "wp (scoped (check_ptr raw_ctx c fmt args) free k) (creates kd f w) w"
  unfolding scoped_def wp_chk
proof (rule wp_check_ptr [OF assms(2,3)], goal_cases)
  case (1 p h)
  then show ?case
    using wp_scope_end [OF assms(6) _ assms(1) assms(4) assms(5)] by simp
next
  case (2 e h)
  then show ?case by simp
qed

lemma wp_scoped_ref:
  assumes "safe w" "(KRefResult, result) \<in># live w"
    "\<And>h. wp (k None) (creates kd f (with_hist h w)) (with_hist h w)"
    "\<And>p h. wp (k (Some p)) (creates kd f (with_hist h (gain (KRef, p) w))) (with_hist h (gain (KRef, p) w))"
  shows "wp (scoped_ref result k) (creates kd f w) w"
proof -
  have "wp (do { r \<leftarrow> k (Some p); raw_free (F (FlakeReferenceFree p)); State_Monad.return r })
      (creates kd f w) (with_hist h (gain (KRef, p) w))" for p h
    using assms(1) by (intro wp_scope_end [OF assms(4)]) auto
  then show ?thesis
    unfolding scoped_ref_def free_ref_def using assms(1-3)
    by (auto simp: wp_rules intro!: wp_raw_ptr_ready)
qed

text \<open>The layers, from the inside out.\<close>

lemma wp_flake_metadata:
  assumes "safe w" "ready w [(KContext, raw_ctx), (KFetchers, gp), (KLockedFlake, locked)]"
    "\<And>e h. Q (Inl e) (with_hist h w)" "\<And>x h. Q (Inr x) (with_hist h w)"
  shows "wp (flake_metadata raw_ctx s gp locked) Q w"
  unfolding flake_metadata_def assigned_error_def using assms
  by (auto simp: wp_rules intro!: wp_intros wp_from_context split: option.split)

lemma flake_lock_creates:
  assumes "safe w" "ready w ([(KContext, raw_ctx), (KFetchers, gp), (KFlakeSettings, fp), (KState, st),
      (KLockFlags, ls)] @ ref_opt r)" "\<And>i j f. lf_id (build i j f) = i"
  shows "wp (flake_lock raw_ctx gp fp st ls r s build) (creates KLockedFlake lf_id w) w"
  unfolding flake_lock_def using assms
  by (auto simp: wp_rules intro!: wp_check_ptr wp_flake_metadata wp_free)

lemma overrides_creates:
  assumes "safe w" "ready w [(KContext, raw_ctx), (KFetchers, gp), (KFlakeSettings, fp), (KParseFlags, ps),
      (KLockFlags, ls)]"
    "\<And>w'. wider w w' \<Longrightarrow> safe w' \<Longrightarrow> wp k (creates kd f w') w'"
  shows "wp (with_overrides raw_ctx gp fp ps ls os k) (creates kd f w) w"
  using assms
proof (induction os arbitrary: w)
  case Nil
  then show ?case by simp
next
  case (Cons o1 os)
  have rest: "wp (with_overrides raw_ctx gp fp ps ls os k) (creates kd f w') w'"
    if "wider w w'" "safe w'" for w'
    using that Cons.prems by (intro Cons.IH) (auto simp: ready_def intro: wider_trans wider_live)
  have add: "wp (chk (check_code raw_ctx (F (FlakeLockFlagsAddInputOverride raw_ctx ls path r)) fmt args) (\<lambda>e. e)
      (\<lambda>_. with_overrides raw_ctx gp fp ps ls os k)) (creates kd f w') w'"
    if "wider w w'" "safe w'" "ready w' (ref_opt r)" for w' r path fmt args
    using that wider_ready [OF that(1,2) Cons.prems(2)] rest [of "with_hist _ w'"]
    by (auto simp: wp_rules ready_def intro!: wp_check_code)
  show ?case
    unfolding with_overrides.simps
    using Cons.prems(1,2)
    by (intro wp_scoped)
      (auto simp: ready_def intro!: via_same [OF _ wp_scoped_ref] via_same [OF _ add])
qed

lemma set_base_directory_same:
  assumes "ready w [(KContext, raw_ctx), (KParseFlags, ps)]" "\<And>r h. Q r (with_hist h w)"
  shows "wp (set_base_directory raw_ctx ps dir) Q w"
proof -
  have "Q r w" for r using assms(2) [of r "hist w"] by simp
  then show ?thesis
    unfolding set_base_directory_def using assms by (auto simp: wp_rules intro!: wp_check_code)
qed

lemma set_reference_lock_same:
  assumes "ready w [(KContext, raw_ctx), (KLockFlags, ls)]" "\<And>r h. Q r (with_hist h w)"
  shows "wp (set_reference_lock render raw_ctx ls info) Q w" "wp (apply_lock_mode raw_ctx ls mode) Q w"
proof -
  have "Q r w" for r using assms(2) [of r "hist w"] by simp
  then show "wp (set_reference_lock render raw_ctx ls info) Q w" "wp (apply_lock_mode raw_ctx ls mode) Q w"
    unfolding set_reference_lock_def apply_lock_mode_def using assms
    by (auto simp: wp_rules intro!: wp_check_code split: option.split sum.split)
qed

text \<open>The layers of \<^verbatim>\<open>New\<close> that need the lock flags, and those around them.\<close>

lemma locking_creates:
  assumes "safe w" "ready w ([(KContext, raw_ctx), (KFetchers, gp), (KFlakeSettings, fp), (KState, st),
      (KParseFlags, ps)] @ ref_opt r)" "\<And>i j f. lf_id (build i j f) = i"
  shows "wp (scoped (check_ptr raw_ctx (F (FlakeLockFlagsNew raw_ctx fp)) fmt args)
      (\<lambda>p. F (FlakeLockFlagsFree p)) (\<lambda>ls.
      chk (apply_lock_mode raw_ctx ls mode) wrap (\<lambda>_.
      chk (set_reference_lock render raw_ctx ls info) (\<lambda>e. e) (\<lambda>_.
      with_overrides raw_ctx gp fp ps ls os (flake_lock raw_ctx gp fp st ls r s build)))))
    (creates KLockedFlake lf_id w) w"
proof (rule wp_scoped)
  fix p h
  let ?w = "with_hist h (gain (kind_of (F (FlakeLockFlagsNew raw_ctx fp)), p) w)"
  have ready: "ready ?w (([(KContext, raw_ctx), (KFetchers, gp), (KFlakeSettings, fp), (KState, st),
      (KLockFlags, p)] @ ref_opt r) @ [(KParseFlags, ps)])"
    using assms(1,2) by (auto simp: ready_def)
  have lock: "wp (flake_lock raw_ctx gp fp st p r s build) (creates KLockedFlake lf_id w') w'"
    if "wider ?w w'" "safe w'" for w'
    using wider_ready [OF that ready] that(2) assms(3) by (intro flake_lock_creates) (auto simp: ready_def)
  have "wp (with_overrides raw_ctx gp fp ps p os (flake_lock raw_ctx gp fp st p r s build))
      (creates KLockedFlake lf_id (with_hist h' ?w)) (with_hist h' ?w)" for h'
    using ready assms(1) by (intro overrides_creates lock) (auto simp: ready_def)
  then show "wp (chk (apply_lock_mode raw_ctx p mode) wrap (\<lambda>_.
      chk (set_reference_lock render raw_ctx p info) (\<lambda>e. e) (\<lambda>_.
      with_overrides raw_ctx gp fp ps p os (flake_lock raw_ctx gp fp st p r s build))))
      (creates KLockedFlake lf_id ?w) ?w"
    using ready assms(1)
    by (auto simp: wp_rules ready_def intro!: set_reference_lock_same split: sum.split)
qed (use assms in \<open>auto simp: ready_def\<close>)

lemma flake_new_creates:
  assumes "safe w"
  shows "wp (flake_new render ctx s fs fls e ref opts) (creates KLockedFlake lf_id w) w"
  unfolding flake_new_def Let_def
  using assms
  by (auto simp: wp_rules ready_def
      intro!: ctx.wp_borrow eva.wp_borrow fetch.wp_borrow flset.wp_borrow via_same [OF _ wp_scoped]
        via_same [OF _ wp_scoped_ref] set_base_directory_same wp_take_raw via_same [OF _ locking_creates] split: sum.split)

lemma output_attrs_creates: "safe w \<Longrightarrow> wp (output_attrs f) (creates KValue val_id w) w"
  unfolding output_attrs_def
  by (auto simp: wp_rules ptr_at_cell ptr_at_Some safe_cell_live
      intro!: ctx.wp_borrow eva.wp_borrow flset.wp_borrow wp_check_ptr wp_wrap_value
      split: option.split sum.split)

end
