(* ===== verification/Ownership.thy ===== *)
theory Ownership
  imports Locked_Flake Store_Copy Derivation
begin

text \<open>
  Whole wrappers as a ledger: which wrappers an operation has added since some earlier world
  (\<open>only\<close>) and which it has closed (\<open>shut\<close>). The constructors and the destructors of the SDK are
  restated in these terms, so that a function that creates and releases many of them, like
  \<^verbatim>\<open>NewClient\<close>, is reasoned about without its handles.
\<close>

section \<open>Closing\<close>

definition opt_list :: "'a option \<Rightarrow> 'a list" where
  "opt_list x = (case x of None \<Rightarrow> [] | Some a \<Rightarrow> [a])"

lemma opt_list_simps [simp]: "opt_list None = []" "opt_list (Some a) = [a]"
  by (simp_all add: opt_list_def)

text \<open>\<open>shut ks w w'\<close>: the wrappers of the list \<open>ks\<close> (kinds and identities) are closed, whether they
  were open before or not, and nothing else happened to any wrapper.\<close>

definition shut :: "(kind \<times> nat) list \<Rightarrow> world \<Rightarrow> world \<Rightarrow> bool" where
  "shut ks w w' \<longleftrightarrow> balanced w w' \<and> nix w' = nix w \<and> next_ref w' = next_ref w \<and>
     (\<forall>k i. ptr_at k i w' = (if (k, i) \<in> set ks then None else ptr_at k i w))"

lemma shut_with_hist [simp]: "shut ks w (with_hist h w') = shut ks w w'" "shut ks (with_hist h w) w' = shut ks w w'"
  by (simp_all add: shut_def balanced_def ptr_at_def)

lemma shut_nil [simp]: "shut [] w w"
  by (simp add: shut_def balanced_def)

lemma shut_trans: "shut ks w w' \<Longrightarrow> shut ls w' w'' \<Longrightarrow> shut (ks @ ls) w w''"
  by (auto simp: shut_def balanced_def)

lemma shut_safe: "shut ks w w' \<Longrightarrow> safe w' = safe w"
  by (simp add: shut_def balanced_safe)

lemma shut_sound: "shut ks w w' \<Longrightarrow> sound T w' = sound T w"
  by (simp add: shut_def balanced_def)

lemma shut_closed: "shut ks w w' \<Longrightarrow> (k, i) \<in> set ks \<Longrightarrow> ptr_at k i w' = None"
  by (simp add: shut_def)

lemma shut_other: "shut ks w w' \<Longrightarrow> (k, i) \<notin> set ks \<Longrightarrow> ptr_at k i w' = ptr_at k i w"
  by (simp add: shut_def)

lemma shut_cell:
  assumes "safe w" "cells w i = Some (k, p)"
  shows "shut [(k, i)] w (clear_cell i (drop_handle (k, p) w))"
proof -
  have "(k, p) \<in># live w" using assms by (rule safe_cell_live)
  then have "balanced w (clear_cell i (drop_handle (k, p) w))"
    using assms by (simp add: balanced_def sound_close_cell)
  then show ?thesis using assms(2) by (auto simp: shut_def ptr_at_def)
qed

lemma shut_absent: "ptr_at k i w = None \<Longrightarrow> shut [(k, i)] w w"
  by (auto simp: shut_def balanced_def)

text \<open>Every wrapper of the SDK closes this way.\<close>

context wrapper
begin

lemma close_shuts: "safe w \<Longrightarrow> wp (close r) (\<lambda>e w'. e = Inr () \<and> shut [(kind, ident r)] w w') w"
  by (rule wp_close) (auto simp: shut_absent shut_cell)

end

section \<open>Owning\<close>

text \<open>\<open>only ps w w'\<close>: since \<open>w\<close> the ledger stayed balanced, and of the wrappers made since then the
  open ones are those of \<open>ps\<close>.\<close>

definition only :: "(kind \<times> nat) list \<Rightarrow> world \<Rightarrow> world \<Rightarrow> bool" where
  "only ps w w' \<longleftrightarrow> grows w w' \<and> distinct (map snd ps) \<and>
     (\<forall>k i. (k, i) \<in> set ps \<longrightarrow> next_ref w \<le> i) \<and>
     (\<forall>k i. next_ref w \<le> i \<longrightarrow> (ptr_at k i w' \<noteq> None) = ((k, i) \<in> set ps))"

lemma ptr_at_outside: "safe w \<Longrightarrow> next_ref w \<le> i \<Longrightarrow> ptr_at k i w = None"
  using safe_wf [of w] by (simp add: wf_cells_def ptr_at_def)

lemma only_nil: "safe w \<Longrightarrow> only [] w w"
  by (simp add: only_def ptr_at_outside)

lemma only_with_hist [simp]: "only ps w (with_hist h w') = only ps w w'" "only ps (with_hist h w) w' = only ps w w'"
  by (simp_all add: only_def ptr_at_def)

lemma only_grows: "only ps w w' \<Longrightarrow> grows w w'"
  by (simp add: only_def)

lemma only_safe: "only ps w w' \<Longrightarrow> safe w \<Longrightarrow> safe w'"
  using only_grows grows_safe by blast

lemma only_open: "only ps w w' \<Longrightarrow> (k, i) \<in> set ps \<Longrightarrow> ptr_at k i w' \<noteq> None"
  by (auto simp: only_def)

text \<open>A new wrapper; closing some; a wrapper abandoned before it was handed out.\<close>

lemma only_alloc:
  assumes "only ps w w'" "safe w"
  shows "only ((k, next_ref w') # ps) w (gain (k, p) (alloc_cell (k, p) w'))"
proof -
  have safe: "safe w'" using assms by (rule only_safe)
  have le: "next_ref w \<le> next_ref w'" using assms(1) by (simp add: only_def grows_next)
  then have fresh: "next_ref w' \<notin> snd ` set ps"
    using only_open [OF assms(1)] ptr_at_outside [OF safe] by fastforce
  have "ptr_at k' i (gain (k, p) (alloc_cell (k, p) w')) \<noteq> None \<longleftrightarrow>
      (k', i) = (k, next_ref w') \<or> ptr_at k' i w' \<noteq> None" for k' i
    using ptr_at_outside [OF safe] by (auto simp: ptr_at_def)
  then show ?thesis
    using assms(1) safe le fresh by (auto simp: only_def)
qed

lemma cells_eqI:
  assumes "\<And>k. ptr_at k i w = ptr_at k i w'" shows "cells w i = cells w' i"
proof (cases "cells w i")
  case None
  then have "ptr_at k i w' = None" for k using assms [of k] by (simp add: ptr_at_def)
  from this [of "fst (the (cells w' i))"] show ?thesis
    using None by (auto simp: ptr_at_def split: option.splits)
next
  case (Some h)
  then show ?thesis using assms [of "fst h"] by (cases h) (metis fst_conv ptr_at_Some)
qed

lemma only_shut:
  assumes "only ps w w'" "shut ks w' w''" "safe w" "set ks \<subseteq> set ps"
  shows "only (filter (\<lambda>x. x \<notin> set ks) ps) w w''"
proof -
  have new: "(k, i) \<in> set ks \<Longrightarrow> next_ref w \<le> i" for k i using assms(1,4) by (auto simp: only_def)
  have safe: "safe w'" using assms(1,3) by (rule only_safe)
  have "cells w'' i = cells w' i" if "i < next_ref w" for i
    using that assms(2) new by (intro cells_eqI) (fastforce simp: shut_def)
  then have "ext w w''"
    using assms(1,2) by (auto simp: only_def shut_def grows_def ext_def)
  moreover have "balanced w w''"
    using assms(1,2) by (simp add: only_def shut_def grows_def balanced_def)
  ultimately have "grows w w''" using assms(3) by (intro growsI)
  then show ?thesis
    using assms(1,2) by (auto simp: only_def shut_def distinct_map inj_on_def)
qed

lemma only_close_all: "only ps w w' \<Longrightarrow> shut ps w' w'' \<Longrightarrow> safe w \<Longrightarrow> only [] w w''"
  using only_shut [of ps w w' ps w''] by simp

text \<open>What a constructor leaves: on success one wrapper more, on failure none.\<close>

definition adds :: "kind \<Rightarrow> ('r \<Rightarrow> nat) \<Rightarrow> (kind \<times> nat) list \<Rightarrow> world \<Rightarrow> 'r res \<Rightarrow> world \<Rightarrow> bool" where
  "adds k ident ps w r w' \<longleftrightarrow>
     (case r of Inl e \<Rightarrow> only ps w w' | Inr q \<Rightarrow> only ((k, ident q) # ps) w w')"

lemma adds_simps [simp]:
  "adds k f ps w (Inl e) w' = only ps w w'" "adds k f ps w (Inr q) w' = only ((k, f q) # ps) w w'"
  by (simp_all add: adds_def)

lemma wp_adds:
  assumes "wp m (adds k f ps w0) w" "\<And>e w'. only ps w0 w' \<Longrightarrow> Q (Inl e) w'"
    "\<And>q w'. only ((k, f q) # ps) w0 w' \<Longrightarrow> Q (Inr q) w'"
  shows "wp m Q w"
  using assms(1)
proof (rule wp_mono)
  fix r w' assume "adds k f ps w0 r w'"
  then show "Q r w'" using assms(2,3) by (cases r) auto
qed

lemma constructors_add:
  assumes "safe w0" "only ps w0 w"
  shows "wp (fetchers_new ctx) (adds KFetchers fs_id ps w0) w"
    "wp (flakesettings_new ctx) (adds KFlakeSettings fl_id ps w0) w"
    "wp (store_new order ctx uri opts) (adds KStore store_id ps w0) w"
    "wp (evaluator_new ctx s eopts) (adds KState ev_id ps w0) w"
proof -
  have safe: "safe w" using assms by (simp add: only_safe)
  have alloc: "only ((k, next_ref w) # ps) w0 (gain (k, p) (alloc_cell (k, p) w))" for k p
    using only_alloc [OF assms(2,1)] .
  show "wp (fetchers_new ctx) (adds KFetchers fs_id ps w0) w"
    "wp (flakesettings_new ctx) (adds KFlakeSettings fl_id ps w0) w"
    unfolding fetchers_new_def flakesettings_new_def using assms safe alloc
    by (auto simp: wp_rules intro!: wp_intros split: option.split sum.split)
  show "wp (store_new order ctx uri opts) (adds KStore store_id ps w0) w"
    unfolding store_new_def Let_def using assms safe alloc
    by (auto simp: wp_rules intro!: wp_intros wp_store_metadata split: option.split sum.split)
  show "wp (evaluator_new ctx s eopts) (adds KState ev_id ps w0) w"
    unfolding evaluator_new_def Let_def using assms safe alloc
    by (auto simp: wp_rules intro!: wp_intros wp_build_state split: option.split sum.split)
qed

lemma context_new_adds:
  assumes "safe w" shows "wp (context_new b) (adds KContext ctx_id [] w) w"
proof -
  have alloc: "only [(KContext, next_ref w)] w (gain (KContext, p) (alloc_cell (KContext, p) w))" for p
    using only_alloc [OF only_nil [OF assms] assms] .
  have clear: "only [] w (clear_cell (next_ref w) (alloc_cell (KContext, p) w))" for p
    using assms ptr_at_outside [OF assms] by (auto simp: only_def ptr_at_def)
  show ?thesis
    unfolding context_new_def Let_def using assms alloc clear only_nil [OF assms]
    by (auto simp: wp_rules ptr_at_cell intro!: wp_intros split: option.split sum.split)
qed

end
