(* ===== verification/Client.thy ===== *)
theory Client
  imports Ownership
begin

text \<open>
  \<^verbatim>\<open>client.go\<close>, first part: the resources a \<^verbatim>\<open>Client\<close> owns, their creation in
  \<^verbatim>\<open>NewClient\<close>, the application of settings, and their release.
\<close>

section \<open>Resources\<close>

text \<open>The fields of \<^verbatim>\<open>Client\<close> that \<^verbatim>\<open>Close\<close> sets to nil; \<^verbatim>\<open>busy\<close> belongs to
  the protocol of the middleware. \<^verbatim>\<open>resources\<close> only ever holds flakes.\<close>

record client =
  c_ctx :: "context_ref option"
  c_store :: "store_ref option"
  c_evaluator :: "evaluator_ref option"
  c_fetchers :: "fetchers_ref option"
  c_flakesettings :: "flakesettings_ref option"
  c_resources :: "flake_ref list"

definition zero_client :: client where
  "zero_client = \<lparr>c_ctx = None, c_store = None, c_evaluator = None, c_fetchers = None,
     c_flakesettings = None, c_resources = []\<rparr>"

section \<open>Settings\<close>

fun set_settings :: "context_ref \<Rightarrow> (string \<times> string) list \<Rightarrow> string list \<Rightarrow> unit res io" where
  "set_settings ctx settings [] = ok ()"
| "set_settings ctx settings (key # keys) =
     chk (context_set_setting ctx key (the (map_of settings key)))
       (wrapf ''client: failed to set %q: %w'' [AStr key]) (\<lambda>_.
     set_settings ctx settings keys)"

text \<open>\<^verbatim>\<open>applyClientSettings\<close>; the list is the map in some order of iteration.\<close>

definition apply_client_settings :: "context_ref \<Rightarrow> (string \<times> string) list \<Rightarrow> unit res io" where
  "apply_client_settings ctx settings =
     chk (case map_of settings settingExperimentalFeatures of
            None \<Rightarrow> ok ()
          | Some value \<Rightarrow>
              chk (context_set_setting ctx settingExperimentalFeatures value)
                (wrapf ''client: failed to set %q: %w'' [AStr settingExperimentalFeatures]) ok)
       (\<lambda>e. e) (\<lambda>_.
     set_settings ctx settings
       (sort_strings (filter (\<lambda>key. key \<noteq> settingExperimentalFeatures) (map fst settings))))"

section \<open>Release\<close>

text \<open>\<^verbatim>\<open>if err := x.Close(); err != nil { errs = append(errs, err) }\<close>; closing a nil wrapper
  does nothing.\<close>

definition close_part :: "('r \<Rightarrow> unit res io) \<Rightarrow> 'r option \<Rightarrow> err list \<Rightarrow> err list io" where
  "close_part close x errs =
     (case x of
        None \<Rightarrow> State_Monad.return errs
      | Some r \<Rightarrow> do {
          e \<leftarrow> close r;
          State_Monad.return (case e of Inl er \<Rightarrow> errs @ [er] | Inr _ \<Rightarrow> errs)
        })"

fun close_flakes :: "flake_ref list \<Rightarrow> err list \<Rightarrow> err list io" where
  "close_flakes [] errs = State_Monad.return errs"
| "close_flakes (f # fs) errs = do { errs \<leftarrow> close_part flake_close (Some f) errs; close_flakes fs errs }"

definition close_locked :: "client \<Rightarrow> (client \<times> unit res) io" where
  "close_locked c =
     (case c_ctx c of
        None \<Rightarrow> State_Monad.return (c, Inr ())
      | Some ctx \<Rightarrow> do {
          errs \<leftarrow> close_flakes (c_resources c) [];
          errs \<leftarrow> close_part evaluator_close (c_evaluator c) errs;
          errs \<leftarrow> close_part store_close (c_store c) errs;
          errs \<leftarrow> close_part flakesettings_close (c_flakesettings c) errs;
          errs \<leftarrow> close_part fetchers_close (c_fetchers c) errs;
          errs \<leftarrow> close_part context_close (Some ctx) errs;
          State_Monad.return (zero_client,
            if errs \<noteq> [] then Inl (wrapf ''client: failed to close resources: %w'' [] (Joined errs))
            else Inr ())
        })"

section \<open>Creation\<close>

text \<open>The deferred \<^verbatim>\<open>c.Close()\<close> of \<^verbatim>\<open>NewClient\<close>, which runs when the function's own
  \<^verbatim>\<open>err\<close> is set at the return.\<close>

definition give_up :: "client \<Rightarrow> err \<Rightarrow> client res io" where
  "give_up c e = do { r \<leftarrow> close_locked c; fail e }"

text \<open>The end of \<^verbatim>\<open>NewClient\<close>: store and evaluator.\<close>

definition open_store_and_evaluator ::
  "((string \<times> string) list \<Rightarrow> (string \<times> string) list) \<Rightarrow> client_config \<Rightarrow> context_ref \<Rightarrow> flakesettings_ref \<Rightarrow>
   client \<Rightarrow> client res io" where
  "open_store_and_evaluator param_order cfg ctx flake_settings c =
     (let uri = (if Store_URI cfg = [] then Auto else Store_URI cfg) in
     attempt (store_new param_order ctx uri (Store_Opts cfg))
       (\<lambda>e. give_up c (wrapf ''client: failed to open store: %w'' [] e)) (\<lambda>s.
     let c = c\<lparr>c_store := Some s\<rparr>; eval_opts = Eval_Opts cfg @ [WithFlakeSettings flake_settings] in
     attempt (evaluator_new ctx s eval_opts)
       (\<lambda>e. give_up c (wrapf ''client: failed to create evaluator: %w'' [] e)) (\<lambda>ev.
     ok (c\<lparr>c_evaluator := Some ev\<rparr>))))"

text \<open>\<^verbatim>\<open>NewClient\<close>. The failure of \<^verbatim>\<open>SetLogSinkPath\<close> is held by an \<^verbatim>\<open>err\<close> that
  shadows the function's own, so the deferred closure does not see it and closes nothing. The two
  orders are those of the loops over the feature set and the store parameters.\<close>

definition new_client ::
  "(string list \<Rightarrow> string list) \<Rightarrow> ((string \<times> string) list \<Rightarrow> (string \<times> string) list) \<Rightarrow> client_config \<Rightarrow>
   client res io" where
  "new_client order param_order cfg =
     chk (context_new (LoadConfig cfg)) (wrapf ''client: failed to create context: %w'' []) (\<lambda>ctx.
     let c = zero_client\<lparr>c_ctx := Some ctx\<rparr> in
     attempt (apply_client_settings ctx (serialize order cfg)) (give_up c) (\<lambda>_.
     attempt (context_set_verbosity ctx (cfg_Verbosity cfg))
       (\<lambda>e. give_up c (wrapf ''client: failed to set verbosity: %w'' [] e)) (\<lambda>_.
     attempt (context_set_log_format ctx (cfg_LogFormat cfg))
       (\<lambda>e. give_up c (wrapf ''client: failed to set log format: %w'' [] e)) (\<lambda>_.
     attempt (context_set_log_sink_path ctx (LogSinkPath cfg))
       (\<lambda>e. fail (wrapf ''client: failed to set log sink path: %w'' [] e)) (\<lambda>_.
     attempt (fetchers_new ctx)
       (\<lambda>e. give_up c (wrapf ''client: failed to create fetcher settings: %w'' [] e)) (\<lambda>fetch_settings.
     let c = c\<lparr>c_fetchers := Some fetch_settings\<rparr> in
     attempt (flakesettings_new ctx)
       (\<lambda>e. give_up c (wrapf ''client: failed to create flake settings: %w'' [] e)) (\<lambda>flake_settings.
     let c = c\<lparr>c_flakesettings := Some flake_settings\<rparr> in
     open_store_and_evaluator param_order cfg ctx flake_settings c)))))))"

section \<open>Settings leave no trace but in the history\<close>

lemma quiet_context:
  assumes "safe w"
  shows "quiet (context_set_setting c k v) w" "quiet (context_set_verbosity c lv) w"
    "quiet (context_set_log_format c f) w" "quiet (context_set_log_sink_path c d) w"
  unfolding quiet_def context_set_setting_def context_set_verbosity_def context_set_log_format_def
    context_set_log_sink_path_def
  using assms by (auto simp: wp_rules intro!: wp_intros split: option.split sum.split)

definition setting_error :: "unit res \<Rightarrow> bool" where
  "setting_error r \<longleftrightarrow> (\<forall>e. r = Inl e \<longrightarrow> (\<exists>k e'. e = wrapf ''client: failed to set %q: %w'' [AStr k] e'))"

lemma setting_error_simps [simp]:
  "setting_error (Inr x)" "setting_error (Inl (wrapf ''client: failed to set %q: %w'' [AStr k] e))"
  unfolding setting_error_def by blast+

lemma wp_set_settings:
  "safe w \<Longrightarrow> (\<And>r h. setting_error r \<Longrightarrow> Q r (with_hist h w)) \<Longrightarrow> wp (set_settings ctx m keys) Q w"
proof (induction keys arbitrary: w)
  case Nil
  then show ?case using Nil(2) [of "Inr ()" "hist w"] by (simp add: wp_rules)
next
  case (Cons k keys)
  then show ?case
    by (auto simp: wp_rules intro!: wp_quiet_step [OF quiet_context(1)] Cons.IH split: sum.split)
qed

lemma wp_apply_client_settings:
  assumes "safe w" "\<And>r h. setting_error r \<Longrightarrow> Q r (with_hist h w)"
  shows "wp (apply_client_settings ctx m) Q w"
  unfolding apply_client_settings_def using assms
  by (auto simp: wp_rules intro!: wp_quiet_step [OF quiet_context(1)] wp_set_settings split: option.split sum.split)

section \<open>Closing a client\<close>

text \<open>The wrappers a client owns, in the order in which it closes them.\<close>

definition parts :: "client \<Rightarrow> (kind \<times> nat) list" where
  "parts c =
     map (\<lambda>f. (KLockedFlake, lf_id f)) (c_resources c) @
     map (\<lambda>e. (KState, ev_id e)) (opt_list (c_evaluator c)) @
     map (\<lambda>s. (KStore, store_id s)) (opt_list (c_store c)) @
     map (\<lambda>s. (KFlakeSettings, fl_id s)) (opt_list (c_flakesettings c)) @
     map (\<lambda>s. (KFetchers, fs_id s)) (opt_list (c_fetchers c)) @
     map (\<lambda>ctx. (KContext, ctx_id ctx)) (opt_list (c_ctx c))"

context wrapper
begin

lemma wp_close_part:
  assumes "safe w" "shut ks w0 w"
    "\<And>w'. safe w' \<Longrightarrow> shut (ks @ map (\<lambda>r. (kind, ident r)) (opt_list x)) w0 w' \<Longrightarrow> Q errs w'"
  shows "wp (close_part close x errs) Q w"
proof (cases x)
  case None
  then show ?thesis using assms by (simp add: close_part_def wp_rules)
next
  case (Some r)
  have "wp (close r) (\<lambda>e w'. wp (State_Monad.return (case e of Inl er \<Rightarrow> errs @ [er] | Inr _ \<Rightarrow> errs)) Q w') w"
    using close_shuts [OF assms(1)]
    by (rule wp_mono) (use assms Some in \<open>auto simp: wp_rules shut_safe intro: shut_trans\<close>)
  then show ?thesis using Some by (simp add: close_part_def wp_rules)
qed

end

lemma wp_close_flakes:
  assumes "safe w" "shut ks w0 w"
    "\<And>w'. safe w' \<Longrightarrow> shut (ks @ map (\<lambda>f. (KLockedFlake, lf_id f)) fs) w0 w' \<Longrightarrow> Q errs w'"
  shows "wp (close_flakes fs errs) Q w"
  using assms
proof (induction fs arbitrary: ks w)
  case Nil
  then show ?case by (simp add: wp_rules)
next
  case (Cons f fs)
  show ?case
    unfolding close_flakes.simps wp_rules
    using Cons.prems by (auto intro!: flk.wp_close_part Cons.IH)
qed

lemma wp_close_locked:
  assumes "safe w" "c_ctx c \<noteq> None" "\<And>w'. safe w' \<Longrightarrow> shut (parts c) w w' \<Longrightarrow> Q (zero_client, Inr ()) w'"
  shows "wp (close_locked c) Q w"
proof -
  from assms(2) obtain ctx where ctx: "c_ctx c = Some ctx" by auto
  show ?thesis
    unfolding close_locked_def ctx option.case wp_rules
    by (rule wp_close_flakes [OF assms(1) shut_nil], rule eva.wp_close_part, assumption, assumption,
        rule sto.wp_close_part, assumption, assumption, rule flset.wp_close_part, assumption, assumption,
        rule fetch.wp_close_part, assumption, assumption, rule ctx.wp_close_part, assumption, assumption)
      (use assms(3) ctx in \<open>auto simp: parts_def\<close>)
qed

section \<open>The outcome of NewClient\<close>

text \<open>The one error after which something is left open.\<close>

definition log_sink_failure :: "err \<Rightarrow> bool" where
  "log_sink_failure e \<longleftrightarrow> (\<exists>e'. e = wrapf ''client: failed to set log sink path: %w'' [] e')"

definition complete :: "client \<Rightarrow> bool" where
  "complete c \<longleftrightarrow> c_ctx c \<noteq> None \<and> c_store c \<noteq> None \<and> c_evaluator c \<noteq> None \<and> c_fetchers c \<noteq> None \<and>
     c_flakesettings c \<noteq> None"

definition client_outcome :: "world \<Rightarrow> client res \<Rightarrow> world \<Rightarrow> bool" where
  "client_outcome w r w' \<longleftrightarrow>
     (case r of
        Inr c \<Rightarrow> complete c \<and> c_resources c = [] \<and> only (parts c) w w'
      | Inl e \<Rightarrow> if log_sink_failure e then \<exists>i. only [(KContext, i)] w w' else only [] w w')"

lemma log_sink_failure_wrapf [simp]:
  "log_sink_failure (wrapf fmt args e) \<longleftrightarrow> fmt = ''client: failed to set log sink path: %w'' \<and> args = []"
  by (auto simp: log_sink_failure_def wrapf_def)

lemma client_outcome_Inl:
  "\<not> log_sink_failure e \<Longrightarrow> client_outcome w (Inl e) w' = only [] w w'"
  by (simp add: client_outcome_def)

lemma wp_give_up:
  assumes "safe w0" "only (parts c) w0 w" "c_ctx c \<noteq> None" "\<not> log_sink_failure e"
  shows "wp (give_up c e) (client_outcome w0) w"
  unfolding give_up_def wp_rules
  using assms by (auto intro!: wp_close_locked simp: only_safe client_outcome_Inl intro: only_close_all)

lemma parts_simps:
  "c_resources c = [] \<Longrightarrow> c_evaluator c = None \<Longrightarrow> c_store c = None \<Longrightarrow>
    parts (c\<lparr>c_store := Some s\<rparr>) = (KStore, store_id s) # parts c"
  "c_resources c = [] \<Longrightarrow> c_evaluator c = None \<Longrightarrow>
    parts (c\<lparr>c_evaluator := Some e\<rparr>) = (KState, ev_id e) # parts c"
  by (simp_all add: parts_def)

lemma open_store_and_evaluator_outcome:
  assumes "safe w0" "only (parts c) w0 w" "c_resources c = []" "c_evaluator c = None" "c_store c = None"
    "c_ctx c \<noteq> None" "c_fetchers c \<noteq> None" "c_flakesettings c \<noteq> None"
  shows "wp (open_store_and_evaluator po cfg ctx fls c) (client_outcome w0) w"
  unfolding open_store_and_evaluator_def Let_def wp_rules
  using assms
  by (auto simp: parts_simps client_outcome_def complete_def
      intro!: wp_adds [OF constructors_add(3)] wp_adds [OF constructors_add(4)] wp_give_up)

lemma new_client_outcome:
  assumes "safe w" shows "wp (new_client order po cfg) (client_outcome w) w"
  unfolding new_client_def Let_def wp_rules
proof (rule wp_adds [OF context_new_adds [OF assms]], goal_cases)
  case (1 e w')
  then show ?case by (simp add: client_outcome_Inl)
next
  case (2 ctx w')
  then have safe: "safe w'" using assms by (simp add: only_safe)
  show ?case
    using 2 assms safe
    by (auto simp: parts_def zero_client_def client_outcome_def setting_error_def
      intro!: wp_apply_client_settings wp_quiet_step [OF quiet_context(2)] wp_quiet_step [OF quiet_context(3)]
        wp_quiet_step [OF quiet_context(4)] wp_give_up wp_adds [OF constructors_add(1)]
        wp_adds [OF constructors_add(2)] open_store_and_evaluator_outcome split: sum.split)
qed

end
