(* ===== verification/Client_Ops.thy ===== *)
theory Client_Ops
  imports Client Store_GC Go_Value Unmarshal_Ledger
begin

text \<open>
  \<^verbatim>\<open>client.go\<close>, second part: the middleware every operation goes through, in the order of
  calls of one operation, and the operations themselves. \<open>Client_Middleware\<close> treats the two goroutines
  of the middleware.
\<close>

section \<open>The middleware\<close>

text \<open>
  A handler is the body of the closure an operation hands to the middleware: it returns the client,
  whose list of resources it may extend, the variables of the enclosing function that it assigns,
  and its error. \<open>cancel\<close> is \<^verbatim>\<open>ctx.Err()\<close> when the select of the middleware took the branch of
  \<^verbatim>\<open>ctx.Done()\<close>. In that branch the model runs the interruption before the calls of the
  handler; what the native library answers to the handler may depend on the interruption, since it
  depends on the whole history.
\<close>

type_synonym 'a outcome = "client \<times> 'a \<times> unit res"

definition failure :: "'a res \<Rightarrow> err option" where
  "failure r = (case r of Inl e \<Rightarrow> Some e | Inr x \<Rightarrow> None)"

definition joined :: "err option list \<Rightarrow> unit res" where
  "joined es = (case errors_join es of None \<Rightarrow> Inr () | Some e \<Rightarrow> Inl e)"

text \<open>Wait for the handler, clear the interrupt, close the client, join the errors.\<close>

definition await_and_close :: "err option list \<Rightarrow> 'a outcome io \<Rightarrow> 'a outcome io" where
  "await_and_close es handler = do {
     res \<leftarrow> handler;
     interrupt_clear;
     closed \<leftarrow> close_locked (fst res);
     State_Monad.return (fst closed, fst (snd res),
       joined (es @ [failure (snd (snd res)), failure (snd closed)]))
   }"

text \<open>\<^verbatim>\<open>middleware\<close>; \<open>vars\<close> are the variables of the enclosing function before the call.\<close>

definition middleware :: "err option \<Rightarrow> client \<Rightarrow> 'a \<Rightarrow> 'a outcome io \<Rightarrow> 'a outcome io" where
  "middleware cancel c vars handler =
     (if c_ctx c = None then State_Monad.return (c, vars, Inl ErrClosed)
      else case cancel of
        None \<Rightarrow> do {
          res \<leftarrow> handler;
          State_Monad.return (fst res, fst (snd res),
            case snd (snd res) of
              Inl e \<Rightarrow> Inl (wrapf ''middleware: failed to call handler: %w'' [] e)
            | Inr _ \<Rightarrow> Inr ())
        }
      | Some ctx_err \<Rightarrow> do {
          interrupt_request;
          attempt (context_new False)
            (\<lambda>e. await_and_close [Some ctx_err, Some e] handler)
            (\<lambda>interrupt_ctx. do {
               interrupted \<leftarrow> store_interrupt interrupt_ctx (the (c_store c));
               res \<leftarrow> await_and_close [Some ctx_err, failure interrupted] handler;
               x \<leftarrow> context_close interrupt_ctx;
               State_Monad.return res
             })
        })"

text \<open>\<^verbatim>\<open>Close\<close>; \<open>busy\<close> is the flag found by \<^verbatim>\<open>CompareAndSwap\<close>. In the models of the
  other operations it was found clear.\<close>

definition client_close :: "bool \<Rightarrow> client \<Rightarrow> (client \<times> unit res) io" where
  "client_close busy c =
     (if busy then State_Monad.return (c, Inl ErrConcurrentUse) else close_locked c)"

text \<open>Handlers that leave the client as it is: one that only returns an error, and one that assigns
  its result on success.\<close>

definition acting :: "client \<Rightarrow> unit res io \<Rightarrow> unit outcome io" where
  "acting c m = do { r \<leftarrow> m; State_Monad.return (c, (), r) }"

definition giving :: "client \<Rightarrow> 'a \<Rightarrow> 'a res io \<Rightarrow> 'a outcome io" where
  "giving c vars m = do {
     r \<leftarrow> m;
     State_Monad.return (case r of Inl e \<Rightarrow> (c, vars, Inl e) | Inr x \<Rightarrow> (c, x, Inr ()))
   }"

section \<open>Operations\<close>

definition with_store_handler :: "err option \<Rightarrow> client \<Rightarrow> (store_ref \<Rightarrow> unit res io) \<Rightarrow> unit outcome io" where
  "with_store_handler cancel c handler = middleware cancel c () (acting c (handler (the (c_store c))))"

definition with_evaluator_handler ::
  "err option \<Rightarrow> client \<Rightarrow> (evaluator_ref \<Rightarrow> unit res io) \<Rightarrow> unit outcome io" where
  "with_evaluator_handler cancel c handler =
     middleware cancel c () (acting c (handler (the (c_evaluator c))))"

definition with_store_and_evaluator ::
  "err option \<Rightarrow> client \<Rightarrow> (store_ref \<Rightarrow> evaluator_ref \<Rightarrow> unit res io) \<Rightarrow> unit outcome io" where
  "with_store_and_evaluator cancel c handler =
     middleware cancel c () (acting c (handler (the (c_store c)) (the (c_evaluator c))))"

text \<open>\<^verbatim>\<open>OpenFlake\<close> runs with \<^verbatim>\<open>context.Background()\<close>, which is never cancelled.\<close>

definition open_flake ::
  "(json \<Rightarrow> string) \<Rightarrow> client \<Rightarrow> string \<Rightarrow> flake_option list \<Rightarrow> flake_ref option outcome io" where
  "open_flake render c ref opts =
     middleware None c None (do {
       r \<leftarrow> flake_new render (the (c_ctx c)) (the (c_store c)) (the (c_fetchers c)) (the (c_flakesettings c))
         (the (c_evaluator c)) ref opts;
       State_Monad.return (case r of
         Inl e \<Rightarrow> (c, None, Inl (wrapf ''client: failed to create flake: %w'' [] e))
       | Inr f \<Rightarrow> (c\<lparr>c_resources := c_resources c @ [f]\<rparr>, Some f, Inr ()))
     })"

text \<open>\<^verbatim>\<open>getOutputValue\<close> once the root is known: the path is descended, every value that was
  passed through is closed.\<close>

fun descend :: "evaluator_ref \<Rightarrow> value_ref \<Rightarrow> string list \<Rightarrow> value_ref res io" where
  "descend e root [] = ok root"
| "descend e root (attr # path) =
     defer_value_close root
       (chk (get_type root)
          (wrapf ''client: failed to inspect flake output before attribute %q: %w'' [AStr attr]) (\<lambda>typ.
        if typ \<noteq> ValueTypeAttrs
        then fail (wrapf ''client: failed to get flake output attribute %q: %w'' [AStr attr]
          (ValueTypeErr typ ValueTypeAttrs))
        else
          chk (attr_value e (Some root) attr)
            (wrapf ''client: failed to get flake output attribute %q: %w'' [AStr attr]) (\<lambda>child.
          descend e child path)))"

definition get_output_value :: "client \<Rightarrow> flake_ref \<Rightarrow> value_ref option \<Rightarrow> string list \<Rightarrow> value_ref res io" where
  "get_output_value c f root path =
     (case root of
        Some root \<Rightarrow> descend (the (c_evaluator c)) root path
      | None \<Rightarrow>
          chk (output_attrs f) (wrapf ''client: failed to get flake output attrs: %w'' []) (\<lambda>root.
          descend (the (c_evaluator c)) root path))"

definition get_flake_output_value ::
  "err option \<Rightarrow> client \<Rightarrow> flake_ref \<Rightarrow> string list \<Rightarrow> value_ref option outcome io" where
  "get_flake_output_value cancel c f path =
     middleware cancel c None (giving c None (
       chk (get_output_value c f None path) (wrapf ''client: failed to get output value: %w'' [])
         (\<lambda>v. ok (Some v))))"

text \<open>Decoding a value into the variable behind \<^verbatim>\<open>out\<close>, which may be assigned in part when there
  is an error.\<close>

definition decode ::
  "go_tables \<Rightarrow> client \<Rightarrow> out_arg \<Rightarrow> string \<Rightarrow> value_ref option \<Rightarrow> out_arg outcome io" where
  "decode tab c out fmt v = do {
     d \<leftarrow> unmarshal tab (the (c_evaluator c)) v out;
     State_Monad.return (c, fst d, case snd d of Inl e \<Rightarrow> Inl (wrapf fmt [] e) | Inr _ \<Rightarrow> Inr ())
   }"

text \<open>The closures that obtain a value, decode it and close it.\<close>

definition decode_result ::
  "go_tables \<Rightarrow> client \<Rightarrow> out_arg \<Rightarrow> value_ref res io \<Rightarrow> string \<Rightarrow> string \<Rightarrow> out_arg outcome io" where
  "decode_result tab c out m fmt fmt_decode =
     attempt m (\<lambda>e. State_Monad.return (c, out, Inl (wrapf fmt [] e)))
       (\<lambda>v. defer_value_close v (decode tab c out fmt_decode (Some v)))"

definition eval_flake_output ::
  "go_tables \<Rightarrow> err option \<Rightarrow> client \<Rightarrow> flake_ref \<Rightarrow> string list \<Rightarrow> out_arg \<Rightarrow> out_arg outcome io" where
  "eval_flake_output tab cancel c f path out =
     middleware cancel c out (decode_result tab c out (get_output_value c f None path)
       ''client: failed to get output value: %w'' ''client: failed to decode flake output: %w'')"

definition client_eval_with_args ::
  "go_tables \<Rightarrow> err option \<Rightarrow> client \<Rightarrow> string \<Rightarrow> rvalue option \<Rightarrow> out_arg \<Rightarrow> out_arg outcome io" where
  "client_eval_with_args tab cancel c expr args out =
     middleware cancel c out (decode_result tab c out (eval_with_args tab (the (c_evaluator c)) expr ''<gonix>'' args)
       ''client: failed to evaluate expression with argument: %w''
       ''client: failed to decode expression result: %w'')"

definition client_eval ::
  "go_tables \<Rightarrow> err option \<Rightarrow> client \<Rightarrow> string \<Rightarrow> out_arg \<Rightarrow> out_arg outcome io" where
  "client_eval tab cancel c expr out =
     middleware cancel c out (decode_result tab c out (eval_string (the (c_evaluator c)) expr ''<gonix>'')
       ''client: failed to evaluate expression: %w'' ''client: failed to decode expression result: %w'')"

definition client_unmarshal ::
  "go_tables \<Rightarrow> err option \<Rightarrow> client \<Rightarrow> value_ref option \<Rightarrow> out_arg \<Rightarrow> out_arg outcome io" where
  "client_unmarshal tab cancel c v out =
     middleware cancel c out (decode tab c out ''client: failed to unmarshal eval.Value: %w'' v)"

section \<open>Realisation\<close>

text \<open>\<^verbatim>\<open>RealizedOutput\<close>.\<close>

record realized_dto =
  ro_output_name :: string
  ro_store_path :: string
  ro_real_path :: string
  ro_name :: string
  ro_hash :: "8 word list"

definition zero_realized_output :: realized_dto where
  "zero_realized_output = \<lparr>ro_output_name = [], ro_store_path = [], ro_real_path = [], ro_name = [],
     ro_hash = replicate 20 0\<rparr>"

definition realized_output :: "client \<Rightarrow> realization \<Rightarrow> realized_dto res io" where
  "realized_output c r =
     (case Path r of
        None \<Rightarrow> fail (errorf ''realization %q has nil path'' [AStr (OutputName r)])
      | Some p \<Rightarrow>
          let s = the (c_store c); store_path = print_path s (path_hash p) (path_name p) in
          chk (real_path s p) (wrapf ''real output path %q: %w'' [AStr (OutputName r)]) (\<lambda>real.
          ok \<lparr>ro_output_name = OutputName r, ro_store_path = store_path, ro_real_path = real,
               ro_name = path_name p, ro_hash = path_hash p\<rparr>))"

fun realized_outputs :: "client \<Rightarrow> realization list \<Rightarrow> realized_dto list \<Rightarrow> realized_dto list res io" where
  "realized_outputs c [] outputs = ok outputs"
| "realized_outputs c (r # rs) outputs =
     chk (realized_output c r) (wrapf ''client: failed to realize derivation: %w'' []) (\<lambda>output.
       realized_outputs c rs (outputs @ [output]))"

definition realize :: "err option \<Rightarrow> client \<Rightarrow> string \<Rightarrow> realized_dto list outcome io" where
  "realize cancel c drv_path =
     middleware cancel c [] (giving c [] (
       chk (parse_path (the (c_store c)) drv_path)
         (wrapf ''client: failed to realize derivation: parse drv path: %w'' []) (\<lambda>drv.
       defer_path_close drv (
         chk (store_realise (the (c_store c)) drv)
           (wrapf ''client: failed to realize derivation: realize store path: %w'' []) (\<lambda>rs. do {
         r \<leftarrow> realized_outputs c rs [];
         close_realizations rs;
         State_Monad.return r
       })))))"

definition realize_output :: "err option \<Rightarrow> client \<Rightarrow> string \<Rightarrow> string \<Rightarrow> realized_dto outcome io" where
  "realize_output cancel c drv_path output_name =
     middleware cancel c zero_realized_output (giving c zero_realized_output (
       chk (parse_path (the (c_store c)) drv_path)
         (wrapf ''client: failed to realize derivation output: parse drv path: %w'' []) (\<lambda>drv.
       defer_path_close drv (
         chk (store_realise_output (the (c_store c)) drv output_name)
           (wrapf ''client: failed to realize derivation output %q: %w'' [AStr output_name]) (\<lambda>realization. do {
         r \<leftarrow> chk (realized_output c realization)
           (wrapf ''client: failed to realize derivation output %q: %w'' [AStr output_name]) ok;
         x \<leftarrow> realization_close realization;
         State_Monad.return r
       })))))"

end
