(* ===== verification/Daemon_Connection.thy ===== *)
theory Daemon_Connection
  imports Client_Ops
begin

text \<open>
  \<^verbatim>\<open>Client.ProcessDaemonConnection\<close>, \<^verbatim>\<open>duplicateFD\<close> and \<^verbatim>\<open>closeFD\<close>. File
  descriptors are handles of the ledger: duplicating one gains a handle, closing one releases it,
  whatever \<^verbatim>\<open>close(2)\<close> returns. A system call answers an error number, 0 for none.
\<close>

definition MaxInt32 :: int where "MaxInt32 = 2147483647"

text \<open>The conversion \<^verbatim>\<open>int32(x)\<close>.\<close>

definition int32_of :: "int \<Rightarrow> int" where
  "int32_of x = sint (word_of_int x :: 32 word)"

definition sys_dup :: "int \<Rightarrow> ptr res io" where
  "sys_dup fd = State (\<lambda>w.
     let c = F (SysDup fd) in
     (case ans_ptr (nix w) (hist w) c of
        None \<Rightarrow> (Inl (Errno (ans_code (nix w) (hist w) c)), tick c w)
      | Some d \<Rightarrow> (Inr d, gain (KFd, d) (tick c w))))"

definition sys_call :: "call \<Rightarrow> unit res io" where
  "sys_call c = do { code \<leftarrow> raw_code c; (if code \<noteq> 0 then fail (Errno code) else ok ()) }"

definition duplicate_fd :: "int \<Rightarrow> ptr res io" where
  "duplicate_fd fd =
     (if fd < 0 then fail (errorf ''fd must be non-negative'' [])
      else if fd > MaxInt32 then fail (errorf ''fd %d overflows int32'' [ANum fd])
      else
        chk (sys_dup fd) (\<lambda>e. e) (\<lambda>dup.
        if int dup > MaxInt32 then do {
          r \<leftarrow> sys_call (F (SysClose dup));
          fail (errorf ''duplicated fd %d overflows int32'' [ANum (int dup)])
        } else
          attempt (sys_call (F (SysSetNonblock dup False)))
            (\<lambda>e. do { r \<leftarrow> sys_call (F (SysClose dup)); fail e })
            (\<lambda>_. ok dup)))"

definition close_fd :: "ptr \<Rightarrow> unit res io" where
  "close_fd fd =
     chk (sys_call (F (SysClose fd))) (wrapf ''client: failed to close duplicate fd %d: %w'' [ANum (int fd)]) ok"

text \<open>The connection proper, between the duplication of the descriptors and their release.\<close>

definition run_connection :: "ptr \<Rightarrow> ptr \<Rightarrow> ptr \<Rightarrow> ptr \<Rightarrow> bool \<Rightarrow> bool \<Rightarrow> unit res io" where
  "run_connection raw_ctx raw_store from_dup to_dup trusted recursive = do {
     code \<leftarrow> raw_code (S (DaemonProcessConnectionStore raw_ctx raw_store
       (int32_of (int from_dup)) (int32_of (int to_dup)) trusted recursive));
     r \<leftarrow> (if code \<noteq> ErrorCodeOK
          then fail_status raw_ctx ''client: failed to process connection: %w'' [] else ok ());
     r1 \<leftarrow> close_fd from_dup;
     r2 \<leftarrow> close_fd to_dup;
     State_Monad.return (joined [failure r, failure r1, failure r2])
   }"

definition process_daemon_connection ::
  "err option \<Rightarrow> client \<Rightarrow> int \<Rightarrow> int \<Rightarrow> bool \<Rightarrow> bool \<Rightarrow> unit outcome io" where
  "process_daemon_connection cancel c from_fd to_fd trusted recursive =
     middleware cancel c () (acting c (
       chk (context_borrow (the (c_ctx c))) (wrapf ''client: failed to borrow context: %w'' []) (\<lambda>raw_ctx.
       chk (store_borrow (the (c_store c))) (wrapf ''client: failed to borrow store: %w'' []) (\<lambda>raw_store.
       chk (duplicate_fd from_fd) (wrapf ''client: failed to duplicate input fd: %w'' []) (\<lambda>from_dup.
       attempt (duplicate_fd to_fd)
         (\<lambda>e. do {
            r \<leftarrow> close_fd from_dup;
            State_Monad.return (joined
              [Some (wrapf ''client: failed to duplicate output fd: %w'' [] e), failure r])
          })
         (\<lambda>to_dup. run_connection raw_ctx raw_store from_dup to_dup trusted recursive))))))"

section \<open>Descriptors are balanced and fit 32 bits\<close>

lemma int32_of_id: "- (2 ^ 31) \<le> x \<Longrightarrow> x \<le> MaxInt32 \<Longrightarrow> int32_of x = x"
  unfolding int32_of_def MaxInt32_def by (simp add: sint_sbintrunc' signed_take_bit_int_eq_self)

lemma wp_sys_dup:
  assumes "ready w []" "\<And>e h. Q (Inl e) (with_hist h w)" "\<And>d h. Q (Inr d) (gain (KFd, d) (with_hist h w))"
  shows "wp (sys_dup fd) Q w"
  using assms by (auto simp: sys_dup_def wp_def Let_def tick_ready split: option.split)

lemma wp_sys_quiet:
  assumes "ready w (uses c)" "frees c = None" "\<And>r h. Q r (with_hist h w)"
  shows "wp (sys_call c) Q w"
  using assms by (auto simp: sys_call_def wp_rules intro!: wp_intros)

lemma wp_sys_close:
  assumes "ready w [(KFd, d)]" "\<And>r h. Q r (with_hist h (drop_handle (KFd, d) w))"
  shows "wp (sys_call (F (SysClose d))) Q w" "wp (close_fd d) Q w"
  using assms by (auto simp: close_fd_def sys_call_def wp_rules intro!: wp_raw_code_free)

text \<open>A duplicate that is handed out is one handle more, and an \<^verbatim>\<open>int32\<close>; a failed duplication
  leaves nothing.\<close>

lemma wp_duplicate_fd:
  assumes "ready w []" "\<And>e h. Q (Inl e) (with_hist h w)"
    "\<And>d h. int32_of (int d) = int d \<Longrightarrow> Q (Inr d) (gain (KFd, d) (with_hist h w))"
  shows "wp (duplicate_fd fd) Q w"
proof -
  have "Q (Inl e) w" for e using assms(2) [of e "hist w"] by simp
  then show ?thesis
    unfolding duplicate_fd_def using assms
    by (auto simp: wp_rules int32_of_id intro!: wp_sys_dup wp_sys_close wp_sys_quiet split: sum.split)
qed

lemma wp_run_connection:
  assumes "ready w [(KContext, raw_ctx), (KStore, sp)]" "int32_of (int d) = int d" "int32_of (int d') = int d'"
    "\<And>r h. Q r (with_hist h w)"
  shows "wp (run_connection raw_ctx sp d d' t r) Q (with_hist h (gain (KFd, d') (gain (KFd, d) w)))"
  unfolding run_connection_def using assms
  by (auto simp: wp_rules intro!: wp_quiet wp_fail_status wp_sys_close)

end
