(* ===== verification/Client_Contract.thy ===== *)
theory Client_Contract
  imports Daemon_Connection Realised_String
begin

text \<open>
  What an operation of the client does to the ledger: without cancellation it adds wrappers at most;
  with cancellation it also closes every resource of the client. One contract, \<open>serves\<close>, is asked of
  the handler of each operation, and the middleware turns it into both.
\<close>

section \<open>The contracts\<close>

text \<open>\<open>turned L ps w w'\<close>: the temporaries \<open>L\<close> are left behind, the wrappers \<open>ps\<close> are closed and the
  other wrappers of \<open>w\<close> are as they were.\<close>

definition turned :: "handle multiset \<Rightarrow> (kind \<times> nat) list \<Rightarrow> world \<Rightarrow> world \<Rightarrow> bool" where
  "turned L ps w w' \<longleftrightarrow> safe w' \<and> temps w' = temps w + L \<and> next_ref w \<le> next_ref w' \<and>
     (\<forall>k i. (k, i) \<in> set ps \<longrightarrow> ptr_at k i w' = None) \<and>
     (\<forall>k i. i < next_ref w \<longrightarrow> (k, i) \<notin> set ps \<longrightarrow> ptr_at k i w' = ptr_at k i w)"

definition widened :: "client \<Rightarrow> world \<Rightarrow> client \<Rightarrow> bool" where
  "widened c w c' \<longleftrightarrow> complete c' \<and> set (parts c) \<subseteq> set (parts c') \<and>
     (\<forall>k i. (k, i) \<in> set (parts c') \<longrightarrow> (k, i) \<in> set (parts c) \<or> next_ref w \<le> i)"

text \<open>\<open>serves c R h\<close>: the handler \<open>h\<close> leaves temporaries \<open>L\<close> such that \<open>R\<close> holds of the worlds, its
  result and \<open>L\<close>.\<close>

definition serves ::
  "client \<Rightarrow> (world \<Rightarrow> 'a \<Rightarrow> unit res \<Rightarrow> world \<Rightarrow> handle multiset \<Rightarrow> bool) \<Rightarrow> 'a outcome io \<Rightarrow> bool" where
  "serves c R h \<longleftrightarrow> (\<forall>w. safe w \<longrightarrow>
     wp h (\<lambda>(c', x, r) w'. widened c w c' \<and> (\<exists>L. R w x r w' L \<and> leaves L w w')) w)"

lemma widened_refl: "complete c \<Longrightarrow> widened c w c"
  by (simp add: widened_def)

lemma serves_run:
  assumes "serves c R h" "safe w"
    "\<And>c' x r w' L. widened c w c' \<Longrightarrow> R w x r w' L \<Longrightarrow> leaves L w w' \<Longrightarrow> Q (c', x, r) w'"
  shows "wp h Q w"
  using assms(1) [unfolded serves_def, rule_format, OF assms(2)]
  by (rule wp_mono) (use assms(3) in auto)

section \<open>Closing the client and the interrupt context\<close>

lemma temps_shut: "shut ks w w' \<Longrightarrow> safe w \<Longrightarrow> temps w' = temps w"
  using shut_safe [of ks w w'] shut_sound [of ks w w' "temps w"] sound_self [of w] by (simp add: sound_temps)

lemma turned_leaves: "leaves L w w' \<Longrightarrow> safe w \<Longrightarrow> turned L [] w w'"
  by (auto simp: turned_def leaves_def ext_def ptr_at_def)

lemma turned_shut:
  assumes "safe w" "grows w w1" "leaves L w1 w2" "shut ks w2 w'" "set ps \<subseteq> set ks"
    "\<And>k i. (k, i) \<in> set ks \<Longrightarrow> (k, i) \<in> set ps \<or> next_ref w \<le> i"
  shows "turned L ps w w'"
proof -
  have leaves: "leaves L w w2" using assms(1-3) by (rule grows_then_leaves)
  then have safe: "safe w'" and temps: "temps w' = temps w + L" and ext: "ext w w2"
    using assms(4) by (auto simp: leaves_safe shut_safe temps_shut leaves_temps leaves_ext)
  have "ptr_at k i w' = ptr_at k i w" if "i < next_ref w" "(k, i) \<notin> set ps" for k i
    using that ext assms(4,6) by (fastforce simp: shut_def ext_def ptr_at_def)
  then show ?thesis
    using safe temps ext assms(4,5) by (auto simp: turned_def shut_def ext_def)
qed

lemma wp_store_interrupt:
  "safe w \<Longrightarrow> (\<And>r h. Q r (with_hist h w)) \<Longrightarrow> wp (store_interrupt ctx s) Q w"
proof -
  assume safe: "safe w" and Q: "\<And>r h. Q r (with_hist h w)"
  have "Q r w" for r using Q [of r "hist w"] by simp
  then show "wp (store_interrupt ctx s) Q w"
    unfolding store_interrupt_def using safe Q by (auto simp: wp_rules intro!: wp_intros)
qed

lemma joined_simps [simp]: "joined (Some e # es) \<noteq> Inr ()" "failure (Inl e) = Some e" "failure (Inr x) = None"
  by (simp_all add: joined_def failure_def split: option.split)

lemma joined_first: "\<exists>es'. joined (Some e # es) = Inl (Joined (e # es'))"
  by (simp add: joined_def errors_join_def map_filter_def)

lemma wp_await_and_close:
  assumes "serves c R h" "safe w"
    "\<And>c' x r L w2 w'. widened c w c' \<Longrightarrow> R w x r w2 L \<Longrightarrow> leaves L w w2 \<Longrightarrow> shut (parts c') w2 w' \<Longrightarrow> safe w' \<Longrightarrow>
      Q (zero_client, x, joined (es @ [failure r, None])) w'"
  shows "wp (await_and_close es h) Q w"
  unfolding await_and_close_def interrupt_clear_def wp_rules
proof (rule serves_run [OF assms(1,2)], goal_cases)
  case (1 c' x r w2 L)
  then have "c_ctx c' \<noteq> None" by (simp add: widened_def complete_def)
  then show ?case
    by (auto simp: leaves_safe [OF 1(3)] intro!: wp_quiet wp_close_locked assms(3) [OF 1])
qed

text \<open>A cancelled operation: the interrupt context was made before the handler's calls and is closed
  at the end, after the client.\<close>

lemma wp_cancelled:
  assumes "serves c R h" "safe w" "complete c"
    "\<And>c' x r L w1 w2 ks w' es. grows w w1 \<Longrightarrow> widened c w1 c' \<Longrightarrow> R w1 x r w2 L \<Longrightarrow> leaves L w1 w2 \<Longrightarrow>
      shut (parts c' @ ks) w2 w' \<Longrightarrow> (\<And>k i. (k, i) \<in> set ks \<Longrightarrow> k = KContext \<and> next_ref w \<le> i \<and> i < next_ref w1) \<Longrightarrow>
      Q (zero_client, x, joined (Some e # es)) w'"
  shows "wp (middleware (Some e) c vars h) Q w"
proof -
  have none: "wp (await_and_close [Some e, Some e'] h) Q w1" if "only [] w w1" for w1 e'
    using that assms(2) assms(4) [of w1 _ _ _ _ _ "[]"]
    by (intro wp_await_and_close [OF assms(1)]) (auto simp: only_safe only_grows)
  have some: "wp (await_and_close [Some e, f] h) (\<lambda>res. wp (do { x \<leftarrow> context_close ctx; State_Monad.return res }) Q) w1"
    if "only [(KContext, ctx_id ctx)] w w1" for w1 f ctx
  proof (rule wp_await_and_close [OF assms(1)])
    show safe1: "safe w1" using that assms(2) by (rule only_safe)
    fix c' x r L w2 w'
    assume wid: "widened c w1 c'" and R: "R w1 x r w2 L" and l: "leaves L w1 w2" and s: "shut (parts c') w2 w'"
      and safe: "safe w'"
    have new: "next_ref w \<le> ctx_id ctx" using that by (simp add: only_def)
    have old: "ctx_id ctx < next_ref w1"
      using only_open [OF that, of KContext "ctx_id ctx"] ptr_at_outside [OF safe1]
      by (meson list.set_intros(1) not_less)
    have "Q (zero_client, x, joined ([Some e, f] @ [failure r, None])) w''"
      if "shut (parts c' @ [(KContext, ctx_id ctx)]) w2 w''" for w''
      using assms(4) [OF only_grows [OF \<open>only [(KContext, ctx_id ctx)] w w1\<close>] wid R l that] new old by simp
    then show "wp (do { y \<leftarrow> context_close ctx;
        State_Monad.return (zero_client, x, joined ([Some e, f] @ [failure r, None])) }) Q w'"
      unfolding wp_rules
      by (rule wp_mono [OF ctx.close_shuts [OF safe]]) (use s in \<open>auto intro: shut_trans\<close>)
  qed
  show ?thesis
    unfolding middleware_def interrupt_request_def
    using assms(2,3) none some
    by (auto simp: wp_rules complete_def only_safe intro!: wp_quiet wp_adds [OF context_new_adds] wp_store_interrupt)
qed

lemma middleware_cancelled:
  assumes "serves c R h" "safe w" "complete c"
  shows "wp (middleware (Some e) c vars h) (\<lambda>(c', x, r) w'. c' = zero_client \<and>
    (\<exists>es. r = Inl (Joined (e # es))) \<and> (\<exists>w1 w2 r L. R w1 x r w2 L \<and> turned L (parts c) w w')) w"
proof (rule wp_cancelled [OF assms], goal_cases)
  case (1 c' x r L w1 w2 ks w' es)
  note * = 1(1-5) and ks = 1(6)
  have fresh: "(k, i) \<in> set (parts c) \<or> next_ref w \<le> i" if "(k, i) \<in> set (parts c')" for k i
    using that *(2) grows_next [OF *(1)] unfolding widened_def by (meson order_trans)
  have "turned L (parts c) w w'"
    using *(2) ks fresh
    by (intro turned_shut [OF assms(2) *(1,4,5)]) (auto simp: widened_def)
  then show ?case
    using joined_first [of e es] *(3) by auto
qed

lemma middleware_completed:
  assumes "serves c R h" "safe w" "complete c"
  shows "wp (middleware None c vars h) (\<lambda>(c', x, r) w'. widened c w c' \<and>
    (\<exists>r' L. R w x r' w' L \<and> leaves L w w' \<and> isl r = isl r')) w"
proof -
  have "c_ctx c \<noteq> None" using assms(3) by (simp add: complete_def)
  then have run: "middleware None c vars h = do { res \<leftarrow> h; State_Monad.return (fst res, fst (snd res),
      case snd (snd res) of Inl e \<Rightarrow> Inl (wrapf ''middleware: failed to call handler: %w'' [] e) | Inr _ \<Rightarrow> Inr ()) }"
    by (auto simp: middleware_def)
  show ?thesis
    unfolding run wp_rules
  proof (rule serves_run [OF assms(1,2)], goal_cases)
    case (1 c' x r w' L)
    then have "\<exists>r' L. R w x r' w' L \<and> leaves L w w' \<and> isl r = isl r'" by blast
    with 1 show ?case by (cases r) auto
  qed
qed

lemma middleware_closed:
  "c_ctx c = None \<Longrightarrow> run_state (middleware cancel c vars h) w = ((c, vars, Inl ErrClosed), w)"
  by (simp add: middleware_def)

section \<open>Handlers\<close>

definition nothing :: "world \<Rightarrow> 'a \<Rightarrow> unit res \<Rightarrow> world \<Rightarrow> handle multiset \<Rightarrow> bool" where
  "nothing w x r w' L \<longleftrightarrow> L = {#}"

lemma serves_acting:
  assumes "complete c" "\<And>w. safe w \<Longrightarrow> wp m (\<lambda>r w'. grows w w') w"
  shows "serves c nothing (acting c m)"
  unfolding serves_def acting_def wp_rules
  using assms by (auto simp: nothing_def leaves_grows widened_refl elim!: wp_mono)

lemma serves_giving:
  assumes "complete c"
    "\<And>w. safe w \<Longrightarrow> wp m (\<lambda>r w'. \<exists>L. leaves L w w' \<and>
      (case r of Inl e \<Rightarrow> R w vars (Inl e) w' L | Inr x \<Rightarrow> R w x (Inr ()) w' L)) w"
  shows "serves c R (giving c vars m)"
  unfolding serves_def giving_def wp_rules
proof (intro allI impI)
  fix w assume "safe w"
  from assms(2) [OF this] show "wp m (\<lambda>r. case case r of Inl e \<Rightarrow> (c, vars, Inl e) | Inr x \<Rightarrow> (c, x, Inr ()) of
      (c', x, r) \<Rightarrow> \<lambda>w'. widened c w c' \<and> (\<exists>L. R w x r w' L \<and> leaves L w w')) w"
    by (rule wp_mono) (use assms(1) in \<open>auto simp: widened_refl split: sum.splits\<close>)
qed

text \<open>Values that are held until the end of a function.\<close>

lemma wp_defer_creates:
  assumes "safe w0" "grows w0 w" "created KValue w0 (val_id v) w" "wp m (creates KValue val_id w) w"
  shows "wp (defer_value_close v m) (creates KValue val_id w0) w"
  unfolding defer_value_close_def wp_bind wp_return
  using assms(4)
proof (rule wp_mono)
  fix r w' assume c: "creates KValue val_id w r w'"
  have safe: "safe w" using assms by (simp add: grows_safe)
  have g: "grows w0 w'" and v: "created KValue w0 (val_id v) w'"
    using c assms(1-3) safe by (auto simp: creates_def intro: grows_trans created_grows)
  have bound: "val_id v < next_ref w"
    using assms(3) cells_bound [OF safe_wf [OF safe]] by (auto simp: created_def)
  show "wp (value_close v) (\<lambda>_. creates KValue val_id w0 r) w'"
  proof (rule wp_value_close)
    show "safe w'" using g assms(1) by (simp add: grows_safe)
  next
    fix p x h assume p: "cells w' (val_id v) = Some (KValue, p)"
    then have "grows w0 (clear_cell (val_id v) (drop_handle (KValue, p) w'))"
      using assms(1) g v by (intro grows_close_fresh) (auto simp: created_def)
    then show "creates KValue val_id w0 r (with_hist h (clear_cell (val_id v) (drop_handle (KValue, p) w')))"
      using c bound grows_next [OF assms(2)] by (auto simp: creates_def created_def)
  qed (use c g v assms(2) in \<open>auto simp: creates_def intro: created_trans\<close>)
qed

lemma descend_creates:
  assumes "safe w0" "grows w0 w" "created KValue w0 (val_id root) w"
  shows "wp (descend e root path) (creates KValue val_id w0) w"
  using assms
proof (induction path arbitrary: root w0 w)
  case Nil
  then show ?case by (simp add: wp_rules)
next
  case (Cons attr path)
  have "safe w" using Cons.prems by (simp add: grows_safe)
  then have body: "wp (chk (get_type root) g (\<lambda>typ. if typ \<noteq> ValueTypeAttrs then fail (err typ)
      else chk (attr_value e (Some root) attr) g' (\<lambda>child. descend e child path))) (creates KValue val_id w) w" for g g' err
    using Cons.prems
    by (auto simp: wp_rules intro!: wp_quiet_step [OF get_type_quiet(1)]
      wp_createsI [OF index_value_creates(2)] Cons.IH split: sum.split)
  show ?case
    unfolding descend.simps by (intro wp_defer_creates [OF Cons.prems] body)
qed

lemma get_output_value_creates:
  "safe w \<Longrightarrow> wp (get_output_value c f None path) (creates KValue val_id w) w"
  unfolding get_output_value_def option.case wp_chk
  by (rule wp_createsI [OF output_attrs_creates]) (auto intro!: descend_creates)

lemma wp_defer_value_close_grows:
  assumes "safe w0" "grows w0 w" "created KValue w0 (val_id v) w" "wp m (\<lambda>r w'. P r \<and> grows w w') w"
  shows "wp (defer_value_close v m) (\<lambda>r w'. P r \<and> grows w0 w') w"
  unfolding defer_value_close_def wp_bind wp_return
  using assms(4)
proof (rule wp_mono)
  fix r w' assume "P r \<and> grows w w'"
  then show "wp (value_close v) (\<lambda>_ w'. P r \<and> grows w0 w') w'"
    using assms by (intro wp_value_close_created [OF assms(1)])
      (auto intro: grows_trans created_grows simp: grows_safe)
qed

lemma serves_decode: "complete c \<Longrightarrow> serves c nothing (decode tab c out fmt v)"
  unfolding serves_def decode_def wp_rules
  by (auto simp: nothing_def settled_def leaves_grows widened_refl elim!: wp_mono [OF unmarshal_settles])

lemma serves_decode_result:
  assumes "complete c" "\<And>w. safe w \<Longrightarrow> wp m (creates KValue val_id w) w"
  shows "serves c nothing (decode_result tab c out m fmt fmt')"
  unfolding serves_def decode_result_def wp_attempt
proof (intro allI impI, rule wp_createsI [OF assms(2)], goal_cases)
  case (2 w e w')
  then show ?case using assms(1) by (simp add: wp_rules widened_refl nothing_def leaves_grows)
next
  case (3 w v w')
  let ?P = "\<lambda>(c', x, r). c' = c"
  have safe: "safe w'" using 3 by (simp add: grows_safe)
  have "wp (decode tab c out fmt' (Some v)) (\<lambda>r w''. ?P r \<and> grows w' w'') w'"
    unfolding decode_def wp_rules
    by (rule wp_mono [OF unmarshal_settles [OF safe]]) (auto simp: settled_def)
  then have "wp (defer_value_close v (decode tab c out fmt' (Some v))) (\<lambda>r w''. ?P r \<and> grows w w'') w'"
    using 3 by (intro wp_defer_value_close_grows)
  then show ?case
    unfolding sum.case
    by (rule wp_mono) (use 3 assms(1) in \<open>auto simp: nothing_def leaves_grows widened_refl\<close>)
qed

lemma eval_with_args_creates: "safe w \<Longrightarrow> wp (eval_with_args tab e expr path arg) (creates KValue val_id w) w"
proof -
  assume safe: "safe w"
  have build: "wp (chk (new_value e gv) g (\<lambda>(arg_value, p). defer_value_close arg_value
      (chk (call_value e (Some fn) (Some arg_value)) g' ok))) (creates KValue val_id w0) w0"
    if "safe w0" "initializes gv" for w0 gv fn g g'
    unfolding wp_chk
  proof (rule wp_new_value [OF that(2,1)], goal_cases)
    case (2 v p w' rc)
    then have "wp (chk (call_value e (Some fn) (Some v)) g' ok) (creates KValue val_id w') w'"
      using that(1) by (auto simp: wp_rules grows_safe intro!: wp_createsI [OF call_value_creates])
    then show ?case
      using that(1) 2 by (auto simp: created_def intro!: wp_defer_creates)
  qed simp
  show ?thesis
    unfolding eval_with_args_def wp_chk
  proof (rule wp_createsI [OF eval_string_creates [OF safe]], goal_cases)
    case (2 fn w')
    then have "safe w'" using safe by (simp add: grows_safe)
    then show ?case
      using safe 2 build
      by (auto simp: wp_rules from_any_initializes intro!: wp_defer_creates split: sum.split)
  qed simp
qed

lemma serves_open_flake:
  assumes "complete c"
  shows "serves c nothing (do {
       r \<leftarrow> flake_new render ctx s fs fls e ref opts;
       State_Monad.return (case r of
         Inl e \<Rightarrow> (c, None, Inl (wrapf fmt [] e))
       | Inr f \<Rightarrow> (c\<lparr>c_resources := c_resources c @ [f]\<rparr>, Some f, Inr ()))
     })"
  unfolding serves_def wp_rules
proof (intro allI impI, rule wp_createsI [OF flake_new_creates], goal_cases)
  case (3 w f w')
  then show ?case
    using assms by (auto simp: nothing_def leaves_grows widened_def complete_def parts_def created_def)
qed (use assms in \<open>simp_all add: nothing_def leaves_grows widened_refl\<close>)

section \<open>Realisation and connections\<close>

text \<open>The one error of \<^verbatim>\<open>Realize\<close> that goes with a lost store path handle.\<close>

definition realise_leak :: "err \<Rightarrow> bool" where
  "realise_leak e \<longleftrightarrow> (\<exists>e'. e = wrapf ''client: failed to realize derivation: realize store path: %w'' []
     (wrapf ''store: failed to convert realise results: %w'' [] e') \<and> realise_create_err e')"

definition realise_left :: "'a res \<Rightarrow> handle multiset \<Rightarrow> bool" where
  "realise_left r L \<longleftrightarrow>
     (if \<exists>e. r = Inl e \<and> realise_leak e then \<exists>p. L = {#(KStorePath, p)#} else L = {#})"

definition realise_leaks :: "world \<Rightarrow> 'a \<Rightarrow> unit res \<Rightarrow> world \<Rightarrow> handle multiset \<Rightarrow> bool" where
  "realise_leaks w x r w' L \<longleftrightarrow> realise_left r L"

lemma realise_leak_simps [simp]:
  "\<not> realise_leak (wrapf ''client: failed to realize derivation: parse drv path: %w'' [] e)"
  "\<not> realise_leak (wrapf ''client: failed to realize derivation: %w'' [] e)"
  by (simp_all add: realise_leak_def wrapf_def)

lemma realise_left_simps [simp]:
  "realise_left (Inr u) L \<longleftrightarrow> L = {#}"
  "\<not> realise_leak e \<Longrightarrow> realise_left (Inl e) L \<longleftrightarrow> L = {#}"
  by (simp_all add: realise_left_def)

lemma realise_left_wrapf:
  "realise_left (Inl (wrapf ''client: failed to realize derivation: realize store path: %w'' [] e)) L \<longleftrightarrow>
     (if \<exists>e'. e = wrapf ''store: failed to convert realise results: %w'' [] e' \<and> realise_create_err e'
      then \<exists>p. L = {#(KStorePath, p)#} else L = {#})"
  by (simp add: realise_left_def realise_leak_def wrapf_def)

lemma realise_left_none: "\<forall>e. r = Inl e \<longrightarrow> \<not> realise_leak e \<Longrightarrow> realise_left r {#}"
  by (auto simp: realise_left_def)

lemma wp_defer_path_leaves:
  assumes "safe w0" "grows w0 w" "created KStorePath w0 (path_id q) w"
    "wp m (\<lambda>r w'. \<exists>L. leaves L w w' \<and> P r L) w"
  shows "wp (defer_path_close q m) (\<lambda>r w'. \<exists>L. leaves L w0 w' \<and> P r L) w"
  unfolding defer_path_close_def wp_bind wp_return
  using assms(4)
proof (rule wp_mono)
  fix r w' assume "\<exists>L. leaves L w w' \<and> P r L"
  then obtain L where l: "leaves L w0 w'" and P: "P r L"
    using grows_then_leaves [OF assms(1,2)] by blast
  have "wp (path_close q) (\<lambda>_ w''. leaves L w0 w'') w'"
    using l assms(3) by (intro pth.wp_close) (auto simp: leaves_safe created_def intro: leaves_close_fresh)
  then show "wp (path_close q) (\<lambda>_ w''. \<exists>L. leaves L w0 w'' \<and> P r L) w'"
    by (rule wp_mono) (use P in blast)
qed

lemma open_realizations_grows:
  "open_realizations w0 rs w \<Longrightarrow> safe w \<Longrightarrow> grows w w' \<Longrightarrow> open_realizations w0 rs w'"
  by (auto simp: open_realizations_def fresh_paths_def intro: created_grows)

lemma wp_realized_output: "safe w \<Longrightarrow> wp (realized_output c r) (\<lambda>r w'. grows w w') w"
  unfolding realized_output_def Let_def
  by (auto simp: wp_rules elim!: wp_mono [OF real_path_grows] split: option.split sum.split)

lemma wp_realized_outputs:
  "safe w \<Longrightarrow> wp (realized_outputs c rs outputs)
     (\<lambda>r w'. grows w w' \<and> (\<forall>e. r = Inl e \<longrightarrow> \<not> realise_leak e)) w"
proof (induction rs arbitrary: w outputs)
  case Nil
  then show ?case by (simp add: wp_rules)
next
  case (Cons r rs)
  show ?case
    unfolding realized_outputs.simps wp_chk
  proof (rule wp_growsI [OF wp_realized_output [OF Cons.prems]])
    fix x w1 assume g: "grows w w1"
    then have "wp (realized_outputs c rs (outputs @ [y]))
        (\<lambda>r w'. grows w w' \<and> (\<forall>e. r = Inl e \<longrightarrow> \<not> realise_leak e)) w1" for y
      using Cons.prems
      by (intro wp_mono [OF Cons.IH [of w1 "outputs @ [y]"]]) (auto simp: grows_safe intro: grows_trans)
    with g show "case x of Inl e \<Rightarrow> grows w w1 \<and>
          (\<forall>ea. Inl (wrapf ''client: failed to realize derivation: %w'' [] e) = Inl ea \<longrightarrow> \<not> realise_leak ea)
        | Inr y \<Rightarrow> wp (realized_outputs c rs (outputs @ [y]))
          (\<lambda>r w'. grows w w' \<and> (\<forall>e. r = Inl e \<longrightarrow> \<not> realise_leak e)) w1"
      by (simp split: sum.split)
  qed
qed

lemma serves_realize:
  assumes "complete c"
  shows "serves c realise_leaks (giving c [] (
       chk (parse_path s drv_path) (wrapf ''client: failed to realize derivation: parse drv path: %w'' []) (\<lambda>drv.
       defer_path_close drv (
         chk (store_realise s drv) (wrapf ''client: failed to realize derivation: realize store path: %w'' []) (\<lambda>rs. do {
         r \<leftarrow> realized_outputs c rs [];
         close_realizations rs;
         State_Monad.return r
       })))))"
proof (rule serves_giving [OF assms], unfold wp_chk, rule wp_createsI [OF parse_path_creates], goal_cases)
  case (2 w e w')
  then show ?case by (auto simp: leaves_grows realise_leaks_def)
next
  case (3 w drv w1)
  then have safe: "safe w1" by (simp add: grows_safe)
  have "wp (do { r \<leftarrow> realized_outputs c rs []; close_realizations rs; State_Monad.return r })
      (\<lambda>r w'. \<exists>L. leaves L w1 w' \<and> realise_left r L) w2"
    if "leaves {#} w1 w2" "open_realizations w1 rs w2" for rs w2
    unfolding wp_rules
  proof (rule wp_mono [OF wp_realized_outputs])
    show "safe w2" using that by (simp add: leaves_safe)
  next
    fix r w3 assume "grows w2 w3 \<and> (\<forall>e. r = Inl e \<longrightarrow> \<not> realise_leak e)"
    then show "wp (close_realizations rs) (\<lambda>_ w'. \<exists>L. leaves L w1 w' \<and> realise_left r L) w3"
      using that open_realizations_grows [of w1 rs w2 w3]
      by (intro wp_close_realizations [of "{#}" w1]) (auto simp: leaves_safe intro: leaves_then_grows realise_left_none)
  qed
  note body = this
  have "wp (chk (store_realise s drv) (wrapf ''client: failed to realize derivation: realize store path: %w'' [])
      (\<lambda>rs. do { r \<leftarrow> realized_outputs c rs []; close_realizations rs; State_Monad.return r }))
      (\<lambda>r w'. \<exists>L. leaves L w1 w' \<and> realise_left r L) w1"
    unfolding wp_chk
  proof (rule wp_mono [OF store_realise_outcome [OF safe]], goal_cases)
    case (1 r w2)
    then show ?case
      by (cases r) (auto simp: realise_outcome_def path_leak_def realise_left_wrapf
        intro: body split: if_splits)
  qed
  from wp_defer_path_leaves [OF 3(1,2,3) this] show ?case
    unfolding sum.case by (rule wp_mono) (auto simp: realise_leaks_def realise_left_def split: sum.splits)
qed

lemma open_realization_close:
  assumes "safe w0" "grows w0 w" "open_realizations w0 [r] w"
  shows "wp (realization_close r) (\<lambda>x w'. grows w0 w') w"
proof -
  obtain p where p: "Path r = Some p" and c: "created KStorePath w0 (path_id p) w"
    using assms(3) by (auto simp: open_realizations_def real_paths_def fresh_paths_def)
  then show ?thesis
    unfolding realization_close_def using assms(1,2)
    by (auto simp: wp_rules grows_safe created_def intro!: pth.wp_close grows_close_fresh)
qed

lemma serves_realize_output:
  assumes "complete c"
  shows "serves c nothing (giving c zero_realized_output (
       chk (parse_path s drv_path) (wrapf fmt1 []) (\<lambda>drv.
       defer_path_close drv (
         chk (store_realise_output s drv output_name) (wrapf fmt2 args2) (\<lambda>realization. do {
         r \<leftarrow> chk (realized_output c realization) (wrapf fmt3 args3) ok;
         x \<leftarrow> realization_close realization;
         State_Monad.return r
       })))))"
proof (rule serves_giving [OF assms], unfold wp_chk, rule wp_createsI [OF parse_path_creates], goal_cases)
  case (2 w e w')
  then show ?case by (auto simp: leaves_grows nothing_def)
next
  case (3 w drv w1)
  then have safe: "safe w1" by (simp add: grows_safe)
  have "wp (do { r \<leftarrow> chk (realized_output c x) (wrapf fmt3 args3) ok; y \<leftarrow> realization_close x; State_Monad.return r })
      (\<lambda>r w'. grows w1 w') w2"
    if "grows w1 w2" "open_realizations w1 [x] w2" for x w2
    unfolding wp_rules
  proof (rule wp_growsI [OF wp_realized_output])
    show safe2: "safe w2" using that safe by (simp add: grows_safe)
    fix r w3 assume "grows w2 w3"
    then have "wp (realization_close x) (\<lambda>x w'. grows w1 w') w3"
      using that safe safe2
      by (intro open_realization_close) (auto intro: grows_trans open_realizations_grows)
    then show "case r of Inl e \<Rightarrow> wp (realization_close x) (\<lambda>_. grows w1) w3
      | Inr z \<Rightarrow> wp (realization_close x) (\<lambda>_. grows w1) w3"
      by (simp split: sum.split)
  qed
  then have "wp (chk (store_realise_output s drv output_name) (wrapf fmt2 args2) (\<lambda>x. do {
        r \<leftarrow> chk (realized_output c x) (wrapf fmt3 args3) ok; y \<leftarrow> realization_close x; State_Monad.return r }))
      (\<lambda>r w'. \<exists>L. leaves L w1 w' \<and> L = {#}) w1"
    unfolding wp_chk
    by (intro wp_mono [OF store_realise_output_grows [OF safe]]) (auto simp: leaves_grows safe split: sum.split)
  from wp_defer_path_leaves [OF 3(1,2,3) this] show ?case
    unfolding sum.case by (rule wp_mono) (auto simp: nothing_def split: sum.splits)
qed

lemma serves_connection:
  assumes "complete c"
  shows "serves c nothing (acting c (
       chk (context_borrow ctx) f (\<lambda>raw_ctx.
       chk (store_borrow s) g (\<lambda>raw_store.
       chk (duplicate_fd from_fd) h (\<lambda>from_dup.
       attempt (duplicate_fd to_fd)
         (\<lambda>e. do { r \<leftarrow> close_fd from_dup; State_Monad.return (joined [Some (k e), failure r]) })
         (\<lambda>to_dup. run_connection raw_ctx raw_store from_dup to_dup trusted recursive))))))"
  by (rule serves_acting [OF assms], unfold wp_rules)
    (auto intro!: ctx.wp_borrow sto.wp_borrow wp_duplicate_fd wp_sys_close wp_run_connection)

end
