(* ===== verification/Samples.thy ===== *)
theory Samples
  imports Client_Contract
begin

text \<open>
  Concrete native libraries and worlds, on which the theorems of the development are instantiated: a
  library that answers every call with success, variants of it in which one kind of call fails, and a
  client opened on it.
\<close>

section \<open>Native libraries\<close>

definition obliging :: native where
  "obliging = \<lparr>
     ans_ptr = (\<lambda>h c. Some (length h)),
     ans_code = (\<lambda>h c. 0),
     ans_str = (\<lambda>h c. Some (length h, ''text'')),
     ans_bool = (\<lambda>h c. True),
     ans_size = (\<lambda>h c. 1),
     ans_u32 = (\<lambda>h c. 1),
     ans_64 = (\<lambda>h c. 1),
     ans_bytes = (\<lambda>h c. replicate 20 1)\<rparr>"

definition empty_world :: "native \<Rightarrow> world" where
  "empty_world lib = \<lparr>nix = lib, hist = [], live = {#}, fault = False, next_ref = 0, cells = (\<lambda>_. None)\<rparr>"

lemma safe_empty [simp]: "safe (empty_world lib)"
  by (simp add: safe_def wf_cells_def owned_def empty_world_def)

text \<open>\<open>open_world lib hs\<close>: wrappers 0, 1, ... are open on the handles \<open>hs\<close>.\<close>

definition open_world :: "native \<Rightarrow> handle list \<Rightarrow> world" where
  "open_world lib hs = \<lparr>nix = lib, hist = [], live = mset hs, fault = False, next_ref = length hs,
     cells = (\<lambda>i. if i < length hs then Some (hs ! i) else None)\<rparr>"

lemma mset_nth: "mset hs = (\<Sum>i<length hs. {#hs ! i#})"
  by (induction hs rule: rev_induct) (simp_all add: nth_append)

lemma safe_open [simp]: "safe (open_world lib hs)"
  by (simp add: safe_def wf_cells_def owned_def open_world_def mset_nth)

lemma open_world_simps [simp]:
  "nix (open_world lib hs) = lib" "hist (open_world lib hs) = []" "next_ref (open_world lib hs) = length hs"
  "ptr_at k i (open_world lib hs) = (if i < length hs \<and> fst (hs ! i) = k then Some (snd (hs ! i)) else None)"
  by (auto simp: open_world_def ptr_at_def split: prod.split)

text \<open>\<open>failing P lib\<close>: the calls that satisfy \<open>P\<close> return an error code and no pointer, and leave a
  pending error.\<close>

definition failing :: "(call \<Rightarrow> bool) \<Rightarrow> native \<Rightarrow> native" where
  "failing P lib = lib\<lparr>
     ans_ptr := (\<lambda>h c. if P c then None else ans_ptr lib h c),
     ans_code := (\<lambda>h c. if P c then -1
       else (case c of U (ErrCode p) \<Rightarrow> (case h of [] \<Rightarrow> 0 | c' # h' \<Rightarrow> if P c' then -1 else 0)
             | _ \<Rightarrow> ans_code lib h c))\<rparr>"

section \<open>An open client\<close>

definition sample_client :: client where
  "sample_client = \<lparr>
     c_ctx = Some \<lparr>ctx_id = 0\<rparr>,
     c_store = Some \<lparr>store_id = 1, store_uri = ''auto'', store_dir = ''/nix/store'', store_version = ''2'',
       store_ctx = \<lparr>ctx_id = 0\<rparr>\<rparr>,
     c_evaluator = Some \<lparr>ev_id = 2, ev_ctx = \<lparr>ctx_id = 0\<rparr>\<rparr>,
     c_fetchers = Some \<lparr>fs_id = 3, fs_ctx = \<lparr>ctx_id = 0\<rparr>\<rparr>,
     c_flakesettings = Some \<lparr>fl_id = 4, fl_ctx = \<lparr>ctx_id = 0\<rparr>\<rparr>,
     c_resources = []\<rparr>"

definition sample_world :: "native \<Rightarrow> world" where
  "sample_world lib = open_world lib
     [(KContext, 100), (KStore, 101), (KState, 102), (KFetchers, 103), (KFlakeSettings, 104)]"

lemma safe_sample [simp]: "safe (sample_world lib)"
  by (simp add: sample_world_def)

lemma complete_sample [simp]: "complete sample_client"
  by (simp add: complete_def sample_client_def)

text \<open>Its parts, and a store path, a value and a locked flake beside them, as wrappers 5, 6 and 7.\<close>

definition sample_context :: context_ref where
  "sample_context = \<lparr>ctx_id = 0\<rparr>"

definition sample_store :: store_ref where
  "sample_store = the (c_store sample_client)"

definition sample_evaluator :: evaluator_ref where
  "sample_evaluator = the (c_evaluator sample_client)"

definition sample_value :: value_ref where
  "sample_value = \<lparr>val_id = 6, val_ctx = sample_context, val_owner = sample_evaluator\<rparr>"

definition sample_flake :: flake_ref where
  "sample_flake = \<lparr>lf_id = 7, lf_ref = ''nixpkgs'', lf_fragment = [], lf_fingerprint = ''0000'', lf_json = ''{}'',
     lf_ctx = sample_context, lf_settings = the (c_flakesettings sample_client), lf_evaluator = sample_evaluator\<rparr>"

definition busy_world :: "native \<Rightarrow> world" where
  "busy_world lib = open_world lib
     [(KContext, 100), (KStore, 101), (KState, 102), (KFetchers, 103), (KFlakeSettings, 104), (KStorePath, 105),
      (KValue, 106), (KLockedFlake, 107)]"

lemma safe_busy [simp]: "safe (busy_world lib)"
  by (simp add: busy_world_def)

lemma sample_ids [simp]:
  "ctx_id sample_context = 0" "store_id sample_store = 1" "store_ctx sample_store = sample_context"
  "ev_id sample_evaluator = 2" "ev_ctx sample_evaluator = sample_context"
  "val_id sample_value = 6" "val_ctx sample_value = sample_context" "val_owner sample_value = sample_evaluator"
  "lf_id sample_flake = 7" "lf_ctx sample_flake = sample_context" "lf_evaluator sample_flake = sample_evaluator"
  by (simp_all add: sample_context_def sample_store_def sample_evaluator_def sample_value_def sample_flake_def
      sample_client_def)

text \<open>Tables in which no rune past U+007F is a letter, a digit or printable.\<close>

definition ascii_tables :: go_tables where
  "ascii_tables = \<lparr>wide_letter = (\<lambda>r. False), wide_digit = (\<lambda>r. False), wide_print = (\<lambda>r. False),
     float_text = (\<lambda>x. ''0'')\<rparr>"

end
