(* ===== verification/Store_Settled.thy ===== *)
theory Store_Settled
  imports Ownership Store_GC Unmarshal_Ledger
begin

text \<open>
  Store operations that return plain data: every path wrapper and every native array they use on the
  way is released before they return, so that the ledger is as before.
\<close>

section \<open>A path held for the time of one call\<close>

text \<open>The world in which one new wrapper is open on a new handle.\<close>

definition held_path :: "world \<Rightarrow> path_ref \<Rightarrow> world \<Rightarrow> bool" where
  "held_path w q w' \<longleftrightarrow>
     (\<exists>p h. path_id q = next_ref w \<and> w' = with_hist h (gain (KStorePath, p) (alloc_cell (KStorePath, p) w)))"

lemma held_pathI:
  "path_id q = next_ref w \<Longrightarrow> held_path w q (with_hist h (gain (KStorePath, p) (alloc_cell (KStorePath, p) w)))"
  unfolding held_path_def by blast

lemma settled_close_held:
  "safe w \<Longrightarrow> settled w (clear_cell (next_ref w) (drop_handle (k, p) (gain (k, p) (alloc_cell (k, p) w))))"
  by (simp add: settled_def grows_close_fresh)

lemma wp_path_adopt_held:
  assumes "safe w"
    "\<And>e w'. settled w w' \<Longrightarrow> Q (Inl e) w'" "\<And>q w'. held_path w q w' \<Longrightarrow> Q (Inr q) w'"
  shows "wp (path_adopt ctx p fmt args) Q (with_hist h (gain (KStorePath, p) w))"
proof -
  have "alloc_cell (KStorePath, p) (gain (KStorePath, p) w) = gain (KStorePath, p) (alloc_cell (KStorePath, p) w)"
    by (simp add: gain_def alloc_cell_def)
  moreover have "settled w (with_hist h' (drop_handle (KStorePath, p) (gain (KStorePath, p) w)))" for h'
    using assms(1) by (simp add: settled_def grows_gain_drop)
  ultimately show ?thesis
    using assms(1) by (intro wp_path_adopt) (auto intro: assms(2,3) held_pathI)
qed

lemma wp_parse_path_held:
  assumes "safe w" "\<And>e w'. settled w w' \<Longrightarrow> Q (Inl e) w'" "\<And>q w'. held_path w q w' \<Longrightarrow> Q (Inr q) w'"
  shows "wp (parse_path s str) Q w"
  unfolding parse_path_def using assms
  by (auto simp: wp_rules intro!: wp_with_store wp_check_ptr wp_path_adopt_held split: sum.split)

lemma held_path_safe: "held_path w q w' \<Longrightarrow> safe w \<Longrightarrow> safe w'"
  by (auto simp: held_path_def)

lemma wp_close_held:
  assumes "safe w" "held_path w q w'" "\<And>w'. settled w w' \<Longrightarrow> Q (Inr ()) w'"
  shows "wp (path_close q) Q w'"
proof -
  from assms(2) obtain p h' where q: "path_id q = next_ref w"
    and w': "w' = with_hist h' (gain (KStorePath, p) (alloc_cell (KStorePath, p) w))"
    by (auto simp: held_path_def)
  show ?thesis
  proof (rule pth.wp_close)
    show "safe w'" using assms(1) by (simp add: w')
  next
    assume "ptr_at KStorePath (path_id q) w' = None"
    then show "Q (Inr ()) w'" by (simp add: q w' ptr_at_def)
  next
    fix p' h''
    assume "cells w' (path_id q) = Some (KStorePath, p')"
    then have "p' = p" by (simp add: q w')
    then show "Q (Inr ()) (with_hist h'' (clear_cell (path_id q) (drop_handle (KStorePath, p') w')))"
      using settled_close_held [OF assms(1), of KStorePath p] by (intro assms(3)) (simp add: q w')
  qed
qed

lemma held_path_with_hist: "held_path w q w' \<Longrightarrow> held_path w q (with_hist h w')"
  unfolding held_path_def by (auto, blast)

lemma wp_defer_held:
  assumes "safe w" "held_path w q w'" "quiet m w'" "\<And>r w'. settled w w' \<Longrightarrow> Q r w'"
  shows "wp (defer_path_close q m) Q w'"
  unfolding defer_path_close_def wp_rules
  using assms by (auto intro!: wp_quiet_step [OF assms(3)] wp_close_held [of w] held_path_with_hist)

section \<open>Roots\<close>

lemma quiet_with_path:
  assumes "safe w"
    "\<And>raw_ctx pp. (KContext, raw_ctx) \<in># live w \<Longrightarrow> (KStorePath, pp) \<in># live w \<Longrightarrow> quiet (k raw_ctx pp) w"
  shows "quiet (chk (context_borrow c) f (\<lambda>raw_ctx. chk (path_borrow q) g (\<lambda>pp. k raw_ctx pp))) w"
  unfolding quiet_def using assms
  by (auto simp: wp_rules same_def quiet_def intro!: ctx.wp_borrow pth.wp_borrow)

lemma held_path_live: "held_path w q w' \<Longrightarrow> x \<in># live w \<Longrightarrow> x \<in># live w'"
  by (auto simp: held_path_def)

lemma add_temp_root_settles: "safe w \<Longrightarrow> wp (add_temp_root s p) (\<lambda>r w'. settled w w') w"
proof -
  assume safe: "safe w"
  have "quiet (check_code rc (G (StoreAddTempRoot rc sp pp)) fmt []) w'"
    if "(KContext, rc) \<in># live w'" "(KStore, sp) \<in># live w'" "(KStorePath, pp) \<in># live w'" "safe w'" for rc sp pp w' fmt
    unfolding quiet_def using that by (auto simp: same_def intro!: wp_check_code)
  then show ?thesis
    unfolding add_temp_root_def using safe
    by (auto simp: wp_rules held_path_safe held_path_live
        intro!: wp_store_open wp_parse_path_held wp_defer_held quiet_with_path split: sum.split)
qed

lemma add_permanent_root_settles: "safe w \<Longrightarrow> wp (add_permanent_root s p root) (\<lambda>r w'. settled w w') w"
proof -
  assume safe: "safe w"
  have "quiet (take_str_pending rc (G (StoreAddPermanentRoot rc sp pp root)) fmt []) w'"
    if "(KContext, rc) \<in># live w'" "(KStore, sp) \<in># live w'" "(KStorePath, pp) \<in># live w'" "safe w'" for rc sp pp w' fmt
    unfolding quiet_def using that by (auto simp: same_def intro!: wp_take_str_pending)
  then show ?thesis
    unfolding add_permanent_root_def using safe
    by (auto simp: wp_rules held_path_safe held_path_live
        intro!: wp_store_open wp_parse_path_held wp_defer_held quiet_with_path split: sum.split)
qed

lemma settled_live: "settled w w' \<Longrightarrow> x \<in># live w \<Longrightarrow> x \<in># live w'"
  by (simp add: settled_def)

lemma wp_convert_roots_settles:
  assumes "safe w0" "(KRoots, raw_roots) \<in># live w0" "(KContext, raw_ctx) \<in># live w0"
    "settled w0 w" "\<And>r w'. settled w0 w' \<Longrightarrow> Q r w'"
  shows "wp (convert_roots_loop s raw_ctx raw_roots is roots) Q w"
  using assms(4)
proof (induction "is" arbitrary: roots w)
  case Nil
  then show ?case using assms(5) by (simp add: wp_rules)
next
  case (Cons i "is")
  then have w: "safe w" "(KRoots, raw_roots) \<in># live w" "(KContext, raw_ctx) \<in># live w"
    using assms(1-3) by (auto simp: settled_safe settled_live)
  have "settled w0 w'" if "settled w w'" for w' using Cons.prems that by (rule settled_trans)
  then have post: "Q r w'" if "settled w w'" for r w' using that assms(5) by blast
  have free: "settled w (with_hist h (drop_handle (KStorePath, p) (gain (KStorePath, p) w)))" for h p
    using w(1) by (simp add: settled_def grows_gain_drop)
  have next_round: "wp (convert_roots_loop s raw_ctx raw_roots is roots) Q w'" if "settled w w'" for roots w'
    using Cons.prems that by (intro Cons.IH) (rule settled_trans)
  show ?case
    using w post free next_round
    by (auto simp: wp_rules Let_def intro!: wp_check_ptr_pending wp_raw_str_ready wp_take_live wp_free
        wp_fail_pending wp_path_adopt_held wp_close_held [of w] split: option.split sum.split)
qed

lemma leaves_settled: "safe w \<Longrightarrow> settled w w' \<Longrightarrow> leaves {#} w w'"
  by (simp add: leaves_grows settled_def)

lemma settled_gain_drop: "safe w \<Longrightarrow> settled (gain x w) w' \<Longrightarrow> settled w (drop_handle x w')"
  by (simp add: settled_def grows_gain_drop)

lemma find_roots_settles: "safe w \<Longrightarrow> wp (find_roots s c) (\<lambda>r w'. settled w w') w"
proof -
  assume safe: "safe w"
  have conv: "wp (convert_roots s rc raw_roots) (\<lambda>r w'. settled (gain (KRoots, raw_roots) w) w')
      (with_hist h (gain (KRoots, raw_roots) w))"
    if "(KContext, rc) \<in># live w" for rc raw_roots h
    unfolding convert_roots_def using safe that
    by (auto simp: wp_rules intro!: wp_quiet wp_convert_roots_settles [of "gain (KRoots, raw_roots) w"])
  have "wp (do { r \<leftarrow> chk (convert_roots s rc raw_roots) f ok; raw_free (G (StoreRootsFree raw_roots)); State_Monad.return r })
      (\<lambda>r w'. settled w w') (with_hist h (gain (KRoots, raw_roots) w))"
    if rc: "(KContext, rc) \<in># live w" for rc raw_roots h f
  proof -
    have "wp (raw_free (G (StoreRootsFree raw_roots))) (\<lambda>_. settled w) w'"
      if "settled (gain (KRoots, raw_roots) w) w'" for w'
      using that safe settled_gain_drop [OF safe that] settled_live [OF that]
      by (auto simp: settled_safe intro!: wp_free)
    then show ?thesis
      unfolding wp_rules by (intro wp_mono [OF conv [OF rc]]) (simp split: sum.split)
  qed
  then show ?thesis
    unfolding find_roots_def using safe
    by (auto simp: wp_rules intro!: wp_with_store wp_check_ptr_pending)
qed

section \<open>Collection\<close>

text \<open>A balanced world with no new open wrapper has the live handles it had before.\<close>

lemma only_nil_settled:
  assumes "only [] w w'" "safe w" shows "settled w w'"
proof -
  have g: "grows w w'" using assms(1) by (rule only_grows)
  have "opt_mset (cells w' i) = {#}" if "next_ref w \<le> i" for i
  proof (cases "cells w' i")
    case (Some x)
    then have "ptr_at (fst x) i w' \<noteq> None" by (simp add: ptr_at_def split: prod.split)
    then show ?thesis using that assms(1) by (simp add: only_def)
  qed simp
  then have "(\<Sum>i<next_ref w'. opt_mset (cells w' i)) = (\<Sum>i<next_ref w. opt_mset (cells w' i))"
    using grows_next [OF g] by (intro sum.mono_neutral_right) auto
  also have "\<dots> = (\<Sum>i<next_ref w. opt_mset (cells w i))"
    using grows_ext [OF g] by (intro sum.cong) (auto simp: ext_def)
  finally have "owned w' = owned w" by (simp add: owned_def)
  moreover have "live w' = owned w' + temps w"
    using grows_sound [OF g, of "temps w"] sound_self [OF assms(2)] by (simp add: sound_def)
  ultimately show ?thesis using g assms(2) by (simp add: settled_def safe_live)
qed

lemma parse_path_adds:
  assumes "safe w0" "only ps w0 w"
  shows "wp (parse_path s str) (adds KStorePath path_id ps w0) w"
proof -
  have safe: "safe w" using assms by (simp add: only_safe)
  have "drop_handle x (gain x w) = w" for x by (simp add: drop_handle_def gain_def)
  moreover have "alloc_cell x (gain y w) = gain y (alloc_cell x w)" for x y by (simp add: gain_def alloc_cell_def)
  ultimately show ?thesis
    unfolding parse_path_def using assms safe only_alloc [OF assms(2,1)]
    by (auto simp: wp_rules intro!: wp_intros split: sum.split)
qed

abbreviation path_parts :: "path_ref list \<Rightarrow> (kind \<times> nat) list" where
  "path_parts qs \<equiv> map (\<lambda>q. (KStorePath, path_id q)) (rev qs)"

lemma wp_parse_gc_only:
  assumes "safe w0" "only (path_parts parsed) w0 w"
    "\<And>r w'. only (path_parts (fst r)) w0 w' \<Longrightarrow> grows w0 w' \<Longrightarrow> Q r w'"
  shows "wp (parse_gc_paths s i paths parsed items) Q w"
  using assms(2)
proof (induction paths arbitrary: i parsed items w)
  case Nil
  then show ?case by (auto simp: wp_rules only_grows intro!: assms(3))
next
  case (Cons path paths)
  have borrow: "wp (path_borrow q) (\<lambda>r w'. case r of
        Inl e \<Rightarrow> Q (parsed @ [q], Inl (wrapf fmt args e)) w'
      | Inr pp \<Rightarrow> wp (parse_gc_paths s (Suc i) paths (parsed @ [q]) (items @ [pp])) Q w') w'"
    if "only ((KStorePath, path_id q) # path_parts parsed) w0 w'" for q w' fmt args
    using that assms(1) only_grows [OF that]
    by (auto simp: only_safe intro!: pth.wp_borrow Cons.IH assms(3))
  show ?case
    unfolding parse_gc_paths.simps wp_rules
    by (rule wp_adds [OF parse_path_adds [OF assms(1) Cons.prems]])
      (auto simp: only_grows borrow intro!: assms(3))
qed

lemma close_paths_shut:
  "safe w \<Longrightarrow> wp (close_paths qs errs) (\<lambda>r w'. shut (map (\<lambda>q. (KStorePath, path_id q)) qs) w w') w"
proof (induction qs arbitrary: w errs)
  case Nil
  then show ?case by (simp add: wp_rules)
next
  case (Cons q qs)
  have rest: "wp (close_paths qs errs') (\<lambda>r w''. shut (map (\<lambda>q. (KStorePath, path_id q)) (q # qs)) w w'') w'"
    if "shut [(KStorePath, path_id q)] w w'" for w' errs'
    using shut_trans [OF that] Cons.prems shut_safe [OF that]
    by (intro wp_mono [OF Cons.IH]) auto
  show ?case
    unfolding close_paths.simps wp_rules
    by (rule wp_mono [OF pth.close_shuts [OF Cons.prems]]) (use rest in \<open>auto split: sum.split\<close>)
qed

lemma wp_close_parsed_settled:
  assumes "safe w0" "only (path_parts qs) w0 w" "\<And>r w'. settled w0 w' \<Longrightarrow> Q r w'"
  shows "wp (close_paths qs []) Q w"
proof (rule wp_mono [OF close_paths_shut])
  show "safe w" using assms(1,2) by (rule only_safe [rotated])
  fix r w' assume "shut (map (\<lambda>q. (KStorePath, path_id q)) qs) w w'"
  from only_shut [OF assms(2) this assms(1)] have "only [] w0 w'"
    by (simp add: rev_map filter_empty_conv flip: rev_filter)
  then show "Q r w'" using assms(1,3) by (simp add: only_nil_settled)
qed

lemma collect_garbage_settles: "safe w \<Longrightarrow> wp (collect_garbage s a opts) (\<lambda>r w'. settled w w') w"
proof -
  assume safe: "safe w"
  have close: "wp (close_paths qs []) (\<lambda>_. settled w) w'" if "only (path_parts qs) w w'" for qs w'
    using safe that by (rule wp_close_parsed_settled)
  have rest: "wp (case snd r of Inl e \<Rightarrow> fail e
        | Inr items \<Rightarrow> collect_parsed raw_ctx sp action cfg items)
      (\<lambda>r'. wp (close_paths (fst r) []) (\<lambda>_. settled w)) w'"
    if "only (path_parts (fst r)) w w'" "(KContext, raw_ctx) \<in># live w" "(KStore, sp) \<in># live w"
      "\<And>items. snd r = Inr items \<Longrightarrow> \<forall>p \<in> set items. (KStorePath, p) \<in># live w'"
    for r w' raw_ctx sp action cfg
    using that safe close only_grows [OF that(1)]
    by (auto simp: wp_rules only_safe grows_live intro!: wp_collect_parsed split: sum.split)
  have body: "wp (do {
      r \<leftarrow> parse_gc_paths s 0 paths [] [];
      result \<leftarrow> (case snd r of Inl e \<Rightarrow> fail e | Inr items \<Rightarrow> collect_parsed raw_ctx sp action cfg items);
      errs \<leftarrow> close_paths (fst r) [];
      State_Monad.return result
    }) (\<lambda>r. settled w) w"
    if "(KContext, raw_ctx) \<in># live w" "(KStore, sp) \<in># live w" for raw_ctx sp action cfg paths
    unfolding wp_bind wp_return
  proof (rule wp_mono [OF wp_conj])
    show "wp (parse_gc_paths s 0 paths [] []) (\<lambda>r w'. only (path_parts (fst r)) w w') w"
      using safe by (intro wp_parse_gc_only) (auto simp: only_nil)
    show "wp (parse_gc_paths s 0 paths [] []) (\<lambda>r w'. \<forall>items. snd r = Inr items \<longrightarrow>
        (\<forall>p \<in> set items. (KStorePath, p) \<in># live w')) w"
      using safe by (intro wp_parse_gc_paths [of w]) auto
  qed (use that rest in blast)
  show ?thesis
    unfolding collect_garbage_def Let_def
    using safe by (auto simp: wp_chk wp_fail wp_sum intro!: wp_store_open ctx.wp_borrow body split: sum.split)
qed

end
