(* ===== verification/Sdk.thy ===== *)
theory Sdk
  imports Client_Contract Store_Settled
begin

text \<open>
  The SDK as a whole: any program that calls its operations, in any order and on any arguments, as a
  step relation on worlds, and the accounting of native handles that every reachable world satisfies.
\<close>

section \<open>Accounts\<close>

text \<open>\<open>accounted w w'\<close>: the world \<open>w'\<close> is safe, and what was lost since \<open>w\<close> are store path
  handles.\<close>

definition accounted :: "world \<Rightarrow> world \<Rightarrow> bool" where
  "accounted w w' \<longleftrightarrow> safe w' \<and> (\<exists>L. temps w' = temps w + L \<and> (\<forall>h \<in># L. fst h = KStorePath))"

lemma accounted_trans: "accounted w w' \<Longrightarrow> accounted w' w'' \<Longrightarrow> accounted w w''"
  by (fastforce simp: accounted_def)

lemma accounted_leaves: "leaves L w w' \<Longrightarrow> \<forall>h \<in># L. fst h = KStorePath \<Longrightarrow> accounted w w'"
  by (auto simp: accounted_def leaves_def)

lemma accounted_grows: "safe w \<Longrightarrow> grows w w' \<Longrightarrow> accounted w w'"
  using accounted_leaves [of "{#}"] by (simp add: leaves_grows)

lemma accounted_shut: "safe w \<Longrightarrow> shut ks w w' \<Longrightarrow> accounted w w'"
  using temps_shut [of ks w w'] shut_safe [of ks w w'] by (auto simp: accounted_def intro: exI [of _ "{#}"])

lemma accounted_turned: "turned L ps w w' \<Longrightarrow> \<forall>h \<in># L. fst h = KStorePath \<Longrightarrow> accounted w w'"
  by (auto simp: accounted_def turned_def)

lemma accounted_path_leak: "path_leak w b w' \<Longrightarrow> accounted w w'"
  by (auto simp: path_leak_def intro: accounted_leaves split: if_splits)

text \<open>The world after an operation, and the contracts of the components in these terms.\<close>

definition after :: "'a io \<Rightarrow> world \<Rightarrow> world" where
  "after m w = snd (run_state m w)"

lemma after_wp: "wp m (\<lambda>r w'. Q w') w \<Longrightarrow> Q (after m w)"
  by (simp add: wp_def after_def split: prod.splits)

lemma after_accounted: "wp m Q w \<Longrightarrow> (\<And>r w'. Q r w' \<Longrightarrow> accounted w w') \<Longrightarrow> accounted w (after m w)"
  by (rule after_wp [where Q = "accounted w"]) (rule wp_mono)

lemma account_creates: "safe w \<Longrightarrow> wp m (creates k f w) w \<Longrightarrow> accounted w (after m w)"
  by (erule after_accounted) (auto intro: accounted_grows creates_grows)

lemma account_grows: "safe w \<Longrightarrow> wp m (\<lambda>r w'. grows w w') w \<Longrightarrow> accounted w (after m w)"
  by (erule after_accounted) (rule accounted_grows)

lemma account_adds: "safe w \<Longrightarrow> wp m (adds k f [] w) w \<Longrightarrow> accounted w (after m w)"
  by (erule after_accounted) (auto simp: adds_def intro: accounted_grows only_grows split: sum.splits)

lemma account_quiet: "safe w \<Longrightarrow> quiet m w \<Longrightarrow> accounted w (after m w)"
  unfolding quiet_def by (erule after_accounted) (auto simp: same_def accounted_grows)

lemma account_settled: "safe w \<Longrightarrow> wp m (\<lambda>r w'. settled w w') w \<Longrightarrow> accounted w (after m w)"
  by (erule after_accounted) (auto simp: settled_def intro: accounted_grows)

lemma account_shut: "safe w \<Longrightarrow> wp m (\<lambda>r w'. r = Inr () \<and> shut ks w w') w \<Longrightarrow> accounted w (after m w)"
  by (erule after_accounted) (auto intro: accounted_shut)

lemma account_serves:
  assumes "safe w" "c_ctx c = None \<or> complete c" "complete c \<Longrightarrow> serves c R h"
    "\<And>w x r w' L. R w x r w' L \<Longrightarrow> \<forall>h \<in># L. fst h = KStorePath"
  shows "accounted w (after (middleware cancel c vars h) w)"
proof (cases "c_ctx c = None")
  case True
  then show ?thesis
    using assms(1) accounted_grows [OF assms(1) grows_refl] by (simp add: after_def middleware_closed)
next
  case False
  with assms(2) have complete: "complete c" by auto
  show ?thesis
  proof (cases cancel)
    case None
    then show ?thesis
      using after_accounted [OF middleware_completed [OF assms(3) [OF complete] assms(1) complete]] assms(4)
      by (fastforce intro: accounted_leaves)
  next
    case (Some e)
    then show ?thesis
      using after_accounted [OF middleware_cancelled [OF assms(3) [OF complete] assms(1) complete]] assms(4)
      by (fastforce intro: accounted_turned)
  qed
qed

lemma nothing_paths: "nothing w x r w' L \<Longrightarrow> \<forall>h \<in># L. fst h = KStorePath"
  by (simp add: nothing_def)

lemma realise_leaks_paths: "realise_leaks w x r w' L \<Longrightarrow> \<forall>h \<in># L. fst h = KStorePath"
  by (auto simp: realise_leaks_def realise_left_def split: if_splits)

lemma account_value_close: "safe w \<Longrightarrow> accounted w (after (value_close v) w)"
proof (rule after_wp [where Q = "accounted w"], rule wp_value_close)
  fix p r h assume "safe w" "cells w (val_id v) = Some (KValue, p)"
  then show "accounted w (with_hist h (clear_cell (val_id v) (drop_handle (KValue, p) w)))"
    using accounted_shut [OF _ shut_cell] by (simp add: accounted_def)
qed (auto intro: accounted_grows)

lemma account_paths:
  assumes "safe w"
  shows "accounted w (after (closure_close c) w)" "accounted w (after (realised_close r) w)"
    "accounted w (after (realization_close x) w)"
proof -
  have ps: "wp (close_paths ps []) (\<lambda>r w'. accounted w w') w" for ps
    by (rule wp_mono [OF close_paths_shut [OF assms]]) (auto intro: accounted_shut assms)
  have here: "accounted w w" using assms by (simp add: accounted_grows)
  show "accounted w (after (closure_close c) w)"
    by (rule after_wp [where Q = "accounted w"]) (simp add: closure_close_def wp_rules here ps)
  show "accounted w (after (realised_close r) w)"
    by (rule after_wp [where Q = "accounted w"]) (simp add: realised_close_def wp_rules here ps)
  have "wp (path_close p) (\<lambda>r w'. accounted w w') w" for p
    by (rule wp_mono [OF pth.close_shuts [OF assms]]) (auto intro: accounted_shut assms)
  then show "accounted w (after (realization_close x) w)"
    by (intro after_wp [where Q = "accounted w"])
      (simp add: realization_close_def wp_rules here split: option.split)
qed

section \<open>Contracts of the operations\<close>

lemma account_grows_and: "safe w \<Longrightarrow> wp m (\<lambda>r w'. grows w w' \<and> P r w') w \<Longrightarrow> accounted w (after m w)"
  by (erule after_accounted) (auto intro: accounted_grows)

lemma account_closure: "safe w \<Longrightarrow> accounted w (after (store_closure s p copts) w)"
  by (rule after_accounted [OF store_closure_outcome])
    (auto simp: closure_outcome_def intro: accounted_path_leak accounted_leaves split: sum.splits)

lemma account_realise:
  "safe w \<Longrightarrow> accounted w (after (store_realise s p) w)"
  "safe w \<Longrightarrow> accounted w (after (store_realise_output s p n) w)"
  by (rule after_accounted [OF store_realise_outcome],
      auto simp: realise_outcome_def intro: accounted_path_leak accounted_leaves split: sum.splits)
    (rule account_grows_and [OF _ store_realise_output_grows])

lemma account_realised: "safe w \<Longrightarrow> accounted w (after (realise_string e v) w)"
  by (rule after_accounted [OF realise_string_outcome])
    (auto simp: realised_outcome_def maybe_leak_def intro: accounted_leaves split: sum.splits)

lemma account_new_value: "from_any tab arg path = Inr gv \<Longrightarrow> safe w \<Longrightarrow> accounted w (after (new_value e gv) w)"
  by (rule after_wp [where Q = "accounted w"], rule wp_new_value [OF from_any_initializes])
    (auto intro: accounted_grows)

lemma client_outcome_grows: "client_outcome w r w' \<Longrightarrow> grows w w'"
  by (auto simp: client_outcome_def intro: only_grows split: sum.splits if_splits)

lemma account_new_client: "safe w \<Longrightarrow> accounted w (after (new_client forder order cfg) w)"
  by (rule after_accounted [OF new_client_outcome]) (auto intro: accounted_grows client_outcome_grows)

text \<open>A client is usable when it is closed or has all its parts, as \<^verbatim>\<open>NewClient\<close> and
  \<^verbatim>\<open>Close\<close> leave it; a handler is adding when it closes nothing it did not open.\<close>

definition usable :: "client \<Rightarrow> bool" where
  "usable c \<longleftrightarrow> c_ctx c = None \<or> complete c"

definition adding :: "unit res io \<Rightarrow> bool" where
  "adding m \<longleftrightarrow> (\<forall>w. safe w \<longrightarrow> wp m (\<lambda>r w'. grows w w') w)"

lemma account_close_client:
  assumes "usable c" "safe w" shows "accounted w (after (client_close busy c) w)"
proof (rule after_wp [where Q = "accounted w"])
  have here: "accounted w w" using assms(2) by (simp add: accounted_grows)
  have "wp (close_locked c) (\<lambda>r. accounted w) w"
  proof (cases "c_ctx c = None")
    case True
    then show ?thesis using here by (simp add: close_locked_def wp_rules)
  qed (use assms(2) in \<open>auto intro!: wp_close_locked intro: accounted_shut\<close>)
  then show "wp (client_close busy c) (\<lambda>r. accounted w) w"
    using here by (simp add: client_close_def wp_rules)
qed

lemma account_with:
  "usable c \<Longrightarrow> \<forall>s. adding (hs s) \<Longrightarrow> safe w \<Longrightarrow> accounted w (after (with_store_handler cancel c hs) w)"
  "usable c \<Longrightarrow> \<forall>e. adding (he e) \<Longrightarrow> safe w \<Longrightarrow> accounted w (after (with_evaluator_handler cancel c he) w)"
  "usable c \<Longrightarrow> \<forall>s e. adding (hse s e) \<Longrightarrow> safe w \<Longrightarrow>
    accounted w (after (with_store_and_evaluator cancel c hse) w)"
  unfolding usable_def adding_def with_store_handler_def with_evaluator_handler_def with_store_and_evaluator_def
  by (auto intro!: account_serves [where R = nothing, OF _ _ _ nothing_paths] serves_acting)

lemma account_client:
  assumes "usable c" "safe w"
  shows "accounted w (after (open_flake render c ref fopts) w)"
    "accounted w (after (eval_flake_output tab cancel c fk path out) w)"
    "accounted w (after (get_flake_output_value cancel c fk path) w)"
    "accounted w (after (client_eval_with_args tab cancel c expr arg out) w)"
    "accounted w (after (client_eval tab cancel c expr out) w)"
    "accounted w (after (client_unmarshal tab cancel c ov out) w)"
    "accounted w (after (realize cancel c drv) w)"
    "accounted w (after (realize_output cancel c drv name) w)"
    "accounted w (after (process_daemon_connection cancel c ifd ofd trusted recursive) w)"
proof -
  note intros = account_serves [where R = nothing, OF assms(2) assms(1) [unfolded usable_def] _ nothing_paths]
  have got: "serves c nothing (giving c None (chk (get_output_value c fk None path) f (\<lambda>v. ok (Some v))))"
    if "complete c" for f
    by (rule serves_giving [OF that])
      (auto simp: wp_rules nothing_def leaves_grows intro!: wp_createsI [OF get_output_value_creates])
  show "accounted w (after (open_flake render c ref fopts) w)"
    unfolding open_flake_def by (intro intros serves_open_flake)
  show "accounted w (after (eval_flake_output tab cancel c fk path out) w)"
    "accounted w (after (client_eval_with_args tab cancel c expr arg out) w)"
    "accounted w (after (client_eval tab cancel c expr out) w)"
    unfolding eval_flake_output_def client_eval_with_args_def client_eval_def
    by (intro intros serves_decode_result get_output_value_creates eval_with_args_creates eval_string_creates; assumption)+
  show "accounted w (after (get_flake_output_value cancel c fk path) w)"
    unfolding get_flake_output_value_def by (intro intros got)
  show "accounted w (after (client_unmarshal tab cancel c ov out) w)"
    unfolding client_unmarshal_def by (intro intros serves_decode)
  show "accounted w (after (realize cancel c drv) w)"
    unfolding realize_def
    by (rule account_serves [OF assms(2) assms(1) [unfolded usable_def] serves_realize realise_leaks_paths])
  show "accounted w (after (realize_output cancel c drv name) w)"
    unfolding realize_output_def by (intro intros serves_realize_output)
  show "accounted w (after (process_daemon_connection cancel c ifd ofd trusted recursive) w)"
    unfolding process_daemon_connection_def by (intro intros serves_connection)
qed

section \<open>Programs\<close>

text \<open>Contexts and settings (\<^verbatim>\<open>nixcontext\<close>, \<^verbatim>\<open>fetchers\<close>, \<^verbatim>\<open>flakesettings\<close>).\<close>

inductive context_step :: "world \<Rightarrow> world \<Rightarrow> bool" where
  context_new_context: "context_step w (after (context_new b) w)"
| context_close_context: "context_step w (after (context_close ctx) w)"
| context_get_setting: "context_step w (after (context_setting ctx k) w)"
| context_set_setting: "context_step w (after (context_set_setting ctx k v) w)"
| context_set_verbosity: "context_step w (after (context_set_verbosity ctx lv) w)"
| context_set_log_format: "context_step w (after (context_set_log_format ctx f) w)"
| context_set_log_sink: "context_step w (after (context_set_log_sink_path ctx f) w)"
| context_new_fetchers: "context_step w (after (fetchers_new ctx) w)"
| context_close_fetchers: "context_step w (after (fetchers_close fs) w)"
| context_new_flakesettings: "context_step w (after (flakesettings_new ctx) w)"
| context_close_flakesettings: "context_step w (after (flakesettings_close fl) w)"

lemmas context_accounts =
  account_adds [OF _ context_new_adds]
  account_shut [OF _ ctx.close_shuts]
  account_grows [OF _ context_setting_grows(1)]
  account_grows [OF _ context_setting_grows(2)]
  account_grows [OF _ context_setting_grows(3)]
  account_grows [OF _ context_setting_grows(4)]
  account_grows [OF _ context_setting_grows(5)]
  account_grows_and [OF _ fetchers_new_grows]
  account_shut [OF _ fetch.close_shuts]
  account_grows_and [OF _ flakesettings_new_grows]
  account_shut [OF _ flset.close_shuts]

lemma context_step_accounted: "context_step w w' \<Longrightarrow> safe w \<Longrightarrow> accounted w w'"
  by (auto elim!: context_step.cases intro: context_accounts)

text \<open>Store paths, stores, closures, realisations, derivations, copying, garbage collection
  (\<^verbatim>\<open>storepath\<close>, \<^verbatim>\<open>store\<close>, \<^verbatim>\<open>util\<close>).\<close>

inductive store_step :: "world \<Rightarrow> world \<Rightarrow> bool" where
  store_path_parts: "store_step w (after (path_from_parts ctx h n) w)"
| store_clone_path: "store_step w (after (path_clone p) w)"
| store_close_path: "store_step w (after (path_close p) w)"
| store_new_store: "store_step w (after (store_new order ctx uri opts) w)"
| store_close_store: "store_step w (after (store_close s) w)"
| store_parse: "store_step w (after (parse_path s str) w)"
| store_from_hash: "store_step w (after (path_from_hash s str) w)"
| store_get_real_path: "store_step w (after (real_path s p) w)"
| store_check_valid: "store_step w (after (is_valid_path s p) w)"
| store_get_closure: "store_step w (after (store_closure s p copts) w)"
| store_close_closure: "store_step w (after (closure_close c) w)"
| store_realise: "store_step w (after (store_realise s p) w)"
| store_realise_output: "store_step w (after (store_realise_output s p n) w)"
| store_close_realization: "store_step w (after (realization_close r) w)"
| store_drv_from_json: "store_step w (after (derivation_from_json s x) w)"
| store_drv_from_path: "store_step w (after (derivation_from_path s p) w)"
| store_drv_add: "store_step w (after (add_derivation s d) w)"
| store_drv_clone: "store_step w (after (derivation_clone d) w)"
| store_drv_close: "store_step w (after (derivation_close d) w)"
| store_copy_all: "store_step w (after (copy_closure s dst p) w)"
| store_copy_one: "store_step w (after (copy_path_to s dst p popts) w)"
| store_temp_root: "store_step w (after (add_temp_root s str) w)"
| store_permanent_root: "store_step w (after (add_permanent_root s str str2) w)"
| store_roots: "store_step w (after (find_roots s b) w)"
| store_gc: "store_step w (after (collect_garbage s action gopts) w)"
| store_interrupt_store: "store_step w (after (store_interrupt ctx s) w)"
| store_interrupt: "store_step w (after (interrupt_request) w)"
| store_interrupt_ask: "store_step w (after (interrupt_requested) w)"
| store_uninterrupt: "store_step w (after (interrupt_clear) w)"

lemmas store_accounts =
  account_creates [OF _ path_from_parts_creates]
  account_creates [OF _ path_clone_creates]
  account_shut [OF _ pth.close_shuts]
  account_creates [OF _ store_new_creates]
  account_shut [OF _ sto.close_shuts]
  account_creates [OF _ parse_path_creates]
  account_creates [OF _ path_from_hash_creates]
  account_grows [OF _ real_path_grows]
  account_grows [OF _ is_valid_path_grows]
  account_closure
  account_paths(1)
  account_realise(1)
  account_realise(2)
  account_paths(3)
  account_creates [OF _ derivation_from_json_creates(1)]
  account_creates [OF _ derivation_from_json_creates(2)]
  account_creates [OF _ add_derivation_creates]
  account_creates [OF _ derivation_clone_creates]
  account_shut [OF _ drv.close_shuts]
  account_grows [OF _ copy_grows(1)]
  account_grows [OF _ copy_grows(2)]
  account_grows [OF _ add_temp_root_grows]
  account_grows [OF _ add_permanent_root_grows]
  account_grows [OF _ find_roots_grows]
  account_grows [OF _ collect_garbage_grows]
  account_grows [OF _ interrupt_grows(1)]
  account_grows [OF _ interrupt_grows(2)]
  account_grows [OF _ interrupt_grows(3)]
  account_grows [OF _ interrupt_grows(4)]

lemma store_step_accounted: "store_step w w' \<Longrightarrow> safe w \<Longrightarrow> accounted w w'"
  by (auto elim!: store_step.cases intro: store_accounts)

text \<open>Evaluators, values and flakes (\<^verbatim>\<open>eval\<close>, \<^verbatim>\<open>flake\<close>). A \<^verbatim>\<open>GoValue\<close>
  is one made from Go data.\<close>

inductive eval_step :: "world \<Rightarrow> world \<Rightarrow> bool" where
  eval_new_evaluator: "eval_step w (after (evaluator_new ctx s eopts) w)"
| eval_close_evaluator: "eval_step w (after (evaluator_close e) w)"
| eval_eval_expr: "eval_step w (after (eval_string e expr path) w)"
| eval_eval_function: "eval_step w (after (eval_with_args tab e expr path arg) w)"
| eval_build: "from_any tab arg path = Inr gv \<Longrightarrow> eval_step w (after (new_value e gv) w)"
| eval_force_value: "eval_step w (after (force e ov) w)"
| eval_force_all: "eval_step w (after (force_deep e ov) w)"
| eval_apply: "eval_step w (after (call_value e ov ow) w)"
| eval_apply_many: "eval_step w (after (call_multi e ov args) w)"
| eval_item: "eval_step w (after (index_value e ov i) w)"
| eval_attr: "eval_step w (after (attr_value e ov name) w)"
| eval_attr_at: "eval_step w (after (attr_by_index e ov i) w)"
| eval_attr_lazily: "eval_step w (after (attr_lazy e ov name) w)"
| eval_attr_name_at: "eval_step w (after (attr_name e ov i) w)"
| eval_attr_there: "eval_step w (after (has_attr e ov name) w)"
| eval_type_of: "eval_step w (after (get_type v) w)"
| eval_type_name_of: "eval_step w (after (type_name v) w)"
| eval_bool_of: "eval_step w (after (get_bool v) w)"
| eval_int_of: "eval_step w (after (get_int v) w)"
| eval_float_of: "eval_step w (after (get_float v) w)"
| eval_string_of: "eval_step w (after (get_string v) w)"
| eval_path_of: "eval_step w (after (get_path_string v) w)"
| eval_list_length: "eval_step w (after (list_len v) w)"
| eval_attrs_size: "eval_step w (after (attr_len v) w)"
| eval_decode_into: "eval_step w (after (unmarshal tab e ov out) w)"
| eval_realise_str: "eval_step w (after (realise_string e ov) w)"
| eval_close_realised: "eval_step w (after (realised_close rs) w)"
| eval_close_value: "eval_step w (after (value_close v) w)"
| eval_new_flake: "eval_step w (after (flake_new render ctx s fs fl e ref fopts) w)"
| eval_flake_outputs: "eval_step w (after (output_attrs fk) w)"
| eval_close_flake: "eval_step w (after (flake_close fk) w)"

lemmas eval_accounts =
  account_creates [OF _ evaluator_new_creates]
  account_shut [OF _ eva.close_shuts]
  account_creates [OF _ eval_string_creates]
  account_creates [OF _ eval_with_args_creates]
  account_new_value
  account_grows [OF _ force_grows(1)]
  account_grows [OF _ force_grows(2)]
  account_creates [OF _ call_value_creates]
  account_creates [OF _ call_multi_creates]
  account_creates [OF _ index_value_creates(1)]
  account_creates [OF _ index_value_creates(2)]
  account_creates [OF _ index_value_creates(3)]
  account_creates [OF _ attr_lazy_creates]
  account_quiet [OF _ attr_name_quiet(1)]
  account_quiet [OF _ attr_name_quiet(2)]
  account_quiet [OF _ get_type_quiet(1)]
  account_quiet [OF _ get_type_quiet(2)]
  account_quiet [OF _ bool.get_quiet]
  account_quiet [OF _ int.get_quiet]
  account_quiet [OF _ float.get_quiet]
  account_quiet [OF _ str.get_quiet]
  account_quiet [OF _ pstr.get_quiet]
  account_quiet [OF _ llen.get_quiet]
  account_quiet [OF _ alen.get_quiet]
  account_settled [OF _ unmarshal_settles]
  account_realised
  account_paths(2)
  account_value_close
  account_creates [OF _ flake_new_creates]
  account_creates [OF _ output_attrs_creates]
  account_shut [OF _ flk.close_shuts]

lemma eval_step_accounted: "eval_step w w' \<Longrightarrow> safe w \<Longrightarrow> accounted w w'"
  by (auto elim!: eval_step.cases intro: eval_accounts)

text \<open>Clients, whose handlers passed to \<^verbatim>\<open>WithStore\<close> and the like only add wrappers.\<close>

inductive client_step :: "world \<Rightarrow> world \<Rightarrow> bool" where
  client_new_client: "client_step w (after (new_client forder order cfg) w)"
| client_close_client: "usable c \<Longrightarrow> client_step w (after (client_close busy c) w)"
| client_with_store: "usable c \<Longrightarrow> \<forall>s. adding (hs s) \<Longrightarrow> client_step w (after (with_store_handler cancel c hs) w)"
| client_with_evaluator: "usable c \<Longrightarrow> \<forall>e. adding (he e) \<Longrightarrow> client_step w (after (with_evaluator_handler cancel c he) w)"
| client_with_both: "usable c \<Longrightarrow> \<forall>s e. adding (hse s e) \<Longrightarrow> client_step w (after (with_store_and_evaluator cancel c hse) w)"
| client_open_flake: "usable c \<Longrightarrow> client_step w (after (open_flake render c ref fopts) w)"
| client_flake_output: "usable c \<Longrightarrow> client_step w (after (eval_flake_output tab cancel c fk path out) w)"
| client_flake_value: "usable c \<Longrightarrow> client_step w (after (get_flake_output_value cancel c fk path) w)"
| client_client_args: "usable c \<Longrightarrow> client_step w (after (client_eval_with_args tab cancel c expr arg out) w)"
| client_client_expr: "usable c \<Longrightarrow> client_step w (after (client_eval tab cancel c expr out) w)"
| client_client_decode: "usable c \<Longrightarrow> client_step w (after (client_unmarshal tab cancel c ov out) w)"
| client_realize_all: "usable c \<Longrightarrow> client_step w (after (realize cancel c drv) w)"
| client_realize_one: "usable c \<Longrightarrow> client_step w (after (realize_output cancel c drv name) w)"
| client_daemon: "usable c \<Longrightarrow> client_step w (after (process_daemon_connection cancel c ifd ofd trusted recursive) w)"

lemmas client_accounts =
  account_new_client
  account_close_client
  account_with(1)
  account_with(2)
  account_with(3)
  account_client

lemma client_step_accounted: "client_step w w' \<Longrightarrow> safe w \<Longrightarrow> accounted w w'"
  by (auto elim!: client_step.cases intro: client_accounts)

inductive sdk_step :: "world \<Rightarrow> world \<Rightarrow> bool" where
  sdk_context: "context_step w w' \<Longrightarrow> sdk_step w w'"
| sdk_store: "store_step w w' \<Longrightarrow> sdk_step w w'"
| sdk_eval: "eval_step w w' \<Longrightarrow> sdk_step w w'"
| sdk_client: "client_step w w' \<Longrightarrow> sdk_step w w'"

lemma sdk_step_accounted: "sdk_step w w' \<Longrightarrow> safe w \<Longrightarrow> accounted w w'"
  by (auto elim!: sdk_step.cases
    intro: context_step_accounted store_step_accounted eval_step_accounted client_step_accounted)

text \<open>Programs of any length.\<close>

inductive program :: "world \<Rightarrow> world \<Rightarrow> bool" where
  finished: "program w w"
| followed: "sdk_step w w' \<Longrightarrow> program w' w'' \<Longrightarrow> program w w''"

lemma program_accounted: "program w w' \<Longrightarrow> safe w \<Longrightarrow> accounted w w'"
proof (induction rule: program.induct)
  case (finished w)
  then show ?case by (simp add: accounted_grows)
next
  case (followed w w' w'')
  then show ?case
    using sdk_step_accounted [OF followed.hyps(1)] by (auto simp: accounted_def intro: accounted_trans)
qed

end
