(* ===== verification/Value_Ownership.thy ===== *)
theory Value_Ownership
  imports Client_Contract
begin

text \<open>
  Values obtained, used and closed inside one function: the operations that return exactly one new
  value, and the functions that leave none behind.
\<close>

text \<open>\<open>one_value w r w'\<close>: an error left the ledger as it was; a result is one new open value, whose
  context is open too, and nothing else is new.\<close>

definition one_value :: "world \<Rightarrow> value_ref res \<Rightarrow> world \<Rightarrow> bool" where
  "one_value w r w' \<longleftrightarrow>
     (case r of
        Inl e \<Rightarrow> settled w w'
      | Inr v \<Rightarrow> grows w w' \<and> next_ref w \<le> val_id v \<and> ptr_at KContext (ctx_id (val_ctx v)) w' \<noteq> None \<and>
          (\<exists>p. cells w' (val_id v) = Some (KValue, p) \<and> live w' = add_mset (KValue, p) (live w)))"

lemma one_value_simps [simp]:
  "one_value w (Inl e) w' = settled w w'"
  "one_value w r (with_hist h w') = one_value w r w'" "one_value (with_hist h w) r w' = one_value w r w'"
  by (simp_all add: one_value_def ptr_at_def split: sum.split)

lemma one_value_Inr:
  "one_value w (Inr v) w' \<longleftrightarrow> grows w w' \<and> next_ref w \<le> val_id v \<and> ptr_at KContext (ctx_id (val_ctx v)) w' \<noteq> None \<and>
     (\<exists>p. cells w' (val_id v) = Some (KValue, p) \<and> live w' = add_mset (KValue, p) (live w))"
  by (simp add: one_value_def)

lemma one_value_grows: "one_value w r w' \<Longrightarrow> grows w w'"
  by (auto simp: one_value_def settled_def split: sum.splits)

lemma grows_ptr_at: "grows w w' \<Longrightarrow> safe w \<Longrightarrow> ptr_at k i w \<noteq> None \<Longrightarrow> ptr_at k i w' \<noteq> None"
  by (auto simp: ptr_at_Some intro: grows_cell)

text \<open>Closing the value gives back what was gained, whatever happened in between.\<close>

lemma wp_close_one:
  assumes "safe w" "one_value w (Inr v) w1" "grows w1 w2"
    "\<And>r w' p. grows w w' \<Longrightarrow> live w' = live w2 - {#(KValue, p)#} \<Longrightarrow> live w1 = add_mset (KValue, p) (live w) \<Longrightarrow>
      (\<forall>i. i \<noteq> val_id v \<longrightarrow> cells w' i = cells w2 i) \<Longrightarrow> Q r w'"
  shows "wp (value_close v) Q w2"
proof -
  have safe1: "safe w1" using assms(1,2) by (auto simp: one_value_Inr grows_safe)
  then have safe2: "safe w2" using assms(3) by (simp add: grows_safe)
  obtain p where p: "cells w1 (val_id v) = Some (KValue, p)" and live: "live w1 = add_mset (KValue, p) (live w)"
    using assms(2) by (auto simp: one_value_Inr)
  have cell: "cells w2 (val_id v) = Some (KValue, p)" using grows_cell [OF assms(3) safe1 p] .
  have ctx: "ptr_at KContext (ctx_id (val_ctx v)) w2 \<noteq> None"
    using assms(2) grows_ptr_at [OF assms(3) safe1] by (auto simp: one_value_Inr)
  have g: "grows w w2" using assms(2,3) by (auto simp: one_value_Inr intro: grows_trans)
  show ?thesis
  proof (rule wp_value_close [OF safe2], goal_cases)
    case (3 q r h)
    then have "q = p" using cell by simp
    have "grows w (clear_cell (val_id v) (drop_handle (KValue, p) w2))"
      using assms(2) by (intro grows_close_fresh [OF assms(1) g _ cell]) (simp add: one_value_Inr)
    then show ?case
      using \<open>q = p\<close> live by (intro assms(4)) auto
  qed (use cell ctx in \<open>auto simp: ptr_at_cell\<close>)
qed

lemma wp_defer_settled:
  assumes "safe w" "one_value w (Inr v) w1" "wp m (\<lambda>r w'. P r \<and> settled w1 w') w1"
  shows "wp (defer_value_close v m) (\<lambda>r w'. P r \<and> settled w w') w1"
  unfolding defer_value_close_def wp_bind wp_return
  using assms(3)
proof (rule wp_mono)
  fix r w2 assume "P r \<and> settled w1 w2"
  then show "wp (value_close v) (\<lambda>_ w'. P r \<and> settled w w') w2"
    using assms(1,2) by (intro wp_close_one) (auto simp: settled_def)
qed

lemma wp_defer_one_value:
  assumes "safe w" "one_value w (Inr v) w1" "wp m (one_value w1) w1"
  shows "wp (defer_value_close v m) (one_value w) w1"
  unfolding defer_value_close_def wp_bind wp_return
  using assms(3)
proof (rule wp_mono)
  fix r w2 assume r: "one_value w1 r w2"
  have safe1: "safe w1" using assms(1,2) by (auto simp: one_value_Inr grows_safe)
  obtain q where "cells w1 (val_id v) = Some (KValue, q)" using assms(2) by (auto simp: one_value_Inr)
  then have bound: "val_id v < next_ref w1" using safe1 by (auto intro: cells_bound)
  show "wp (value_close v) (\<lambda>_. one_value w r) w2"
  proof (rule wp_close_one [OF assms(1,2) one_value_grows [OF r]])
    fix r' w' p
    assume g: "grows w w'" and live: "live w' = live w2 - {#(KValue, p)#}"
      and live1: "live w1 = add_mset (KValue, p) (live w)" and same: "\<forall>i. i \<noteq> val_id v \<longrightarrow> cells w' i = cells w2 i"
    show "one_value w r w'"
    proof (cases r)
      case (Inl e)
      then show ?thesis using r g live live1 by (simp add: settled_def)
    next
      case (Inr u)
      then have u: "next_ref w1 \<le> val_id u" using r by (simp add: one_value_Inr)
      have "ctx_id (val_ctx u) \<noteq> val_id v"
        if "cells w2 (val_id v) = Some (KValue, q)" "ptr_at KContext (ctx_id (val_ctx u)) w2 \<noteq> None"
        using that by (auto simp: ptr_at_def split: option.splits)
      moreover have "cells w2 (val_id v) = Some (KValue, q)"
        using grows_cell [OF one_value_grows [OF r] safe1 \<open>cells w1 (val_id v) = Some (KValue, q)\<close>] .
      ultimately show ?thesis
        using r g live live1 same bound u Inr grows_next [OF g] assms(2)
        by (auto simp: one_value_Inr ptr_at_def)
    qed
  qed
qed

section \<open>Operations that return one value\<close>

lemma one_value_fresh:
  assumes "safe w" "cells w (ctx_id c) = Some (KContext, rc)"
  shows "one_value w (Inr \<lparr>val_id = next_ref w, val_ctx = c, val_owner = e\<rparr>)
    (gain (KValue, p) (alloc_cell (KValue, p) w))"
  using assms cells_bound [of w "ctx_id c"] by (auto simp: one_value_Inr ptr_at_def)

lemma attr_value_one: "safe w \<Longrightarrow> wp (attr_value e v name) (one_value w) w"
  by (rule wp_selects [OF selections(2)]) (auto intro: one_value_fresh)

lemma output_attrs_one:
  "safe w \<Longrightarrow> cells w (ctx_id (ev_ctx (lf_evaluator f))) = Some (KContext, rc) \<Longrightarrow>
   wp (output_attrs f) (one_value w) w"
  unfolding output_attrs_def
  by (auto simp: wp_rules ptr_at_cell ptr_at_Some safe_cell_live
      intro!: ctx.wp_borrow eva.wp_borrow flset.wp_borrow wp_check_ptr wp_wrap_value one_value_fresh
      split: option.split sum.split)

lemma descend_one:
  assumes "safe w" "one_value w (Inr root) w1" shows "wp (descend e root path) (one_value w) w1"
  using assms
proof (induction path arbitrary: root w w1)
  case Nil
  then show ?case by (simp add: wp_rules)
next
  case (Cons attr path)
  have safe1: "safe w1" using Cons.prems by (auto simp: one_value_Inr grows_safe)
  have body: "wp (chk (get_type root) g (\<lambda>typ. if typ \<noteq> ValueTypeAttrs then fail (err typ)
      else chk (attr_value e (Some root) attr) g' (\<lambda>child. descend e child path))) (one_value w1) w1" for g g' err
    using safe1
    by (auto simp: wp_rules intro!: wp_quiet_step [OF get_type_quiet(1)] Cons.IH
        wp_mono [OF attr_value_one] split: sum.split)
  show ?case
    unfolding descend.simps by (intro wp_defer_one_value [OF Cons.prems] body)
qed

lemma get_output_value_one:
  "safe w \<Longrightarrow> cells w (ctx_id (ev_ctx (lf_evaluator f))) = Some (KContext, rc) \<Longrightarrow>
   wp (get_output_value c f None path) (one_value w) w"
  unfolding get_output_value_def option.case wp_chk
  by (rule wp_mono [OF output_attrs_one]) (auto intro!: descend_one split: sum.split)

text \<open>\<^verbatim>\<open>EvalString\<close>: a value whose evaluation failed is closed again.\<close>

lemma settled_clear_fresh: "safe w \<Longrightarrow> settled w (clear_cell (next_ref w) (alloc_cell x w))"
  by (simp add: settled_def)

lemma wp_fill_one:
  assumes "safe w" "cells w (ctx_id c) = Some (KContext, rc)"
    "v = \<lparr>val_id = next_ref w, val_ctx = c, val_owner = e\<rparr>"
    "ready (gain (KValue, p) w) ((KContext, rc) # uses k)" "frees k = None"
  shows "wp (fill_value rc v k fmt) (one_value w) (with_hist h (gain (KValue, p) (alloc_cell (KValue, p) w)))"
proof -
  have live: "(KContext, rc) \<in># live w" using assms(1,2) by (rule safe_cell_live)
  have neq: "ctx_id c \<noteq> next_ref w" using cells_bound [OF safe_wf [OF assms(1)] assms(2)] by simp
  have "wp (value_close v) (\<lambda>r w'. wp (fail_status rc fmt []) (one_value w) w')
      (with_hist h' (gain (KValue, p) (alloc_cell (KValue, p) w)))" for h'
    using assms(1-3) live neq
    by (auto simp: ptr_at_def settled_clear_fresh intro!: wp_value_close wp_fail_status)
  then show ?thesis
    unfolding fill_value_def using assms live one_value_fresh [OF assms(1,2)]
    by (auto simp: wp_rules ready_def intro!: wp_quiet)
qed

lemma eval_string_one: "safe w \<Longrightarrow> wp (eval_string e x path) (one_value w) w"
  unfolding eval_string_def
  by (auto simp: wp_rules ready_def intro!: wp_intros wp_fill_one split: sum.split)

section \<open>Decoding leaves nothing behind\<close>

lemma decode_result_settled:
  assumes "safe w" "wp m (one_value w) w"
  shows "wp (decode_result tab c out m fmt fmt') (\<lambda>(c', x, r) w'. c' = c \<and> settled w w') w"
  unfolding decode_result_def wp_attempt
proof (rule wp_mono [OF assms(2)])
  fix r w1 assume r: "one_value w r w1"
  show "case r of Inl e \<Rightarrow> wp (State_Monad.return (c, out, Inl (wrapf fmt [] e))) (\<lambda>(c', x, r) w'. c' = c \<and> settled w w') w1
    | Inr v \<Rightarrow> wp (defer_value_close v (decode tab c out fmt' (Some v))) (\<lambda>(c', x, r) w'. c' = c \<and> settled w w') w1"
  proof (cases r)
    case (Inl e)
    then show ?thesis using r by (simp add: wp_rules)
  next
    case (Inr v)
    have "safe w1" using grows_safe [OF one_value_grows [OF r]] assms(1) by simp
    then have "wp (decode tab c out fmt' (Some v)) (\<lambda>r w'. fst r = c \<and> settled w1 w') w1"
      unfolding decode_def wp_rules by (intro wp_mono [OF unmarshal_settles]) auto
    from wp_defer_settled [OF assms(1) r [unfolded Inr] this] show ?thesis
      unfolding Inr sum.case by (rule wp_mono) auto
  qed
qed

end
