(* ===== verification/Client_Guarantees.thy ===== *)
theory Client_Guarantees
  imports Samples Value_Ownership Unmarshal_Types
begin

text \<open>
  What the client guarantees its callers: who owns what after \<^verbatim>\<open>NewClient\<close>, after
  \<^verbatim>\<open>Close\<close> and after an operation, cancelled or not.
\<close>

section \<open>Creation\<close>

text \<open>
  C15: a successful \<^verbatim>\<open>NewClient\<close> returns a client with all its parts, which are the only
  wrappers it has left open; a failed one has closed what it had opened, except that the failure to
  set the log sink leaves exactly the new context open.
\<close>

theorem new_client_ownership:
  assumes "safe w" "run_state (new_client order param_order cfg) w = (r, w')"
  shows "client_outcome w r w'"
  using new_client_outcome [OF assms(1)] by (rule wp_run [OF assms(2)])

lemma new_client_ownership_witness:
  "client_outcome (empty_world obliging)
     (fst (run_state (new_client (\<lambda>x. x) (\<lambda>x. x) zero_client_config) (empty_world obliging)))
     (snd (run_state (new_client (\<lambda>x. x) (\<lambda>x. x) zero_client_config) (empty_world obliging)))"
  by (rule new_client_ownership [OF safe_empty]) simp

text \<open>A library whose only fault is that it cannot install a log sink.\<close>

definition is_log_sink :: "call \<Rightarrow> bool" where
  "is_log_sink c = (case c of U (LogSinkInstall p d) \<Rightarrow> True | _ \<Rightarrow> False)"

definition log_sink_config :: client_config where
  "log_sink_config = zero_client_config\<lparr>LogSinkPath := ''/log''\<rparr>"

lemma serialize_log_sink: "\<exists>v. serialize (\<lambda>x. x) log_sink_config = [(settingExperimentalFeatures, v)]"
  by (simp add: serialize_def map_copy_def typed_settings_def put_if_def map_set_def log_sink_config_def
      zero_client_config_def)

text \<open>
  The exception is real: with a log sink that cannot be installed, \<^verbatim>\<open>NewClient\<close> returns
  an error and no client, and the context it made stays open with its native handle live, out of the
  caller's reach.
\<close>

theorem new_client_log_sink_leak:
  "case run_state (new_client (\<lambda>x. x) (\<lambda>x. x) log_sink_config) (empty_world (failing is_log_sink obliging)) of
     (r, w') \<Rightarrow> isl r \<and> ptr_at KContext 0 w' = Some 0 \<and> live w' = {#(KContext, 0)#}"
proof -
  let ?w = "empty_world (failing is_log_sink obliging)"
  obtain v where v: "serialize (\<lambda>x. x) log_sink_config = [(settingExperimentalFeatures, v)]"
    using serialize_log_sink by blast
  have "wp (new_client (\<lambda>x. x) (\<lambda>x. x) log_sink_config)
      (\<lambda>r w'. isl r \<and> ptr_at KContext 0 w' = Some 0 \<and> live w' = {#(KContext, 0)#}) ?w"
    unfolding new_client_def Let_def v
    by (simp add: wp_rules wp_raw context_new_def check_code_def failing_def obliging_def empty_world_def
        ErrorCodeOK_def is_log_sink_def apply_client_settings_def context_set_setting_def context_borrow_def
        ptr_at_def sort_strings_def context_set_verbosity_def context_set_log_format_def
        context_set_log_sink_path_def log_sink_config_def zero_client_config_def fail_status_def
        from_context_def read_error_def take_raw_def take_cstring_def free_context_def raw_free_def
        ErrorCodeNix_def)
  then show ?thesis by (simp add: wp_def)
qed

section \<open>Release\<close>

lemma wp_client_close:
  "safe w \<Longrightarrow> c_ctx c \<noteq> None \<Longrightarrow>
   wp (client_close False c) (\<lambda>r w'. r = (zero_client, Inr ()) \<and> shut (parts c) w w') w"
  unfolding client_close_def by (auto intro!: wp_close_locked)

text \<open>
  C16: \<^verbatim>\<open>Close\<close> on an open client succeeds, empties the client and closes exactly the wrappers
  it owned; closing the client again does nothing.
\<close>

theorem client_close_releases:
  assumes "safe w" "c_ctx c \<noteq> None"
  shows "\<exists>w'. run_state (client_close False c) w = ((zero_client, Inr ()), w') \<and> shut (parts c) w w' \<and>
     run_state (client_close False zero_client) w' = ((zero_client, Inr ()), w')"
  using wp_client_close [OF assms]
  by (auto simp: wp_def client_close_def close_locked_def zero_client_def split: prod.splits)

lemma client_close_releases_witness:
  "\<exists>w'. run_state (client_close False sample_client) (sample_world obliging) = ((zero_client, Inr ()), w') \<and>
     shut (parts sample_client) (sample_world obliging) w' \<and>
     run_state (client_close False zero_client) w' = ((zero_client, Inr ()), w')"
  by (rule client_close_releases) (simp_all add: sample_client_def)

text \<open>
  After \<^verbatim>\<open>Close\<close> every operation of the client reports \<^verbatim>\<open>ErrClosed\<close>, cancelled or
  not, without a native call and without running the caller's handler.
\<close>

theorem closed_client_refuses:
  fixes s :: "store_ref \<Rightarrow> unit res io" and ev :: "evaluator_ref \<Rightarrow> unit res io"
  assumes "c_ctx c = None"
  shows "run_state (with_store_handler cancel c s) w = ((c, (), Inl ErrClosed), w) \<and>
    run_state (with_evaluator_handler cancel c ev) w = ((c, (), Inl ErrClosed), w) \<and>
    run_state (open_flake render c ref opts) w = ((c, None, Inl ErrClosed), w) \<and>
    run_state (eval_flake_output tab cancel c f path out) w = ((c, out, Inl ErrClosed), w) \<and>
    run_state (get_flake_output_value cancel c f path) w = ((c, None, Inl ErrClosed), w) \<and>
    run_state (client_eval_with_args tab cancel c expr args out) w = ((c, out, Inl ErrClosed), w) \<and>
    run_state (client_eval tab cancel c expr out) w = ((c, out, Inl ErrClosed), w) \<and>
    run_state (client_unmarshal tab cancel c v out) w = ((c, out, Inl ErrClosed), w) \<and>
    run_state (realize cancel c drv) w = ((c, [], Inl ErrClosed), w) \<and>
    run_state (realize_output cancel c drv name) w = ((c, zero_realized_output, Inl ErrClosed), w) \<and>
    run_state (process_daemon_connection cancel c ifd ofd trusted recursive) w = ((c, (), Inl ErrClosed), w)"
  by (simp add: middleware_closed [OF assms] with_store_handler_def with_evaluator_handler_def open_flake_def
      eval_flake_output_def get_flake_output_value_def client_eval_with_args_def client_eval_def
      client_unmarshal_def realize_def realize_output_def process_daemon_connection_def)

text \<open>Instantiated on a closed client.\<close>

lemma closed_client_refuses_witness:
  "run_state (client_eval ascii_tables None zero_client ''1'' OutNil) (empty_world obliging) =
     ((zero_client, OutNil, Inl ErrClosed), empty_world obliging)"
  using closed_client_refuses [where c = zero_client and cancel = None and w = "empty_world obliging" and
      tab = ascii_tables and expr = "''1''" and out = OutNil]
  by (simp add: zero_client_def)

section \<open>Operations that run to completion\<close>

text \<open>\<open>keeps_client c w m\<close>: \<open>m\<close> leaves the client as it is and the ledger as it was: no handle is live
  after it that was not live before, and none was released.\<close>

definition keeps_client :: "client \<Rightarrow> world \<Rightarrow> 'a outcome io \<Rightarrow> bool" where
  "keeps_client c w m \<longleftrightarrow> (case run_state m w of ((c', x, r), w') \<Rightarrow> c' = c \<and> settled w w')"

lemma middleware_run: "c_ctx c \<noteq> None \<Longrightarrow>
    middleware None c vars h = do { res \<leftarrow> h; State_Monad.return (fst res, fst (snd res),
      case snd (snd res) of Inl e \<Rightarrow> Inl (wrapf ''middleware: failed to call handler: %w'' [] e) | Inr _ \<Rightarrow> Inr ()) }"
  by (auto simp: middleware_def)

lemma keeps_middleware:
  assumes "c_ctx c \<noteq> None" "wp h (\<lambda>(c', x, r) w'. c' = c \<and> settled w w') w"
  shows "keeps_client c w (middleware None c vars h)"
proof -
  have "wp (middleware None c vars h) (\<lambda>(c', x, r) w'. c' = c \<and> settled w w') w"
    unfolding middleware_run [OF assms(1)] wp_rules
    by (rule wp_mono [OF assms(2)]) (auto split: prod.splits)
  then show ?thesis by (auto simp: keeps_client_def wp_def split: prod.splits)
qed

lemma keeps_acting:
  assumes "c_ctx c \<noteq> None" "wp m (\<lambda>r w'. settled w w') w"
  shows "keeps_client c w (middleware None c () (acting c m))"
proof (rule keeps_middleware [OF assms(1)])
  show "wp (acting c m) (\<lambda>(c', x, r) w'. c' = c \<and> settled w w') w"
    unfolding acting_def wp_rules by (rule wp_mono [OF assms(2)]) simp
qed

lemma keeps_client_eval: "safe w \<Longrightarrow> c_ctx c \<noteq> None \<Longrightarrow> keeps_client c w (client_eval tab None c expr out)"
  unfolding client_eval_def by (intro keeps_middleware decode_result_settled eval_string_one)

lemma keeps_eval_flake_output:
  "safe w \<Longrightarrow> c_ctx c \<noteq> None \<Longrightarrow> cells w (ctx_id (ev_ctx (lf_evaluator f))) = Some (KContext, rc) \<Longrightarrow>
   keeps_client c w (eval_flake_output tab None c f path out)"
  unfolding eval_flake_output_def by (intro keeps_middleware decode_result_settled get_output_value_one)

lemma keeps_client_unmarshal:
  assumes "safe w" "c_ctx c \<noteq> None" shows "keeps_client c w (client_unmarshal tab None c v out)"
proof -
  have "wp (decode tab c out fmt v) (\<lambda>(c', x, r) w'. c' = c \<and> settled w w') w" for fmt
    unfolding decode_def wp_rules by (rule wp_mono [OF unmarshal_settles [OF assms(1)]]) simp
  then show ?thesis
    unfolding client_unmarshal_def by (intro keeps_middleware [OF assms(2)])
qed

lemma keeps_process_daemon_connection:
  "safe w \<Longrightarrow> c_ctx c \<noteq> None \<Longrightarrow>
   keeps_client c w (process_daemon_connection None c ifd ofd trusted recursive)"
  unfolding process_daemon_connection_def
  by (intro keeps_acting, assumption, unfold wp_rules)
    (auto intro!: ctx.wp_borrow sto.wp_borrow wp_duplicate_fd wp_sys_close wp_run_connection)

text \<open>
  C17: evaluating an expression or a flake output and decoding it into a Go variable, decoding a value
  the caller holds, and serving a daemon connection leave nothing behind, whether they succeed or fail:
  every value on the way to the result is released, and so are the duplicated descriptors.
\<close>

theorem operations_leave_nothing:
  assumes "safe w" "complete c" "cells w (ctx_id (ev_ctx (lf_evaluator f))) = Some (KContext, rc)"
  shows "keeps_client c w (client_eval tab None c expr out) \<and>
    keeps_client c w (eval_flake_output tab None c f path out) \<and>
    keeps_client c w (client_unmarshal tab None c v out) \<and>
    keeps_client c w (process_daemon_connection None c ifd ofd trusted recursive)"
  using assms
  by (auto simp: complete_def intro: keeps_client_eval keeps_eval_flake_output keeps_client_unmarshal
      keeps_process_daemon_connection)

lemma operations_leave_nothing_witness:
  "keeps_client sample_client (busy_world obliging) (client_eval ascii_tables None sample_client ''1'' OutNil) \<and>
   keeps_client sample_client (busy_world obliging)
     (eval_flake_output ascii_tables None sample_client sample_flake [''a''] OutNil) \<and>
   keeps_client sample_client (busy_world obliging) (client_unmarshal ascii_tables None sample_client (Some sample_value) OutNil) \<and>
   keeps_client sample_client (busy_world obliging) (process_daemon_connection None sample_client 3 4 True False)"
proof (rule operations_leave_nothing [where rc = 100])
  show "cells (busy_world obliging) (ctx_id (ev_ctx (lf_evaluator sample_flake))) = Some (KContext, 100)"
    by (simp add: busy_world_def open_world_def)
qed simp_all

section \<open>Cancelled operations\<close>

text \<open>\<open>closes_client e c w m\<close>: \<open>m\<close> ends with an empty client and an error that starts with the reason of
  the cancellation, every wrapper of \<open>c\<close> is closed, no other wrapper is, and no handle is lost.\<close>

definition closes_client :: "err \<Rightarrow> client \<Rightarrow> world \<Rightarrow> 'a outcome io \<Rightarrow> bool" where
  "closes_client e c w m \<longleftrightarrow> (case run_state m w of ((c', x, r), w') \<Rightarrow>
     c' = zero_client \<and> (\<exists>es. r = Inl (Joined (e # es))) \<and> turned {#} (parts c) w w')"

lemma closes_middleware:
  assumes "serves c nothing h" "safe w" "complete c"
  shows "closes_client e c w (middleware (Some e) c vars h)"
  using middleware_cancelled [OF assms, of e vars]
  by (auto simp: closes_client_def wp_def nothing_def split: prod.splits)

text \<open>
  C18: a call that is cancelled closes the whole client, not only the call: it reports the context's
  error first, whatever the handler returned, and the client's wrappers are closed whatever the native
  library answered.
\<close>

theorem cancelled_operations_close_client:
  assumes "safe w" "complete c"
  shows "closes_client e c w (client_eval tab (Some e) c expr out) \<and>
    closes_client e c w (client_eval_with_args tab (Some e) c expr args out) \<and>
    closes_client e c w (eval_flake_output tab (Some e) c f path out) \<and>
    closes_client e c w (client_unmarshal tab (Some e) c v out) \<and>
    closes_client e c w (realize_output (Some e) c drv name) \<and>
    closes_client e c w (process_daemon_connection (Some e) c ifd ofd trusted recursive)"
  unfolding client_eval_def client_eval_with_args_def eval_flake_output_def client_unmarshal_def
    realize_output_def process_daemon_connection_def using assms
  by (intro conjI closes_middleware serves_decode_result serves_decode serves_realize_output serves_connection
      get_output_value_creates eval_with_args_creates eval_string_creates)

lemma cancelled_operations_close_client_witness:
  "closes_client (ContextErr ''context canceled'') sample_client (sample_world obliging)
     (client_eval ascii_tables (Some (ContextErr ''context canceled'')) sample_client ''1'' OutNil)"
  using cancelled_operations_close_client [OF safe_sample complete_sample, where e = "ContextErr ''context canceled''"
      and tab = ascii_tables and expr = "''1''" and out = OutNil]
  by blast

section \<open>A value handed out by a cancelled call\<close>

text \<open>\<open>gives P m\<close>: whatever the world, a result of \<open>m\<close> that is no error satisfies \<open>P\<close>.\<close>

definition gives :: "('a \<Rightarrow> bool) \<Rightarrow> 'a res io \<Rightarrow> bool" where
  "gives P m \<longleftrightarrow> yields m (\<lambda>r. \<forall>v. r = Inr v \<longrightarrow> P v)"

lemma gives_ok: "P x \<Longrightarrow> gives P (ok x)"
  by (simp add: gives_def ok_def yields_return)

lemma gives_fail: "gives P (fail e)"
  by (simp add: gives_def fail_def yields_return)

lemma gives_bind: "(\<And>x. gives P (k x)) \<Longrightarrow> gives P (m \<bind> k)"
  unfolding gives_def by (rule yields_bind [OF yields_any])

lemma gives_attempt:
  "gives R m \<Longrightarrow> (\<And>e. gives P (h e)) \<Longrightarrow> (\<And>x. R x \<Longrightarrow> gives P (k x)) \<Longrightarrow> gives P (attempt m h k)"
  unfolding gives_def attempt_def by (erule yields_bind) (auto split: sum.split)

lemma gives_chk: "gives R m \<Longrightarrow> (\<And>x. R x \<Longrightarrow> gives P (k x)) \<Longrightarrow> gives P (chk m f k)"
  unfolding chk_def by (rule gives_attempt [OF _ gives_fail])

lemma gives_any: "gives (\<lambda>x. True) m"
  by (simp add: gives_def yields_any)

lemma gives_option: "(x = None \<Longrightarrow> gives P a) \<Longrightarrow> (\<And>y. x = Some y \<Longrightarrow> gives P (b y)) \<Longrightarrow>
    gives P (case x of None \<Rightarrow> a | Some y \<Rightarrow> b y)"
  by (simp split: option.split)

lemma gives_if: "gives P a \<Longrightarrow> gives P b \<Longrightarrow> gives P (if c then a else b)"
  by simp

lemmas gives_intros = gives_ok gives_fail gives_bind gives_option gives_if

lemma gives_wrap_value: "gives (\<lambda>v. val_ctx v = ev_ctx e) (wrap_value e p)"
  unfolding wrap_value_def by (intro gives_intros) simp

lemma gives_fail_status: "gives P (fail_status rc fmt args)"
  unfolding fail_status_def by (intro gives_intros)

lemma gives_attr_value: "gives (\<lambda>v. val_ctx v = ev_ctx e) (attr_value e v name)"
  unfolding attr_value_def with_eval_def
  by (intro gives_intros gives_chk [OF gives_any] gives_chk [OF gives_wrap_value])

lemma gives_output_attrs: "gives (\<lambda>v. val_ctx v = ev_ctx (lf_evaluator f)) (output_attrs f)"
  unfolding output_attrs_def
  by (intro gives_intros gives_fail_status gives_chk [OF gives_any] gives_attempt [OF gives_wrap_value])

lemma gives_defer: "gives P m \<Longrightarrow> gives P (defer_value_close v m)"
  unfolding gives_def defer_value_close_def
  by (erule yields_bind) (auto intro: yields_bind [OF yields_any] yields_return)

lemma gives_descend:
  "P root \<Longrightarrow> (\<And>v. val_ctx v = ev_ctx e \<Longrightarrow> P v) \<Longrightarrow> gives P (descend e root path)"
proof (induction path arbitrary: root)
  case Nil
  then show ?case by (simp add: gives_ok)
next
  case (Cons attr path)
  show ?case
    unfolding descend.simps
    by (intro gives_defer gives_if gives_fail gives_chk [OF gives_any] gives_chk [OF gives_attr_value]
        Cons.IH Cons.prems(2))
qed

lemma gives_get_output_value:
  assumes "ev_ctx (the (c_evaluator c)) = ctx" "ev_ctx (lf_evaluator f) = ctx"
  shows "gives (\<lambda>v. val_ctx v = ctx) (get_output_value c f None path)"
  unfolding get_output_value_def option.case using assms
  by (intro gives_chk [OF gives_output_attrs] gives_descend) simp_all

definition handed_out :: "context_ref \<Rightarrow> world \<Rightarrow> value_ref option \<Rightarrow> unit res \<Rightarrow> world \<Rightarrow> handle multiset \<Rightarrow> bool" where
  "handed_out ctx w x r w' L \<longleftrightarrow> L = {#} \<and> (\<forall>v. x = Some v \<longrightarrow> created KValue w (val_id v) w' \<and> val_ctx v = ctx)"

lemma wp_gives: "wp m Q w \<Longrightarrow> gives P m \<Longrightarrow> wp m (\<lambda>r w'. Q r w' \<and> (\<forall>v. r = Inr v \<longrightarrow> P v)) w"
  by (simp add: gives_def yields_def wp_conj)

lemma serves_get_output_value:
  assumes "complete c" "ev_ctx (the (c_evaluator c)) = ctx" "ev_ctx (lf_evaluator f) = ctx"
  shows "serves c (handed_out ctx) (giving c None
    (chk (get_output_value c f None path) (wrapf fmt []) (\<lambda>v. ok (Some v))))"
proof (rule serves_giving [OF assms(1)], unfold wp_rules)
  fix w assume "safe w"
  from wp_gives [OF get_output_value_creates [OF this] gives_get_output_value [OF assms(2,3)]]
  show "wp (get_output_value c f None path) (\<lambda>r w'. case r of
      Inl e \<Rightarrow> \<exists>L. leaves L w w' \<and> (case Inl (wrapf fmt [] e) of
        Inl e \<Rightarrow> handed_out ctx w None (Inl e) w' L | Inr x \<Rightarrow> handed_out ctx w x (Inr ()) w' L)
    | Inr v \<Rightarrow> \<exists>L. leaves L w w' \<and> (case Inr (Some v) of
        Inl e \<Rightarrow> handed_out ctx w None (Inl e) w' L | Inr x \<Rightarrow> handed_out ctx w x (Inr ()) w' L)) w"
    by (rule wp_mono) (auto simp: handed_out_def leaves_grows \<open>safe w\<close> split: sum.split)
qed

text \<open>
  C39: when \<^verbatim>\<open>GetFlakeOutputValue\<close> is cancelled after its handler had obtained a value, the
  caller gets that value beside the error, but the client has closed the context the value needs to be
  released: its handle is live, \<^verbatim>\<open>Value.Close\<close> fails, and the value stays open for good.
\<close>

theorem cancelled_value_stays_open:
  assumes "safe w" "complete c" "c_ctx c = Some ctx" "ev_ctx (the (c_evaluator c)) = ctx" "ev_ctx (lf_evaluator f) = ctx"
    "run_state (get_flake_output_value (Some e) c f path) w = ((c', Some v, r), w')"
  shows "\<exists>p e'. isl r \<and> ptr_at KValue (val_id v) w' = Some p \<and> (KValue, p) \<in># live w' \<and>
    run_state (value_close v) w' = (Inl e', w')"
proof -
  have "wp (get_flake_output_value (Some e) c f path) (\<lambda>(c', x, r) w'. safe w' \<and> isl r \<and> (\<forall>v. x = Some v \<longrightarrow>
      ptr_at KValue (val_id v) w' \<noteq> None \<and> ptr_at KContext (ctx_id (val_ctx v)) w' = None)) w"
    unfolding get_flake_output_value_def
  proof (rule wp_cancelled [OF serves_get_output_value [OF assms(2,4,5)] assms(1,2)], goal_cases)
    case (1 c' x r L w1 w2 ks w' es)
    have "(KContext, ctx_id ctx) \<in> set (parts c')"
      using 1(2) assms(3) by (auto simp: widened_def parts_def)
    moreover have "(KValue, i) \<notin> set (parts c' @ ks)" for i
      using 1(6) by (auto simp: parts_def)
    moreover have "safe w'" using shut_safe [OF 1(5)] leaves_safe [OF 1(4)] by simp
    ultimately show ?case
      using 1(3,5) by (auto simp: handed_out_def shut_def created_def ptr_at_cell joined_def errors_join_def
          map_filter_def)
  qed
  from wp_run [OF assms(6) this] have "safe w'" "isl r" and
    held: "ptr_at KValue (val_id v) w' \<noteq> None" and closed: "ptr_at KContext (ctx_id (val_ctx v)) w' = None"
    by simp_all
  from held obtain p where p: "ptr_at KValue (val_id v) w' = Some p" by auto
  then have "(KValue, p) \<in># live w'" using \<open>safe w'\<close> by (auto simp: ptr_at_Some safe_cell_live)
  moreover have "run_state (value_close v) w' = (Inl (wrapf ''eval: failed to borrow context: %w'' [] ErrClosed), w')"
    using p closed by (simp add: value_close_def get_ptr_def ctx.borrow_run chk_def attempt_def fail_def)
  ultimately show ?thesis using p \<open>isl r\<close> by blast
qed

lemma cancelled_value_sample:
  "wp (get_flake_output_value (Some (ContextErr ''context canceled'')) sample_client sample_flake [])
     (\<lambda>(c', x, r) w'. x \<noteq> None) (busy_world obliging)"
  unfolding get_flake_output_value_def middleware_def
  by (simp add: wp_rules wp_raw wp_const sample_client_def sample_flake_def sample_context_def sample_evaluator_def
      obliging_def busy_world_def open_world_def interrupt_request_def interrupt_clear_def context_new_def
      check_code_def check_ptr_def check_pending_def ErrorCodeOK_def await_and_close_def store_interrupt_def
      giving_def get_output_value_def output_attrs_def ptr_at_def context_borrow_def store_borrow_def
      evaluator_borrow_def flakesettings_borrow_def wrap_value_def)

lemma sample_parts: "c_ctx sample_client = Some sample_context"
  "ev_ctx (the (c_evaluator sample_client)) = sample_context"
  by (simp_all add: sample_client_def sample_context_def)

lemma cancelled_value_stays_open_witness:
  "case run_state (get_flake_output_value (Some (ContextErr ''context canceled'')) sample_client sample_flake [])
      (busy_world obliging) of ((c', x, r), w') \<Rightarrow>
     \<exists>v p e'. x = Some v \<and> isl r \<and> ptr_at KValue (val_id v) w' = Some p \<and> (KValue, p) \<in># live w' \<and>
       run_state (value_close v) w' = (Inl e', w')"
proof -
  obtain c' x r w' where run: "run_state (get_flake_output_value (Some (ContextErr ''context canceled''))
      sample_client sample_flake []) (busy_world obliging) = ((c', x, r), w')"
    by (metis prod.exhaust)
  then obtain v where "x = Some v" using wp_run [OF run cancelled_value_sample] by auto
  with run show ?thesis
    using cancelled_value_stays_open [of "busy_world obliging" sample_client sample_context sample_flake
        "ContextErr ''context canceled''" "[]" c' v r w']
    by (simp add: sample_parts)
qed

end
