(* ===== verification/Client_Effects.thy ===== *)
theory Client_Effects
  imports Samples
begin

text \<open>
  What single operations of the client do: the settings \<^verbatim>\<open>NewClient\<close> applies and their order,
  the descriptors \<^verbatim>\<open>ProcessDaemonConnection\<close> duplicates, the store paths \<^verbatim>\<open>Realize\<close>
  goes through.
\<close>

section \<open>Settings\<close>

text \<open>The keys in the order of \<^verbatim>\<open>applyClientSettings\<close>.\<close>

definition ordered_keys :: "(string \<times> string) list \<Rightarrow> string list" where
  "ordered_keys m =
     (if map_of m settingExperimentalFeatures = None then [] else [settingExperimentalFeatures]) @
     sort_strings (filter (\<lambda>key. key \<noteq> settingExperimentalFeatures) (map fst m))"

definition setting_calls :: "ptr \<Rightarrow> (string \<times> string) list \<Rightarrow> call list" where
  "setting_calls rc m = map (\<lambda>k. U (SettingSet rc k (the (map_of m k)))) (ordered_keys m)"

lemma accepted_setting:
  assumes "ptr_at KContext (ctx_id ctx) w = Some rc" "ans_code (nix w) (hist w) (U (SettingSet rc k v)) = 0"
  shows "run_state (context_set_setting ctx k v) w = (Inr (), tick (U (SettingSet rc k v)) w)"
  using assms
  by (simp add: context_set_setting_def chk_def attempt_def ctx.borrow_run check_code_def raw_code_def ok_def
      ErrorCodeOK_def)

lemma ptr_at_tick [simp]: "ptr_at k i (tick c w) = ptr_at k i w"
  by (simp add: ptr_at_def)

lemma accepted_settings:
  assumes "ptr_at KContext (ctx_id ctx) w = Some rc" "\<forall>h k v. ans_code (nix w) h (U (SettingSet rc k v)) = 0"
  shows "\<exists>w'. run_state (set_settings ctx m keys) w = (Inr (), w') \<and>
    hist w' = rev (map (\<lambda>k. U (SettingSet rc k (the (map_of m k)))) keys) @ hist w"
  using assms
proof (induction keys arbitrary: w)
  case Nil
  then show ?case by (simp add: ok_def)
next
  case (Cons k keys)
  let ?w = "tick (U (SettingSet rc k (the (map_of m k)))) w"
  have "\<exists>w'. run_state (set_settings ctx m keys) ?w = (Inr (), w') \<and>
      hist w' = rev (map (\<lambda>k. U (SettingSet rc k (the (map_of m k)))) keys) @ hist ?w"
    using Cons.prems by (intro Cons.IH) simp_all
  then show ?case
    using Cons.prems by (simp add: chk_def attempt_def accepted_setting)
qed

text \<open>
  C34: \<^verbatim>\<open>applyClientSettings\<close> sets every setting of the map once: the experimental features
  first, because other settings may need them, and then the rest in the order of their names.
\<close>

theorem settings_applied_in_order:
  assumes "ptr_at KContext (ctx_id ctx) w = Some rc" "\<forall>h k v. ans_code (nix w) h (U (SettingSet rc k v)) = 0"
  shows "\<exists>w'. run_state (apply_client_settings ctx m) w = (Inr (), w') \<and> hist w' = rev (setting_calls rc m) @ hist w"
proof (cases "map_of m settingExperimentalFeatures")
  case None
  then show ?thesis
    using accepted_settings [OF assms, of m]
    by (simp add: apply_client_settings_def chk_def attempt_def ok_def setting_calls_def ordered_keys_def)
next
  case (Some features)
  let ?w = "tick (U (SettingSet rc settingExperimentalFeatures features)) w"
  from accepted_settings [of ctx ?w rc m] assms Some show ?thesis
    by (simp add: apply_client_settings_def chk_def attempt_def ok_def setting_calls_def ordered_keys_def
        accepted_setting)
qed

lemma settings_applied_in_order_witness:
  "\<exists>w'. run_state (apply_client_settings sample_context [(''timeout'', ''5''), (''cores'', ''4''),
        (settingExperimentalFeatures, ''flakes'')]) (sample_world obliging) = (Inr (), w') \<and>
     hist w' = [U (SettingSet 100 ''timeout'' ''5''), U (SettingSet 100 ''cores'' ''4''),
       U (SettingSet 100 settingExperimentalFeatures ''flakes'')]"
  using settings_applied_in_order [of sample_context "sample_world obliging" 100
      "[(''timeout'', ''5''), (''cores'', ''4''), (settingExperimentalFeatures, ''flakes'')]"]
  by (simp add: sample_world_def obliging_def setting_calls_def ordered_keys_def settingExperimentalFeatures_def
      sort_strings_def)

text \<open>
  The order in which Go iterates over the settings map does not matter: two enumerations of the
  same map lead to the same calls and the same outcome.
\<close>

theorem settings_iteration_irrelevant:
  assumes "distinct (map fst m)" "distinct (map fst m')" "map_of m = map_of m'"
  shows "apply_client_settings ctx m = apply_client_settings ctx m'"
proof -
  have "sort_strings (filter P (map fst m)) = sort_strings (filter P (map fst m'))" for P
    using map_of_keys(1) [OF assms] by (intro sort_strings_cong) (metis mset_filter)
  moreover have "set_settings ctx m keys = set_settings ctx m' keys" for keys
    by (induction keys) (simp_all add: assms(3))
  ultimately show ?thesis
    by (simp add: apply_client_settings_def assms(3))
qed

lemma settings_iteration_irrelevant_witness:
  "apply_client_settings sample_context [(''cores'', ''4''), (''timeout'', ''5'')] =
   apply_client_settings sample_context [(''timeout'', ''5''), (''cores'', ''4'')]"
  by (rule settings_iteration_irrelevant) (auto simp: fun_eq_iff)

section \<open>Descriptors\<close>

text \<open>
  C26: \<^verbatim>\<open>duplicateFD\<close> rejects a descriptor that is negative or does not fit an
  \<^verbatim>\<open>int32\<close> without a system call; a duplicate it returns is one new open descriptor that fits
  an \<^verbatim>\<open>int32\<close>; on an error no descriptor is left open.
\<close>

theorem duplicate_fd_bounds:
  assumes "safe w" "run_state (duplicate_fd fd) w = (r, w')"
  shows "case r of
      Inl e \<Rightarrow> settled w w' \<and> (\<not> (0 \<le> fd \<and> fd \<le> MaxInt32) \<longrightarrow> w' = w)
    | Inr d \<Rightarrow> 0 \<le> fd \<and> fd \<le> MaxInt32 \<and> int32_of (int d) = int d \<and> live w' = add_mset (KFd, d) (live w) \<and>
        (\<forall>i. cells w' i = cells w i)"
proof (cases "0 \<le> fd \<and> fd \<le> MaxInt32")
  case False
  then show ?thesis using assms(2) by (cases "fd < 0") (auto simp: duplicate_fd_def fail_def)
next
  case True
  have "wp (duplicate_fd fd) (\<lambda>r w'. case r of Inl e \<Rightarrow> settled w w'
      | Inr d \<Rightarrow> int32_of (int d) = int d \<and> live w' = add_mset (KFd, d) (live w) \<and> (\<forall>i. cells w' i = cells w i)) w"
    using assms(1) by (auto intro!: wp_duplicate_fd)
  from wp_run [OF assms(2) this] True show ?thesis by (auto split: sum.splits)
qed

lemma duplicate_fd_bounds_witness:
  "\<exists>r w'. run_state (duplicate_fd 3) (empty_world obliging) = (r, w') \<and> (case r of
      Inl e \<Rightarrow> settled (empty_world obliging) w'
    | Inr d \<Rightarrow> int32_of (int d) = int d \<and> live w' = {#(KFd, d)#})"
  using duplicate_fd_bounds [OF safe_empty, of 3 obliging]
  by (cases "run_state (duplicate_fd 3) (empty_world obliging)")
    (auto simp: empty_world_def split: sum.splits)

section \<open>Realisation\<close>



end
