(* ===== verification/Client_Refinement.thy ===== *)
theory Client_Refinement
  imports Client_Guarantees Client_Middleware
begin

text \<open>
  The operations of \<open>Client_Ops\<close> order the calls of one operation and leave out the goroutines; the
  protocol of \<open>Client_Middleware\<close> has the goroutines and leaves out what the handler does. Here each
  operation, cancelled or not, is shown to be a run of the protocol from one idle state to another.
\<close>

section \<open>The abstraction\<close>

text \<open>A client between two calls: nobody is inside, no interrupt is pending, and the context is there
  exactly if the protocol has it open.\<close>

definition represents :: "client \<Rightarrow> protocol \<Rightarrow> bool" where
  "represents c s \<longleftrightarrow> \<not> busy s \<and> \<not> interrupt s \<and> (ctx_open s \<longleftrightarrow> c_ctx c \<noteq> None)"

text \<open>The Go errors that the answers of the protocol stand for; \<open>cancel\<close> is \<^verbatim>\<open>ctx.Err()\<close> when the
  select took its branch.\<close>

fun answers :: "err option \<Rightarrow> answer \<Rightarrow> unit res \<Rightarrow> bool" where
  "answers cancel Refused r = (r = Inl ErrConcurrentUse)"
| "answers cancel WasClosed r = (r = Inl ErrClosed)"
| "answers cancel Completed r = (cancel = None \<and>
     (r = Inr () \<or> (\<exists>e. r = Inl (wrapf ''middleware: failed to call handler: %w'' [] e))))"
| "answers cancel Interrupted r = (\<exists>e es. cancel = Some e \<and> r = Inl (Joined (e # es)))"
| "answers cancel ClosedNow r = (r = Inr ())"

text \<open>\<open>reaches cancel t s c r\<close>: a run of the goroutine \<open>t\<close> and its handler takes the protocol from \<open>s\<close>
  to a state that represents \<open>c\<close>, with an answer that stands for \<open>r\<close>. \<open>runs_as cancel t s w m\<close>: this holds
  of what \<open>m\<close> makes of the client in the world \<open>w\<close> and returns.\<close>

definition reaches :: "err option \<Rightarrow> nat \<Rightarrow> protocol \<Rightarrow> client \<Rightarrow> unit res \<Rightarrow> bool" where
  "reaches cancel t s c r \<longleftrightarrow>
     (\<exists>n s' a. own_run t n s s' \<and> control s' t = Returned a \<and> represents c s' \<and> answers cancel a r)"

definition runs_as :: "err option \<Rightarrow> nat \<Rightarrow> protocol \<Rightarrow> world \<Rightarrow> 'a outcome io \<Rightarrow> bool" where
  "runs_as cancel t s w m \<longleftrightarrow> (case run_state m w of ((c', x, r), w') \<Rightarrow> reaches cancel t s c' r)"

lemma reachesI:
  "own_run t n s s' \<Longrightarrow> control s' t = Returned a \<Longrightarrow> represents c s' \<Longrightarrow> answers cancel a r \<Longrightarrow>
   reaches cancel t s c r"
  unfolding reaches_def by blast

lemma runs_as_wp: "runs_as cancel t s w m \<longleftrightarrow> wp m (\<lambda>(c', x, r) w'. reaches cancel t s c' r) w"
  by (auto simp: runs_as_def wp_def split: prod.splits)

section \<open>Runs of the protocol\<close>

lemma own_caller: "protocol_step (Caller t) s s' \<Longrightarrow> own_run t n s' s'' \<Longrightarrow> own_run t (Suc n) s s''"
  by (blast intro: own_run_step)

lemma own_handler: "protocol_step (Handler t) s s' \<Longrightarrow> own_run t n s' s'' \<Longrightarrow> own_run t (Suc n) s s''"
  by (blast intro: own_run_step)

text \<open>A step of the caller or of its handler, with the rest of the run as the first thing left to show.\<close>

lemmas via_enter = own_caller [OF enter, rotated -1]
lemmas via_enter_close = own_caller [OF enter_close, rotated -1]
lemmas via_found_closed = own_caller [OF found_closed, rotated -1]
lemmas via_spawn = own_caller [OF spawn, rotated -1]
lemmas via_receive = own_caller [OF receive, rotated -1]
lemmas via_request = own_caller [OF request, rotated -1]
lemmas via_interrupt_store = own_caller [OF interrupt_store, rotated -1]
lemmas via_await = own_caller [OF await, rotated -1]
lemmas via_clear = own_caller [OF clear, rotated -1]
lemmas via_close_client = own_caller [OF close_client, rotated -1]
lemmas via_close_now = own_caller [OF close_now, rotated -1]
lemmas via_release = own_caller [OF release, rotated -1]
lemmas via_finish = own_handler [OF finish, rotated -1]

text \<open>The four ways through: closed already, completed, interrupted, and \<^verbatim>\<open>Close\<close>.\<close>

lemma run_closed:
  assumes "control s t = Outside" "\<not> busy s" "\<not> ctx_open s"
  shows "\<exists>n s'. own_run t n s s' \<and> control s' t = Returned WasClosed \<and> \<not> busy s' \<and> interrupt s' = interrupt s \<and>
    \<not> ctx_open s'"
  by (intro exI conjI, rule via_enter, rule via_found_closed, rule via_release, rule own_run_here)
      (use assms in simp_all)

lemma run_completed:
  assumes "control s t = Outside" "\<not> busy s" "ctx_open s"
  shows "\<exists>n s'. own_run t n s s' \<and> control s' t = Returned Completed \<and> \<not> busy s' \<and> interrupt s' = interrupt s \<and>
    ctx_open s'"
  by (intro exI conjI, rule via_enter, rule via_spawn, rule via_finish, rule via_receive, rule
      via_release, rule own_run_here) (use assms in simp_all)

lemma run_interrupted:
  assumes "control s t = Outside" "\<not> busy s" "ctx_open s" "cancelled s t"
  shows "\<exists>n s'. own_run t n s s' \<and> control s' t = Returned Interrupted \<and> \<not> busy s' \<and> \<not> interrupt s' \<and>
    \<not> ctx_open s'"
  by (intro exI conjI, rule via_enter, rule via_spawn, rule via_request, rule via_interrupt_store,
      rule via_finish, rule via_await, rule via_clear, rule via_close_client, rule via_release,
      rule own_run_here) (use assms in simp_all)

lemma run_close:
  assumes "control s t = Outside" "\<not> busy s"
  shows "\<exists>n s'. own_run t n s s' \<and> control s' t = Returned ClosedNow \<and> \<not> busy s' \<and> interrupt s' = interrupt s \<and>
    \<not> ctx_open s'"
  by (intro exI conjI, rule via_enter_close, rule via_close_now, rule via_release, rule
      own_run_here) (use assms in simp_all)

section \<open>Operations\<close>

lemma middleware_runs_as:
  assumes "serves c R h" "safe w" "complete c" "represents c s" "control s t = Outside"
    "cancel \<noteq> None \<Longrightarrow> cancelled s t"
  shows "runs_as cancel t s w (middleware cancel c vars h)"
proof -
  have idle: "\<not> busy s" "\<not> interrupt s" "ctx_open s" and ctx: "c_ctx c \<noteq> None"
    using assms(3,4) by (auto simp: represents_def complete_def)
  show ?thesis
  proof (cases cancel)
    case None
    obtain n s' where run: "own_run t n s s'" "control s' t = Returned Completed" "\<And>c'. complete c' \<Longrightarrow> represents c' s'"
      using run_completed [OF assms(5) idle(1,3)] idle(2) by (auto simp: represents_def complete_def)
    show ?thesis
      unfolding runs_as_wp None middleware_run [OF ctx] wp_rules
    proof (rule serves_run [OF assms(1,2)], goal_cases)
      case (1 c' x r w' L)
      then have "complete c'" by (simp add: widened_def)
      have "answers None Completed (case r of
          Inl e \<Rightarrow> Inl (wrapf ''middleware: failed to call handler: %w'' [] e) | Inr _ \<Rightarrow> Inr ())"
        by (auto split: sum.split)
      then show ?case
        unfolding prod.case fst_conv snd_conv
        by (rule reachesI [OF run(1,2) run(3) [OF \<open>complete c'\<close>]])
    qed
  next
    case (Some e)
    obtain n s' where run: "own_run t n s s'" "control s' t = Returned Interrupted" "represents zero_client s'"
      using run_interrupted [OF assms(5) idle(1,3)] assms(6) Some by (auto simp: represents_def zero_client_def)
    show ?thesis
      unfolding runs_as_wp Some
      by (rule wp_mono [OF middleware_cancelled [OF assms(1-3)]]) (auto intro!: reachesI [OF run])
  qed
qed

lemma closed_runs_as:
  assumes "c_ctx c = None" "represents c s" "control s t = Outside"
  shows "runs_as cancel t s w (middleware cancel c vars h)"
proof -
  have "\<not> busy s" "\<not> interrupt s" "\<not> ctx_open s" using assms(1,2) by (auto simp: represents_def)
  then obtain n s' where "own_run t n s s'" "control s' t = Returned WasClosed" "represents c s'"
    using run_closed [OF assms(3)] assms(1) by (auto simp: represents_def)
  then show ?thesis
    unfolding runs_as_def middleware_closed [OF assms(1)] prod.case
    by (rule reachesI) simp
qed

lemma serves_hand_out:
  assumes "complete c"
  shows "serves c nothing (giving c None
    (chk (get_output_value c f None path) (wrapf fmt []) (\<lambda>v. ok (Some v))))"
proof (rule serves_giving [OF assms], unfold wp_rules)
  fix w assume "safe w"
  from get_output_value_creates [OF this]
  show "wp (get_output_value c f None path) (\<lambda>r w'. case r of
      Inl e \<Rightarrow> \<exists>L. leaves L w w' \<and> (case Inl (wrapf fmt [] e) of
        Inl e \<Rightarrow> nothing w None (Inl e) w' L | Inr x \<Rightarrow> nothing w x (Inr ()) w' L)
    | Inr v \<Rightarrow> \<exists>L. leaves L w w' \<and> (case Inr (Some v) of
        Inl e \<Rightarrow> nothing w None (Inl e) w' L | Inr x \<Rightarrow> nothing w x (Inr ()) w' L)) w"
    by (rule wp_mono) (auto simp: nothing_def leaves_grows \<open>safe w\<close> split: sum.split)
qed

text \<open>\<^verbatim>\<open>Close\<close> as an operation with nothing to return but its error.\<close>

definition closing :: "client \<Rightarrow> unit outcome io" where
  "closing c = do { res \<leftarrow> client_close False c; State_Monad.return (fst res, (), snd res) }"

lemma closing_runs_as:
  assumes "safe w" "represents c s" "control s t = Outside"
  shows "runs_as cancel t s w (closing c)"
proof -
  obtain n s' where run: "own_run t n s s'" "control s' t = Returned ClosedNow" "\<not> busy s'" "\<not> interrupt s'"
    "\<not> ctx_open s'"
    using run_close [OF assms(3)] assms(2) by (auto simp: represents_def)
  have idle: "represents c' s'" if "c_ctx c' = None" for c'
    using run that by (simp add: represents_def)
  have "wp (client_close False c) (\<lambda>r w'. represents (fst r) s' \<and> snd r = Inr ()) w"
  proof (cases "c_ctx c = None")
    case True
    with idle show ?thesis
      by (simp add: client_close_def close_locked_def wp_rules)
  next
    case False
    show ?thesis
      by (rule wp_mono [OF wp_client_close [OF assms(1) False]])
        (auto simp: zero_client_def intro!: idle)
  qed
  then show ?thesis
    unfolding runs_as_wp closing_def wp_rules
    by (rule wp_mono) (auto intro!: reachesI [OF run(1,2)])
qed

lemma client_runs_as:
  assumes "complete c \<Longrightarrow> serves c R h" "safe w" "c_ctx c = None \<or> complete c" "represents c s"
    "control s t = Outside" "cancel \<noteq> None \<Longrightarrow> cancelled s t"
  shows "runs_as cancel t s w (middleware cancel c vars h)"
  using assms by (auto intro: closed_runs_as middleware_runs_as)

text \<open>
  The client refines its concurrency protocol. Every operation, run on an open or a closed client
  by a goroutine that found it free, cancelled or not and whatever the native library answers, returns
  what some run of that goroutine and its handler returns, and leaves the client open exactly if the
  protocol does: \<^verbatim>\<open>ErrClosed\<close> after closing, the wrapped error of the handler, or the
  joined errors of a cancellation that closed the client. The result is idle again, so this extends to
  any sequence of calls.
\<close>

theorem operations_refine_protocol:
  assumes "safe w" "c_ctx c = None \<or> complete c" "represents c s" "control s t = Outside"
    "cancel \<noteq> None \<longrightarrow> cancelled s t"
  shows "runs_as None t s w (open_flake render c ref opts) \<and>
    runs_as cancel t s w (eval_flake_output tab cancel c f path out) \<and>
    runs_as cancel t s w (get_flake_output_value cancel c f path) \<and>
    runs_as cancel t s w (client_eval_with_args tab cancel c expr args out) \<and>
    runs_as cancel t s w (client_eval tab cancel c expr out) \<and>
    runs_as cancel t s w (client_unmarshal tab cancel c v out) \<and>
    runs_as cancel t s w (realize cancel c drv) \<and>
    runs_as cancel t s w (realize_output cancel c drv name) \<and>
    runs_as cancel t s w (process_daemon_connection cancel c ifd ofd trusted recursive) \<and>
    runs_as cancel t s w (closing c)"
  unfolding open_flake_def eval_flake_output_def get_flake_output_value_def client_eval_with_args_def
    client_eval_def client_unmarshal_def realize_def realize_output_def process_daemon_connection_def
  using assms
  by (intro conjI closing_runs_as client_runs_as [where R = nothing] client_runs_as [where R = realise_leaks]
      serves_open_flake serves_hand_out serves_decode_result
      serves_decode serves_realize serves_realize_output serves_connection get_output_value_creates
      eval_with_args_creates eval_string_creates) simp_all

text \<open>The cancelled evaluation of a sample client.\<close>

lemma operations_refine_protocol_witness:
  "runs_as (Some (ContextErr ''context canceled'')) 0 (protocol_start\<lparr>cancelled := (\<lambda>_. True)\<rparr>) (sample_world obliging)
     (client_eval ascii_tables (Some (ContextErr ''context canceled'')) sample_client ''1'' OutNil)"
  using operations_refine_protocol [OF safe_sample disjI2 [OF complete_sample],
      where s = "protocol_start\<lparr>cancelled := (\<lambda>_. True)\<rparr>" and t = 0 and
      cancel = "Some (ContextErr ''context canceled'')" and tab = ascii_tables and expr = "''1''" and out = OutNil]
  by (simp add: represents_def protocol_start_def sample_client_def)

end
