(* ===== verification/Client_History.thy ===== *)
theory Client_History
  imports Client_Refinement
begin

text \<open>
  Whole histories of one client: \<^verbatim>\<open>NewClient\<close>, then any sequence of calls by any goroutines, each with
  a \<^verbatim>\<open>context.Context\<close> that is cancelled or not. A client is shown to be a machine with two states, and
  its history to be a run of the middleware's protocol. \<^verbatim>\<open>WithStore\<close> and its relatives, which run
  a handler of the caller, are not among the calls.
\<close>

section \<open>Calls\<close>

datatype client_call =
    OpenFlake string "flake_option list"
  | EvalFlakeOutput flake_ref "string list" out_arg
  | GetFlakeOutputValue flake_ref "string list"
  | EvalWithArgs string "rvalue option" out_arg
  | Eval string out_arg
  | Unmarshal "value_ref option" out_arg
  | Realize string
  | RealizeOutput string string
  | ProcessDaemonConnection int int bool bool
  | Close

text \<open>The client and the error that a call ends with.\<close>

definition status :: "'a outcome io \<Rightarrow> (client \<times> unit res) io" where
  "status m = do { res \<leftarrow> m; State_Monad.return (fst res, snd (snd res)) }"

text \<open>\<open>cancel\<close> is ignored where the code does not look at a context.\<close>

fun perform :: "(json \<Rightarrow> string) \<Rightarrow> go_tables \<Rightarrow> err option \<Rightarrow> client_call \<Rightarrow> client \<Rightarrow> (client \<times> unit res) io" where
  "perform render tab cancel (OpenFlake ref opts) c = status (open_flake render c ref opts)"
| "perform render tab cancel (EvalFlakeOutput f path out) c = status (eval_flake_output tab cancel c f path out)"
| "perform render tab cancel (GetFlakeOutputValue f path) c = status (get_flake_output_value cancel c f path)"
| "perform render tab cancel (EvalWithArgs expr args out) c = status (client_eval_with_args tab cancel c expr args out)"
| "perform render tab cancel (Eval expr out) c = status (client_eval tab cancel c expr out)"
| "perform render tab cancel (Unmarshal v out) c = status (client_unmarshal tab cancel c v out)"
| "perform render tab cancel (Realize drv) c = status (realize cancel c drv)"
| "perform render tab cancel (RealizeOutput drv name) c = status (realize_output cancel c drv name)"
| "perform render tab cancel (ProcessDaemonConnection ifd ofd trusted recursive) c =
     status (process_daemon_connection cancel c ifd ofd trusted recursive)"
| "perform render tab cancel Close c = status (closing c)"

text \<open>The cancellation a call looks at.\<close>

fun observed :: "client_call \<Rightarrow> err option \<Rightarrow> err option" where
  "observed (OpenFlake ref opts) cancel = None"
| "observed Close cancel = None"
| "observed call cancel = cancel"

text \<open>A history: which goroutine calls, the reason of the cancellation if there is one, the call.\<close>

type_synonym history = "(nat \<times> err option \<times> client_call) list"

fun perform_all :: "(json \<Rightarrow> string) \<Rightarrow> go_tables \<Rightarrow> history \<Rightarrow> client \<Rightarrow> (client \<times> unit res list) io" where
  "perform_all render tab [] c = State_Monad.return (c, [])"
| "perform_all render tab ((t, cancel, call) # calls) c = do {
     res \<leftarrow> perform render tab cancel call c;
     rest \<leftarrow> perform_all render tab calls (fst res);
     State_Monad.return (fst rest, snd res # snd rest)
   }"

definition client_history ::
  "(string list \<Rightarrow> string list) \<Rightarrow> ((string \<times> string) list \<Rightarrow> (string \<times> string) list) \<Rightarrow>
   (json \<Rightarrow> string) \<Rightarrow> go_tables \<Rightarrow> client_config \<Rightarrow> history \<Rightarrow> (client \<times> unit res list) res io"
where
  "client_history order porder render tab cfg calls =
     chk (new_client order porder cfg) (\<lambda>e. e) (\<lambda>c. do {
       res \<leftarrow> perform_all render tab calls c;
       ok res
     })"

section \<open>One call\<close>

text \<open>What a call does to the client, and what it returns.\<close>

definition called :: "err option \<Rightarrow> client \<Rightarrow> client \<Rightarrow> unit res \<Rightarrow> bool" where
  "called cancel c c' r \<longleftrightarrow>
     (if c_ctx c = None then c' = c \<and> r = Inl ErrClosed
      else case cancel of
        None \<Rightarrow> complete c' \<and> answers None Completed r
      | Some e \<Rightarrow> c' = zero_client \<and> answers (Some e) Interrupted r)"

definition closed_or_complete :: "client \<Rightarrow> bool" where
  "closed_or_complete c \<longleftrightarrow> c_ctx c = None \<or> complete c"

lemma middleware_called:
  assumes "complete c \<Longrightarrow> serves c R h" "safe w" "closed_or_complete c"
  shows "wp (status (middleware cancel c vars h)) (\<lambda>(c', r) w'. safe w' \<and> called cancel c c' r) w"
proof (cases "c_ctx c = None")
  case True
  then show ?thesis
    using assms(2) by (simp add: status_def wp_rules wp_def middleware_closed called_def)
next
  case False
  then have complete: "complete c" using assms(3) unfolding closed_or_complete_def by metis
  note serves = assms(1) [OF this]
  show ?thesis
  proof (cases cancel)
    case None
    show ?thesis
      unfolding status_def None middleware_run [OF False] wp_rules
    proof (rule serves_run [OF serves assms(2)], goal_cases)
      case (1 c' x r w' L)
      then have "complete c'" "safe w'" using assms(2) by (simp_all add: widened_def leaves_safe)
      moreover have "answers None Completed (case r of
          Inl e \<Rightarrow> Inl (wrapf ''middleware: failed to call handler: %w'' [] e) | Inr _ \<Rightarrow> Inr ())"
        by (auto split: sum.split)
      ultimately show ?case using False by (auto simp: called_def)
    qed
  next
    case (Some e)
    show ?thesis
      unfolding status_def Some wp_rules
      by (rule wp_mono [OF middleware_cancelled [OF serves assms(2) complete]])
        (use False in \<open>auto simp: called_def turned_def\<close>)
  qed
qed

lemma closing_called:
  assumes "safe w"
  shows "wp (status (closing c)) (\<lambda>(c', r) w'. safe w' \<and> c_ctx c' = None \<and> r = Inr ()) w"
proof (cases "c_ctx c = None")
  case True
  then show ?thesis using assms by (simp add: status_def closing_def client_close_def close_locked_def wp_rules)
next
  case False
  show ?thesis
    unfolding status_def closing_def wp_rules
    by (rule wp_mono [OF wp_client_close [OF assms False]])
      (use assms in \<open>auto simp: zero_client_def shut_safe\<close>)
qed

text \<open>How a call ends, \<^verbatim>\<open>Close\<close> included.\<close>

fun ends :: "err option \<Rightarrow> client_call \<Rightarrow> client \<Rightarrow> client \<Rightarrow> unit res \<Rightarrow> bool" where
  "ends cancel Close c c' r \<longleftrightarrow> c_ctx c' = None \<and> r = Inr ()"
| "ends cancel call c c' r \<longleftrightarrow> called (observed call cancel) c c' r"

lemma perform_ends:
  assumes "safe w" "closed_or_complete c"
  shows "wp (perform render tab cancel call c) (\<lambda>(c', r) w'. safe w' \<and> ends cancel call c c' r) w"
  using assms
  by (cases call; simp only: perform.simps ends.simps observed.simps)
    (simp_all add: open_flake_def eval_flake_output_def get_flake_output_value_def client_eval_with_args_def
      client_eval_def client_unmarshal_def realize_def realize_output_def process_daemon_connection_def
      closing_called middleware_called [OF serves_open_flake] middleware_called [OF serves_hand_out]
      middleware_called [OF serves_decode_result] middleware_called [OF serves_decode]
      middleware_called [OF serves_realize] middleware_called [OF serves_realize_output]
      middleware_called [OF serves_connection] get_output_value_creates eval_with_args_creates eval_string_creates)

lemma ends_closed_or_complete: "ends cancel call c c' r \<Longrightarrow> closed_or_complete c \<Longrightarrow> closed_or_complete c'"
  by (cases call) (auto simp: called_def closed_or_complete_def zero_client_def split: if_splits option.splits)

section \<open>Two states\<close>

text \<open>The specification: an open client runs handlers, a cancelled call or \<^verbatim>\<open>Close\<close> closes it, and a
  closed client refuses everything but \<^verbatim>\<open>Close\<close>.\<close>

fun stays_open :: "err option \<Rightarrow> client_call \<Rightarrow> bool" where
  "stays_open cancel Close = False"
| "stays_open cancel call \<longleftrightarrow> observed call cancel = None"

fun allowed :: "bool \<Rightarrow> err option \<Rightarrow> client_call \<Rightarrow> unit res \<Rightarrow> bool" where
  "allowed is_open cancel Close r \<longleftrightarrow> r = Inr ()"
| "allowed False cancel call r \<longleftrightarrow> r = Inl ErrClosed"
| "allowed True cancel call r \<longleftrightarrow> (case observed call cancel of
     None \<Rightarrow> r = Inr () \<or> (\<exists>e. r = Inl (wrapf ''middleware: failed to call handler: %w'' [] e))
   | Some e \<Rightarrow> \<exists>es. r = Inl (Joined (e # es)))"

fun obeys :: "bool \<Rightarrow> history \<Rightarrow> unit res list \<Rightarrow> bool \<Rightarrow> bool" where
  "obeys is_open [] [] is_open' \<longleftrightarrow> is_open' = is_open"
| "obeys is_open ((t, cancel, call) # calls) (r # rs) is_open' \<longleftrightarrow>
     allowed is_open cancel call r \<and> obeys (is_open \<and> stays_open cancel call) calls rs is_open'"
| "obeys is_open _ _ is_open' \<longleftrightarrow> False"

lemma ends_allowed:
  assumes "ends cancel call c c' r"
  shows "allowed (c_ctx c \<noteq> None) cancel call r"
    and "c_ctx c' \<noteq> None \<longleftrightarrow> c_ctx c \<noteq> None \<and> stays_open cancel call"
  using assms
  by (cases call; cases "c_ctx c"; auto simp: called_def zero_client_def complete_def split: option.splits)+

lemma perform_all_obeys:
  assumes "safe w" "closed_or_complete c"
  shows "wp (perform_all render tab calls c)
    (\<lambda>(c', rs) w'. safe w' \<and> obeys (c_ctx c \<noteq> None) calls rs (c_ctx c' \<noteq> None)) w"
  using assms
proof (induction calls arbitrary: c w)
  case Nil
  then show ?case by (simp add: wp_rules)
next
  case (Cons h calls)
  obtain t cancel call where h: "h = (t, cancel, call)" by (cases h)
  show ?case
    unfolding h perform_all.simps wp_rules
  proof (rule wp_mono [OF perform_ends [OF Cons.prems]], goal_cases)
    case (1 res w')
    obtain c' r where res: "res = (c', r)" by (cases res)
    with 1 have "safe w'" and ends: "ends cancel call c c' r" by simp_all
    have "closed_or_complete c'" using ends Cons.prems(2) by (rule ends_closed_or_complete)
    from Cons.IH [OF \<open>safe w'\<close> this] show ?case
      unfolding res fst_conv snd_conv
      by (rule wp_mono) (use ends_allowed [OF ends] in auto)
  qed
qed

section \<open>Runs of the protocol\<close>

text \<open>The calls of a history one after the other: the context of a call that is cancelled is, the call
  and its handler run to the return, and the goroutine is free to call again.\<close>

definition cancelling :: "nat \<Rightarrow> err option \<Rightarrow> protocol \<Rightarrow> protocol" where
  "cancelling t cancel s = (if cancel = None then s else s\<lparr>cancelled := (cancelled s)(t := True)\<rparr>)"

inductive serial_run :: "history \<Rightarrow> answer list \<Rightarrow> protocol \<Rightarrow> protocol \<Rightarrow> bool" where
  serial_end: "serial_run [] [] s s"
| serial_call: "own_run t n (cancelling t (observed call cancel) s) s1 \<Longrightarrow> control s1 t = Returned a \<Longrightarrow>
    protocol_step (Caller t) s1 s2 \<Longrightarrow> serial_run calls as s2 s3 \<Longrightarrow>
    serial_run ((t, cancel, call) # calls) (a # as) s s3"

lemma own_run_reachable: "own_run t n s s' \<Longrightarrow> protocol_reachable s \<Longrightarrow> protocol_reachable s'"
  by (induction rule: own_run.induct) (auto intro: move)

lemma cancelling_reachable: "protocol_reachable s \<Longrightarrow> protocol_reachable (cancelling t cancel s)"
  using move [OF _ cancel [of t s]] by (simp add: cancelling_def)

lemma serial_run_reachable: "serial_run calls as s s' \<Longrightarrow> protocol_reachable s \<Longrightarrow> protocol_reachable s'"
proof (induction rule: serial_run.induct)
  case (serial_call t n call cancel s s1 a s2 calls as s3)
  have "protocol_reachable s1"
    using serial_call.hyps(1) by (rule own_run_reachable) (rule cancelling_reachable [OF serial_call.prems])
  then have "protocol_reachable s2" using serial_call.hyps(3) by (rule move)
  then show ?case by (rule serial_call.IH)
qed

lemma own_run_others: "own_run t n s s' \<Longrightarrow> u \<noteq> t \<Longrightarrow> control s' u = control s u"
proof (induction rule: own_run.induct)
  case (own_run_step a s s' n s'')
  then have "control s' u = control s u" by (intro others_leave_alone [of a]) auto
  with own_run_step show ?case by simp
qed simp

text \<open>One call: the run that \<open>Client_Refinement\<close> found for its outcome, and the return.\<close>

definition idle :: "client \<Rightarrow> protocol \<Rightarrow> bool" where
  "idle c s \<longleftrightarrow> represents c s \<and> (\<forall>t. control s t = Outside)"

lemma reaches_idle:
  assumes "reaches cancel t (cancelling t cancel' s) c r" "\<forall>u. control s u = Outside"
  shows "\<exists>n s1 s2 a. own_run t n (cancelling t cancel' s) s1 \<and> control s1 t = Returned a \<and>
    protocol_step (Caller t) s1 s2 \<and> answers cancel a r \<and> idle c s2"
proof -
  from assms(1) obtain n s1 a where run: "own_run t n (cancelling t cancel' s) s1" and ret: "control s1 t = Returned a"
    and rep: "represents c s1" and ans: "answers cancel a r"
    unfolding reaches_def by blast
  let ?s2 = "goto t Outside (s1\<lparr>cancelled := (cancelled s1)(t := False)\<rparr>)"
  have "idle c ?s2"
    using rep own_run_others [OF run] assms(2) by (auto simp: idle_def represents_def cancelling_def)
  with run ret ans call_again [OF ret] show ?thesis by blast
qed

lemma ends_reaches:
  assumes "ends cancel call c c' r" "idle c s"
  shows "reaches (observed call cancel) t (cancelling t (observed call cancel) s) c' r"
proof -
  let ?s = "cancelling t (observed call cancel) s"
  have s: "control ?s t = Outside" "\<not> busy ?s" "\<not> interrupt ?s" "ctx_open ?s \<longleftrightarrow> c_ctx c \<noteq> None"
    "observed call cancel \<noteq> None \<Longrightarrow> cancelled ?s t"
    using assms(2) by (auto simp: idle_def represents_def cancelling_def)
  have rep: "represents c' s'" if "\<not> busy s'" "interrupt s' = interrupt ?s" "ctx_open s' \<longleftrightarrow> c_ctx c' \<noteq> None" for s'
    using that s(3) by (simp add: represents_def)
  show ?thesis
  proof (cases "call = Close")
    case True
    then show ?thesis
      using run_close [OF s(1,2)] assms(1) rep by (fastforce intro: reachesI)
  next
    case False
    then have called: "called (observed call cancel) c c' r" using assms(1) by (cases call) simp_all
    show ?thesis
    proof (cases "c_ctx c = None")
      case True
      then show ?thesis
        using run_closed [OF s(1,2)] s(4) called rep by (fastforce simp: called_def intro: reachesI)
    next
      case is_open: False
      then show ?thesis
        using run_completed [OF s(1,2)] run_interrupted [OF s(1,2)] s(3,4,5) called rep
        by (cases "observed call cancel")
          (fastforce simp: called_def complete_def zero_client_def intro: reachesI)+
    qed
  qed
qed

fun answered :: "history \<Rightarrow> answer list \<Rightarrow> unit res list \<Rightarrow> bool" where
  "answered [] [] [] \<longleftrightarrow> True"
| "answered ((t, cancel, call) # calls) (a # as) (r # rs) \<longleftrightarrow>
     answers (observed call cancel) a r \<and> answered calls as rs"
| "answered _ _ _ \<longleftrightarrow> False"

lemma perform_all_runs:
  assumes "safe w" "closed_or_complete c" "idle c s"
  shows "wp (perform_all render tab calls c)
    (\<lambda>(c', rs) w'. \<exists>as s'. serial_run calls as s s' \<and> answered calls as rs \<and> idle c' s') w"
  using assms
proof (induction calls arbitrary: c w s)
  case Nil
  then show ?case by (auto simp: wp_rules intro!: exI [of _ "[]"] serial_end)
next
  case (Cons h calls)
  obtain t cancel call where h: "h = (t, cancel, call)" by (cases h)
  show ?case
    unfolding h perform_all.simps wp_rules
  proof (rule wp_mono [OF perform_ends [OF Cons.prems(1,2)]], goal_cases)
    case (1 res w')
    obtain c' r where res: "res = (c', r)" by (cases res)
    with 1 have "safe w'" and ends: "ends cancel call c c' r" by simp_all
    obtain n s1 s2 a where one: "own_run t n (cancelling t (observed call cancel) s) s1" "control s1 t = Returned a"
      "protocol_step (Caller t) s1 s2" and ans: "answers (observed call cancel) a r" and "idle c' s2"
      using reaches_idle [OF ends_reaches [OF ends Cons.prems(3)]] Cons.prems(3) unfolding idle_def by blast
    have "closed_or_complete c'" using ends Cons.prems(2) by (rule ends_closed_or_complete)
    have more: "\<exists>as s'. serial_run ((t, cancel, call) # calls) as s s' \<and>
        answered ((t, cancel, call) # calls) as (r # rs) \<and> idle c'' s'"
      if "\<exists>as s'. serial_run calls as s2 s' \<and> answered calls as rs \<and> idle c'' s'" for c'' rs
    proof -
      from that obtain as s' where "serial_run calls as s2 s'" "answered calls as rs" "idle c'' s'" by blast
      then show ?thesis using serial_call [OF one] ans by (intro exI [of _ "a # as"] exI [of _ s']) simp
    qed
    from Cons.IH [OF \<open>safe w'\<close> \<open>closed_or_complete c'\<close> \<open>idle c' s2\<close>] show ?case
      unfolding res fst_conv snd_conv
      by (rule wp_mono) (use more in \<open>simp split: prod.splits\<close>)
  qed
qed

section \<open>Histories\<close>

lemma wp_client_history:
  assumes "\<And>c w'. complete c \<Longrightarrow> safe w' \<Longrightarrow> wp (perform_all render tab calls c) (\<lambda>x. Q (Inr x)) w'"
    "\<And>e w'. safe w' \<Longrightarrow> Q (Inl e) w'"
  shows "wp (client_history order porder render tab cfg calls) Q (empty_world lib)"
  unfolding client_history_def wp_rules
proof (rule wp_mono [OF new_client_outcome [OF safe_empty]], goal_cases)
  case (1 r w')
  then have "safe w'"
    by (auto simp: client_outcome_def split: sum.splits if_splits intro: only_safe [OF _ safe_empty])
  with 1 show ?case
    using assms by (auto simp: client_outcome_def wp_rules split: sum.split)
qed

text \<open>
  C5: a client is a machine with two states. Whatever the native library answers, in any history of
  calls an open client answers each with the handler's result, the first cancelled call or
  \<^verbatim>\<open>Close\<close> closes it, the cancelled call reporting the reason of the cancellation first, and from then on
  every call but \<^verbatim>\<open>Close\<close> is \<^verbatim>\<open>ErrClosed\<close>; at no time is a native handle used that is not live.
\<close>

theorem client_history_two_states:
  "case run_state (client_history order porder render tab cfg calls) (empty_world lib) of (r, w') \<Rightarrow>
     \<not> fault w' \<and> (case r of Inl e \<Rightarrow> True | Inr (c', rs) \<Rightarrow> obeys True calls rs (c_ctx c' \<noteq> None))"
proof -
  have "wp (client_history order porder render tab cfg calls) (\<lambda>r w'. \<not> fault w' \<and>
      (case r of Inl e \<Rightarrow> True | Inr (c', rs) \<Rightarrow> obeys True calls rs (c_ctx c' \<noteq> None))) (empty_world lib)"
  proof (rule wp_client_history, goal_cases)
    case (1 c w')
    then have "c_ctx c \<noteq> None" "closed_or_complete c" by (auto simp: complete_def closed_or_complete_def)
    then show ?case
      using wp_mono [OF perform_all_obeys [OF 1(2)]] by (fastforce simp: safe_not_fault)
  qed (simp add: safe_not_fault)
  then show ?thesis by (simp add: wp_def)
qed

text \<open>
  C6: the histories of a client refine the protocol of its middleware: from \<^verbatim>\<open>NewClient\<close> on, the calls of
  any goroutines, one after the other, return what a run of the protocol from its initial state returns,
  and leave the client open exactly if the run does, nobody inside and no interrupt pending.
\<close>

theorem client_history_runs:
  "case run_state (client_history order porder render tab cfg calls) (empty_world lib) of (r, w') \<Rightarrow>
     case r of Inl e \<Rightarrow> True
     | Inr (c', rs) \<Rightarrow> \<exists>as s'. serial_run calls as protocol_start s' \<and> answered calls as rs \<and> idle c' s'"
proof -
  have "wp (client_history order porder render tab cfg calls) (\<lambda>r w'. case r of Inl e \<Rightarrow> True
     | Inr (c', rs) \<Rightarrow> \<exists>as s'. serial_run calls as protocol_start s' \<and> answered calls as rs \<and> idle c' s')
     (empty_world lib)"
  proof (rule wp_client_history, goal_cases)
    case (1 c w')
    then have "idle c protocol_start" "closed_or_complete c"
      by (auto simp: idle_def represents_def protocol_start_def complete_def closed_or_complete_def)
    from perform_all_runs [OF 1(2) this(2,1)] show ?case by (rule wp_mono) auto
  qed simp
  then show ?thesis by (simp add: wp_def)
qed

end
