(* ===== verification/Derivation_Data.thy ===== *)
theory Derivation_Data
  imports Derivation Lock_Info
begin

text \<open>
  The Go-native form of a derivation (\<^verbatim>\<open>DerivationData\<close> and its parts in
  \<^verbatim>\<open>store/derivation.go\<close>), \<^verbatim>\<open>Derivation.Deserialize\<close>, and what
  \<^verbatim>\<open>json.Marshal\<close> writes for it by its tags. A Go map is an association list with distinct
  keys, a nil map or slice is \<open>None\<close>.
\<close>

section \<open>Data\<close>

record derivation_output =
  do_path :: string
  do_method :: string
  do_hash :: string
  do_hashAlgo :: string
  do_impure :: bool

datatype derivation_input =
  DerivationInput (di_outputs: "string list option") (di_dynamic: "(string \<times> derivation_input) list option")

record derivation_inputs =
  dis_sources :: "string list option"
  dis_derivations :: "(string \<times> derivation_input) list option"

text \<open>The attributes kept raw: \<open>None\<close> is a nil or empty message, \<open>Some None\<close> one that is not
  JSON.\<close>

record derivation_data =
  dd_name :: string
  dd_version :: "64 word"
  dd_outputs :: "(string \<times> derivation_output) list option"
  dd_inputs :: derivation_inputs
  dd_system :: string
  dd_builder :: string
  dd_args :: "string list option"
  dd_env :: "(string \<times> string) list option"
  dd_structured :: "raw_message option"

definition zero_output :: derivation_output where
  "zero_output = \<lparr>do_path = [], do_method = [], do_hash = [], do_hashAlgo = [], do_impure = False\<rparr>"

definition zero_inputs :: derivation_inputs where
  "zero_inputs = \<lparr>dis_sources = None, dis_derivations = None\<rparr>"

definition zero_data :: derivation_data where
  "zero_data = \<lparr>dd_name = [], dd_version = 0, dd_outputs = None, dd_inputs = zero_inputs, dd_system = [],
     dd_builder = [], dd_args = None, dd_env = None, dd_structured = None\<rparr>"

section \<open>Reading\<close>

definition output_field :: "string \<Rightarrow> derivation_output \<Rightarrow> json \<Rightarrow> derivation_output res" where
  "output_field key d v =
     (if key = ''path'' then dec_field (dec_string (do_path d) v) (\<lambda>s. d\<lparr>do_path := s\<rparr>)
      else if key = ''method'' then dec_field (dec_string (do_method d) v) (\<lambda>s. d\<lparr>do_method := s\<rparr>)
      else if key = ''hash'' then dec_field (dec_string (do_hash d) v) (\<lambda>s. d\<lparr>do_hash := s\<rparr>)
      else if key = ''hashalgo'' then dec_field (dec_string (do_hashAlgo d) v) (\<lambda>s. d\<lparr>do_hashAlgo := s\<rparr>)
      else if key = ''impure'' then dec_field (dec_bool (do_impure d) v) (\<lambda>b. d\<lparr>do_impure := b\<rparr>)
      else Inr d)"

text \<open>The decoders call their argument on parts of the tree only; so a decoder of a recursive type is
  well founded.\<close>

lemma dec_entries_cong:
  assumes "\<And>k v. (k, v) \<in> set kvs \<Longrightarrow> dec v = dec' v"
  shows "dec_entries dec kvs m = dec_entries dec' kvs m"
  using assms
proof (induction kvs arbitrary: m)
  case (Cons kv kvs)
  obtain k v where kv: "kv = (k, v)" by force
  have "dec v = dec' v" by (rule Cons.prems [of k]) (simp add: kv)
  moreover have "dec_entries dec kvs m = dec_entries dec' kvs m" for m
    by (rule Cons.IH) (rule Cons.prems [OF list.set_intros(2)])
  ultimately show ?case by (simp add: kv split: sum.split)
qed simp

lemma dec_map_cong [fundef_cong]:
  assumes "v = v'" "old = old'" "\<And>kvs k x. v' = JObj kvs \<Longrightarrow> (k, x) \<in> set kvs \<Longrightarrow> dec x = dec' x"
  shows "dec_map dec old v = dec_map dec' old' v'"
  using assms dec_entries_cong [of _ dec dec'] by (cases v') (simp_all add: dec_map_def)

lemma dec_members_cong:
  assumes "\<And>k v st. (k, v) \<in> set kvs \<Longrightarrow> step (fold_key k) st v = step' (fold_key k) st v"
  shows "dec_members step kvs st = dec_members step' kvs st"
  using assms
proof (induction kvs arbitrary: st)
  case (Cons kv kvs)
  obtain k v where kv: "kv = (k, v)" by force
  have "step (fold_key k) st v = step' (fold_key k) st v" by (rule Cons.prems [of k]) (simp add: kv)
  moreover have "dec_members step kvs st = dec_members step' kvs st" for st
    by (rule Cons.IH) (rule Cons.prems [OF list.set_intros(2)])
  ultimately show ?case by (simp add: kv split: sum.split)
qed simp

lemma dec_struct_cong [fundef_cong]:
  assumes "v = v'" "st = st'"
    "\<And>kvs k x s. v' = JObj kvs \<Longrightarrow> (k, x) \<in> set kvs \<Longrightarrow> step (fold_key k) s x = step' (fold_key k) s x"
  shows "dec_struct step st v = dec_struct step' st' v'"
  using assms dec_members_cong [of _ step step'] by (cases v') (simp_all add: dec_struct_def)

lemma dec_field_cong [fundef_cong]: "r = r' \<Longrightarrow> upd = upd' \<Longrightarrow> dec_field r upd = dec_field r' upd'"
  by simp

lemma member_size: "(k, x) \<in> set kvs \<Longrightarrow> size x < size (JObj kvs)"
  by (induction kvs) auto

function decode_input :: "json \<Rightarrow> derivation_input res" where
  "decode_input v = dec_struct (\<lambda>key d x.
     (if key = ''outputs'' then
        dec_field (dec_slice (dec_string []) x) (\<lambda>xs. DerivationInput xs (di_dynamic d))
      else if key = ''dynamicoutputs'' then
        dec_field (dec_map decode_input (di_dynamic d) x) (\<lambda>m. DerivationInput (di_outputs d) m)
      else Inr d)) (DerivationInput None None) v"
  by pat_completeness auto
termination
proof (relation "measure size", goal_cases)
  case (2 v kvs k x s kvs' k' x')
  then show ?case using member_size [of k x kvs] member_size [of k' x' kvs'] by simp
qed simp

declare decode_input.simps [simp del]

definition inputs_field :: "string \<Rightarrow> derivation_inputs \<Rightarrow> json \<Rightarrow> derivation_inputs res" where
  "inputs_field key d v =
     (if key = ''srcs'' then dec_field (dec_slice (dec_string []) v) (\<lambda>xs. d\<lparr>dis_sources := xs\<rparr>)
      else if key = ''drvs'' then
        dec_field (dec_map decode_input (dis_derivations d) v) (\<lambda>m. d\<lparr>dis_derivations := m\<rparr>)
      else Inr d)"

definition data_field :: "string \<Rightarrow> derivation_data \<Rightarrow> json \<Rightarrow> derivation_data res" where
  "data_field key d v =
     (if key = ''name'' then dec_field (dec_string (dd_name d) v) (\<lambda>s. d\<lparr>dd_name := s\<rparr>)
      else if key = ''version'' then dec_field (dec_uint64 (dd_version d) v) (\<lambda>n. d\<lparr>dd_version := n\<rparr>)
      else if key = ''outputs'' then
        dec_field (dec_map (dec_struct output_field zero_output) (dd_outputs d) v) (\<lambda>m. d\<lparr>dd_outputs := m\<rparr>)
      else if key = ''inputs'' then
        dec_field (dec_struct inputs_field (dd_inputs d) v) (\<lambda>i. d\<lparr>dd_inputs := i\<rparr>)
      else if key = ''system'' then dec_field (dec_string (dd_system d) v) (\<lambda>s. d\<lparr>dd_system := s\<rparr>)
      else if key = ''builder'' then dec_field (dec_string (dd_builder d) v) (\<lambda>s. d\<lparr>dd_builder := s\<rparr>)
      else if key = ''args'' then dec_field (dec_slice (dec_string []) v) (\<lambda>xs. d\<lparr>dd_args := xs\<rparr>)
      else if key = ''env'' then dec_field (dec_map (dec_string []) (dd_env d) v) (\<lambda>m. d\<lparr>dd_env := m\<rparr>)
      else if key = ''structuredattrs'' then
        dec_field (dec_raw v) (\<lambda>m. d\<lparr>dd_structured := Some m\<rparr>)
      else Inr d)"

definition unmarshal_data :: "json \<Rightarrow> derivation_data res" where
  "unmarshal_data v = dec_struct data_field zero_data v"

text \<open>\<^verbatim>\<open>Derivation.Deserialize\<close>; \<open>parse\<close> is the JSON syntax of \<^verbatim>\<open>encoding/json\<close>.\<close>

definition deserialize :: "(string \<Rightarrow> json option) \<Rightarrow> derivation_ref \<Rightarrow> derivation_data res" where
  "deserialize parse d =
     (case (case parse (drv_json d) of None \<Rightarrow> Inl (JsonErr ''syntax'') | Some v \<Rightarrow> unmarshal_data v) of
        Inl e \<Rightarrow> Inl (wrapf ''derivation: failed to deserialize cached json: %w'' [] e)
      | Inr data \<Rightarrow> Inr data)"

section \<open>Writing\<close>

text \<open>What \<^verbatim>\<open>json.Marshal\<close> writes by the tags; a nil map or slice is \<^verbatim>\<open>null\<close>.\<close>

definition or_null :: "('b list \<Rightarrow> json) \<Rightarrow> 'b list option \<Rightarrow> json" where
  "or_null enc x = (case x of None \<Rightarrow> JNull | Some ys \<Rightarrow> enc ys)"

definition omit_str :: "string \<Rightarrow> string \<Rightarrow> (string \<times> json) list" where
  "omit_str key s = (if s = [] then [] else [(key, JStr (coerce_utf8 s))])"

definition marshal_output :: "derivation_output \<Rightarrow> json" where
  "marshal_output d = JObj (
     omit_str ''path'' (do_path d) @ omit_str ''method'' (do_method d) @ omit_str ''hash'' (do_hash d) @
     omit_str ''hashAlgo'' (do_hashAlgo d) @ (if do_impure d then [(''impure'', JBool True)] else []))"

fun marshal_drv_input :: "derivation_input \<Rightarrow> json" where
  "marshal_drv_input (DerivationInput outs dyn) = JObj [(''outputs'', or_null marshal_strings outs),
     (''dynamicOutputs'', (case dyn of None \<Rightarrow> JNull
        | Some m \<Rightarrow> marshal_map id (map (\<lambda>(k, x). (k, marshal_drv_input x)) m)))]"

definition marshal_inputs :: "derivation_inputs \<Rightarrow> json" where
  "marshal_inputs d = JObj [(''srcs'', or_null marshal_strings (dis_sources d)),
     (''drvs'', or_null (marshal_map marshal_drv_input) (dis_derivations d))]"

definition marshal_data :: "derivation_data \<Rightarrow> json res" where
  "marshal_data d =
     (if dd_structured d = Some None then Inl (JsonErr ''invalid raw message'') else
      Inr (JObj ([(''name'', JStr (coerce_utf8 (dd_name d))), (''version'', JNum (itoa (uint (dd_version d)))),
        (''outputs'', or_null (marshal_map marshal_output) (dd_outputs d)),
        (''inputs'', marshal_inputs (dd_inputs d)),
        (''system'', JStr (coerce_utf8 (dd_system d))), (''builder'', JStr (coerce_utf8 (dd_builder d))),
        (''args'', or_null marshal_strings (dd_args d)),
        (''env'', or_null (marshal_map (\<lambda>s. JStr (coerce_utf8 s))) (dd_env d))] @
        (case dd_structured d of Some (Some v) \<Rightarrow> [(''structuredAttrs'', v)] | _ \<Rightarrow> []))))"

section \<open>Reading back a derivation that was written\<close>

text \<open>Maps come back sorted by their keys, at every depth of the dynamic outputs.\<close>

fun normal_drv_input :: "derivation_input \<Rightarrow> derivation_input" where
  "normal_drv_input (DerivationInput outs dyn) = DerivationInput outs
     (case dyn of None \<Rightarrow> None | Some m \<Rightarrow> Some (normal_map id (map (\<lambda>(k, x). (k, normal_drv_input x)) m)))"

definition normal_data :: "derivation_data \<Rightarrow> derivation_data" where
  "normal_data d = d\<lparr>dd_outputs := map_option (normal_map id) (dd_outputs d),
     dd_inputs := (dd_inputs d)\<lparr>dis_derivations := map_option (normal_map normal_drv_input) (dis_derivations (dd_inputs d))\<rparr>,
     dd_env := map_option (normal_map id) (dd_env d)\<rparr>"

definition strings_ok :: "string list option \<Rightarrow> bool" where
  "strings_ok xs \<longleftrightarrow> (case xs of None \<Rightarrow> True | Some ys \<Rightarrow> \<forall>s \<in> set ys. valid_utf8 s)"

fun drv_input_ok :: "derivation_input \<Rightarrow> bool" where
  "drv_input_ok (DerivationInput outs dyn) \<longleftrightarrow> strings_ok outs \<and>
     (case dyn of None \<Rightarrow> True
      | Some m \<Rightarrow> distinct (map fst m) \<and> (\<forall>(k, x) \<in> set m. valid_utf8 k \<and> drv_input_ok x))"

definition output_ok :: "derivation_output \<Rightarrow> bool" where
  "output_ok d \<longleftrightarrow> valid_utf8 (do_path d) \<and> valid_utf8 (do_method d) \<and> valid_utf8 (do_hash d) \<and>
     valid_utf8 (do_hashAlgo d)"

definition data_ok :: "derivation_data \<Rightarrow> bool" where
  "data_ok d \<longleftrightarrow> valid_utf8 (dd_name d) \<and> valid_utf8 (dd_system d) \<and> valid_utf8 (dd_builder d) \<and>
     strings_ok (dd_args d) \<and> strings_ok (dis_sources (dd_inputs d)) \<and>
     keys_ok (dd_outputs d) \<and> (\<forall>x \<in> snd ` set (entries (dd_outputs d)). output_ok x) \<and>
     keys_ok (dis_derivations (dd_inputs d)) \<and>
     (\<forall>x \<in> snd ` set (entries (dis_derivations (dd_inputs d))). drv_input_ok x) \<and>
     keys_ok (dd_env d) \<and> (\<forall>s \<in> snd ` set (entries (dd_env d)). valid_utf8 s) \<and> dd_structured d \<noteq> Some None"

lemma fold_key_upper: "byte_in 65 90 a \<Longrightarrow> fold_key (a # s) = char_of (of_char a + 32 :: nat) # fold_key s"
  by (subst fold_key.simps) simp

lemma fold_camel [simp]:
  "fold_key ''hashAlgo'' = ''hashalgo''" "fold_key ''dynamicOutputs'' = ''dynamicoutputs''"
  "fold_key ''structuredAttrs'' = ''structuredattrs''"
  by (simp_all add: fold_key_lower fold_key_upper byte_in_def char_of_def bit_Suc_0_iff)

lemma fold_drv_keys [simp]:
  "fold_key ''path'' = ''path''" "fold_key ''method'' = ''method''" "fold_key ''hash'' = ''hash''"
  "fold_key ''impure'' = ''impure''" "fold_key ''outputs'' = ''outputs''" "fold_key ''srcs'' = ''srcs''"
  "fold_key ''drvs'' = ''drvs''" "fold_key ''name'' = ''name''" "fold_key ''system'' = ''system''"
  "fold_key ''builder'' = ''builder''" "fold_key ''args'' = ''args''" "fold_key ''env'' = ''env''"
  by (rule fold_lower, simp add: byte_in_def)+

lemma map_of_written:
  "(k, y) \<in> set m \<Longrightarrow> the (map_of (map (\<lambda>(k, x). (k, enc x)) m) k) = enc (the (map_of m k))"
  by (induction m) auto

lemma keys_written: "map fst (map (\<lambda>(k, x). (k, enc x)) m) = map fst m"
  by (induction m) auto

lemma normal_map_written: "normal_map id (map (\<lambda>(k, x). (k, enc x)) m) = normal_map enc m"
  unfolding normal_map_def keys_written by (auto simp: map_of_written)

lemma marshal_map_written: "marshal_map id (map (\<lambda>(k, x). (k, enc x)) m) = marshal_map enc m"
  unfolding marshal_map_def keys_written by (auto simp: map_of_written)

lemma dec_or_null_strings:
  "strings_ok xs \<Longrightarrow> dec_slice (dec_string []) (or_null marshal_strings xs) = Inr xs"
  by (cases xs) (simp_all add: strings_ok_def or_null_def dec_slice_def marshal_strings_def dec_strings)

lemma dec_or_null_map:
  assumes "keys_ok m" "\<forall>x \<in> snd ` set (entries m). dec (enc x) = Inr (f x)"
  shows "dec_map dec None (or_null (marshal_map enc) m) = Inr (map_option (normal_map f) m)"
proof (cases m)
  case None
  then show ?thesis by (simp add: or_null_def dec_map_def)
next
  case (Some kvs)
  with assms have "dec_map dec None (marshal_map enc kvs) = Inr (Some (normal_map f kvs))"
    by (intro dec_map_marshal) (auto simp: keys_ok_def entries_def)
  with Some show ?thesis by (simp add: or_null_def)
qed

lemma decode_marshal_input: "drv_input_ok x \<Longrightarrow> decode_input (marshal_drv_input x) = Inr (normal_drv_input x)"
proof (induction x rule: marshal_drv_input.induct)
  case (1 outs dyn)
  have "dec_map decode_input None (case dyn of None \<Rightarrow> JNull
      | Some m \<Rightarrow> marshal_map id (map (\<lambda>(k, x). (k, marshal_drv_input x)) m)) =
    Inr (map_option (normal_map normal_drv_input) dyn)"
  proof (cases dyn)
    case None
    then show ?thesis by (simp add: dec_map_def)
  next
    case (Some m)
    have "dec_map decode_input None (marshal_map marshal_drv_input m) = Inr (Some (normal_map normal_drv_input m))"
      using 1 Some by (intro dec_map_marshal) auto
    with Some show ?thesis by (simp add: marshal_map_written)
  qed
  moreover have "dec_slice (dec_string []) (or_null marshal_strings outs) = Inr outs"
    using "1.prems" by (intro dec_or_null_strings) simp
  ultimately show ?case
    by (subst decode_input.simps)
      (simp add: dec_struct_def normal_map_written map_option_case split: option.split)
qed

lemma read_marshal_output:
  assumes "output_ok x" shows "dec_struct output_field zero_output (marshal_output x) = Inr x"
  using assms
  by (cases x) (auto simp: output_ok_def marshal_output_def dec_struct_def omit_str_def output_field_def zero_output_def
      dec_string_def dec_bool_def coerce_valid)

lemma read_marshal_inputs:
  assumes "strings_ok (dis_sources x)" "keys_ok (dis_derivations x)"
    "\<forall>y \<in> snd ` set (entries (dis_derivations x)). drv_input_ok y"
  shows "dec_struct inputs_field zero_inputs (marshal_inputs x) =
    Inr (x\<lparr>dis_derivations := map_option (normal_map normal_drv_input) (dis_derivations x)\<rparr>)"
proof -
  have "dec_map decode_input None (or_null (marshal_map marshal_drv_input) (dis_derivations x)) =
      Inr (map_option (normal_map normal_drv_input) (dis_derivations x))"
    using assms(2,3) by (intro dec_or_null_map) (auto intro: decode_marshal_input)
  with assms(1) show ?thesis
    by (simp add: marshal_inputs_def dec_struct_def inputs_field_def zero_inputs_def dec_or_null_strings)
qed

lemma unmarshal_data_written:
  assumes "data_ok d" shows "\<exists>j. marshal_data d = Inr j \<and> unmarshal_data j = Inr (normal_data d)"
proof -
  have outputs: "dec_map (dec_struct output_field zero_output) None (or_null (marshal_map marshal_output) (dd_outputs d)) =
      Inr (map_option (normal_map id) (dd_outputs d))"
    using assms by (intro dec_or_null_map) (auto simp: data_ok_def read_marshal_output)
  have env: "dec_map (dec_string []) None (or_null (marshal_map (\<lambda>s. JStr (coerce_utf8 s))) (dd_env d)) =
      Inr (map_option (normal_map id) (dd_env d))"
    using assms by (intro dec_or_null_map) (auto simp: data_ok_def dec_string_def coerce_valid)
  have inputs: "dec_struct inputs_field zero_inputs (marshal_inputs (dd_inputs d)) =
      Inr ((dd_inputs d)\<lparr>dis_derivations :=
        map_option (normal_map normal_drv_input) (dis_derivations (dd_inputs d))\<rparr>)"
    using assms by (intro read_marshal_inputs) (simp_all add: data_ok_def)
  have strings: "dec_string s (JStr (coerce_utf8 t)) = Inr t" if "valid_utf8 t" for s t
    using that by (simp add: dec_string_def coerce_valid)
  have ok: "valid_utf8 (dd_name d)" "valid_utf8 (dd_system d)" "valid_utf8 (dd_builder d)" "strings_ok (dd_args d)"
    "dd_structured d \<noteq> Some None"
    using assms by (simp_all add: data_ok_def)
  show ?thesis
  proof (cases "dd_structured d")
    case None
    with ok show ?thesis
      by (simp add: marshal_data_def unmarshal_data_def dec_struct_def data_field_def zero_data_def strings
          outputs env inputs [unfolded dec_struct_def] dec_or_null_strings dec_uint64_def normal_data_def)
  next
    case (Some raw)
    with ok show ?thesis
      by (cases raw)
        (simp_all add: marshal_data_def unmarshal_data_def dec_struct_def data_field_def zero_data_def strings
          outputs env inputs [unfolded dec_struct_def] dec_or_null_strings dec_uint64_def dec_raw_def normal_data_def)
  qed
qed

section \<open>Properties\<close>

text \<open>
  C29: derivation data written as JSON by its tags are read back by \<^verbatim>\<open>Deserialize\<close> as they
  were, with their maps sorted by key: name, version, every output, input source, input derivation with
  its dynamic outputs at any depth, argument, environment variable and structured attribute survives, and
  a nil map or slice stays nil. The strings must be valid UTF-8 and the raw attributes JSON.
\<close>

theorem derivation_data_roundtrip:
  assumes "data_ok d" "marshal_data d = Inr j" "parse (drv_json r) = Some j"
  shows "deserialize parse r = Inr (normal_data d)"
  using unmarshal_data_written [OF assms(1)] assms(2,3) by (auto simp: deserialize_def)

definition sample_derivation_data :: derivation_data where
  "sample_derivation_data = \<lparr>dd_name = ''hello'', dd_version = 4,
     dd_outputs = Some [(''out'', zero_output\<lparr>do_hashAlgo := ''sha256'', do_impure := True\<rparr>)],
     dd_inputs = \<lparr>dis_sources = Some [''src''],
       dis_derivations = Some [(''dep'', DerivationInput (Some [''out''])
         (Some [(''out'', DerivationInput (Some [''doc'']) None)]))]\<rparr>,
     dd_system = ''x86'', dd_builder = ''sh'', dd_args = None, dd_env = Some [(''out'', ''x'')],
     dd_structured = Some (Some (JBool True))\<rparr>"

lemma sample_data_ok: "data_ok sample_derivation_data"
proof -
  have "valid_utf8 ''hello''" "valid_utf8 ''out''" "valid_utf8 ''sha256''" "valid_utf8 ''src''" "valid_utf8 ''dep''"
    "valid_utf8 ''doc''" "valid_utf8 ''x86''" "valid_utf8 ''sh''" "valid_utf8 ''x''"
    by (rule valid_ascii, simp add: byte_in_def)+
  then show ?thesis
    by (simp add: data_ok_def sample_derivation_data_def strings_ok_def keys_ok_def entries_def output_ok_def
        zero_output_def)
qed

lemma derivation_data_roundtrip_witness:
  "\<exists>j. marshal_data sample_derivation_data = Inr j \<and>
     deserialize (\<lambda>s. if s = ''drv'' then Some j else None) \<lparr>drv_id = 0, drv_json = ''drv'', drv_ctx = \<lparr>ctx_id = 0\<rparr>\<rparr> =
       Inr (normal_data sample_derivation_data)"
proof -
  obtain j where j: "marshal_data sample_derivation_data = Inr j"
    using unmarshal_data_written [OF sample_data_ok] by blast
  have "deserialize (\<lambda>s. if s = ''drv'' then Some j else None) \<lparr>drv_id = 0, drv_json = ''drv'', drv_ctx = \<lparr>ctx_id = 0\<rparr>\<rparr> =
      Inr (normal_data sample_derivation_data)"
    by (rule derivation_data_roundtrip [OF sample_data_ok j]) simp
  with j show ?thesis by blast
qed

end
