(* ===== verification/Error_Text.thy ===== *)
theory Error_Text
  imports "HOL-Library.Sublist" Attr_Path Value_Getters Unmarshal
begin

text \<open>
  The messages of the SDK's errors: the \<^verbatim>\<open>Error\<close> methods of \<^verbatim>\<open>eval/errors.go\<close>,
  \<^verbatim>\<open>NixError.Error\<close>, the sentinels, and the formatting of \<^verbatim>\<open>fmt.Errorf\<close> and
  \<^verbatim>\<open>errors.Join\<close>. The names Go prints for reflected types and error numbers, and the messages of
  the standard library's own errors, are a parameter.
\<close>

record go_names =
  type_text :: "gtype \<Rightarrow> string"
  errno_text :: "int \<Rightarrow> string"

section \<open>The Error methods of eval/errors.go\<close>

definition value_type_error_text :: "value_type \<Rightarrow> value_type \<Rightarrow> string" where
  "value_type_error_text actual expected =
     ''eval: cannot read '' @ value_type_string actual @ '' value as '' @ value_type_string expected"

definition invalid_unmarshal_error_text :: "go_names \<Rightarrow> gtype option \<Rightarrow> string" where
  "invalid_unmarshal_error_text names ty =
     (case ty of
        None \<Rightarrow> ''eval: Unmarshal(nil)''
      | Some ty \<Rightarrow>
          if \<not> (case ty of GPtr _ \<Rightarrow> True | _ \<Rightarrow> False)
          then ''eval: Unmarshal(non-pointer '' @ type_text names ty @ '')''
          else ''eval: Unmarshal(nil '' @ type_text names ty @ '')'')"

definition unmarshal_type_error_text :: "go_names \<Rightarrow> string \<Rightarrow> gtype \<Rightarrow> string \<Rightarrow> string" where
  "unmarshal_type_error_text names v ty path =
     (if path = [] then ''eval: cannot unmarshal '' @ v @ '' into Go value of type '' @ type_text names ty
      else ''eval: cannot unmarshal '' @ v @ '' into Go value of type '' @ type_text names ty @ '' at '' @ path)"

definition missing_attr_error_text :: "go_tables \<Rightarrow> string \<Rightarrow> string \<Rightarrow> string" where
  "missing_attr_error_text tab attr path =
     (if path = [] then ''eval: missing required attr '' @ quote tab attr
      else ''eval: missing required attr '' @ quote tab attr @ '' at '' @ path)"

definition unsupported_type_error_text :: "go_names \<Rightarrow> gtype \<Rightarrow> string \<Rightarrow> string" where
  "unsupported_type_error_text names ty path =
     (if path = [] then ''eval: unsupported Go type '' @ type_text names ty
      else ''eval: unsupported Go type '' @ type_text names ty @ '' at '' @ path)"

section \<open>Formatting\<close>

text \<open>The verbs the SDK uses: \<^verbatim>\<open>%s\<close>, \<^verbatim>\<open>%d\<close>, \<^verbatim>\<open>%q\<close> and \<^verbatim>\<open>%w\<close>, whose operand is
  the wrapped error. The other operands are given in order; one too few is printed as Go prints it.\<close>

fun format_arg :: "go_tables \<Rightarrow> char \<Rightarrow> fmt_arg \<Rightarrow> string" where
  "format_arg tab c (ANum n) = itoa n"
| "format_arg tab c (AStr s) = (if c = CHR ''q'' then quote tab s else s)"

fun sprintf :: "go_tables \<Rightarrow> string \<Rightarrow> fmt_arg list \<Rightarrow> string option \<Rightarrow> string" where
  "sprintf tab [] args cause = []"
| "sprintf tab [c] args cause = [c]"
| "sprintf tab (c # v # fmt) args cause =
     (if c \<noteq> CHR ''%'' then c # sprintf tab (v # fmt) args cause
      else if v = CHR ''w'' then
        (case cause of None \<Rightarrow> ''%!w(<nil>)'' | Some s \<Rightarrow> s) @ sprintf tab fmt args cause
      else (case args of
          [] \<Rightarrow> ''%!'' @ [v] @ ''(MISSING)'' @ sprintf tab fmt [] cause
        | a # args' \<Rightarrow> format_arg tab v a @ sprintf tab fmt args' cause))"

text \<open>A nil \<^verbatim>\<open>*NixError\<close> is printed by \<^verbatim>\<open>fmt\<close> as \<^verbatim>\<open><nil>\<close>: its \<^verbatim>\<open>Error\<close> method panics,
  which \<^verbatim>\<open>fmt\<close> catches for a nil receiver.\<close>

fun error_text :: "go_tables \<Rightarrow> go_names \<Rightarrow> err \<Rightarrow> string" where
  "error_text tab names ErrClosed = ''resource is closed''"
| "error_text tab names ErrConcurrentUse = ''gonix: concurrent use of Client is not supported''"
| "error_text tab names ErrPathNotFound = ''store path not found''"
| "error_text tab names (ContextErr s) = s"
| "error_text tab names (Errno n) = errno_text names n"
| "error_text tab names (NixErr n) = nix_error_string n"
| "error_text tab names NilNixError = ''<nil>''"
| "error_text tab names (ValueTypeErr actual expected) = value_type_error_text actual expected"
| "error_text tab names (InvalidUnmarshalErr ty) = invalid_unmarshal_error_text names ty"
| "error_text tab names (UnmarshalTypeErr v ty path) = unmarshal_type_error_text names v ty path"
| "error_text tab names (MissingAttrErr attr path) = missing_attr_error_text tab attr path"
| "error_text tab names (UnsupportedTypeErr ty path) = unsupported_type_error_text names ty path"
| "error_text tab names (JsonErr s) = s"
| "error_text tab names (Errorf fmt args cause) = sprintf tab fmt args (map_option (error_text tab names) cause)"
| "error_text tab names (Joined es) = join_with [CHR 0x0A] (map (error_text tab names) es)"

section \<open>Causes show\<close>

text \<open>A wrapping format names its cause; an error is well formed if all its wrappings do.\<close>

fun wraps :: "string \<Rightarrow> bool" where
  "wraps [] = False"
| "wraps [c] = False"
| "wraps (c # v # fmt) = (if c \<noteq> CHR ''%'' then wraps (v # fmt) else v = CHR ''w'' \<or> wraps fmt)"

fun well_formed :: "err \<Rightarrow> bool" where
  "well_formed (Errorf fmt args (Some e)) = (wraps fmt \<and> well_formed e)"
| "well_formed (Joined es) = (\<forall>e \<in> set es. well_formed e)"
| "well_formed e = True"

lemma sublist_before: "sublist s ys \<Longrightarrow> sublist s (xs @ ys)"
  by (simp add: sublist_append)

lemma sublist_skip: "sublist s ys \<Longrightarrow> sublist s (x # ys)"
  using sublist_before [of s ys "[x]"] by simp

lemma sublist_after: "sublist s xs \<Longrightarrow> sublist s (xs @ ys)"
  by (simp add: sublist_append)

lemma sublist_sprintf: "wraps fmt \<Longrightarrow> sublist s (sprintf tab fmt args (Some s))"
proof (induction fmt arbitrary: args rule: wraps.induct)
  case (3 c v fmt)
  show ?case
  proof (cases "c = CHR ''%''")
    case True
    show ?thesis
    proof (cases "v = CHR ''w''")
      case True
      with \<open>c = CHR ''%''\<close> show ?thesis by (simp add: sublist_after)
    next
      case False
      then have "sublist s (sprintf tab fmt args' (Some s))" for args'
        using "3.IH"(2) "3.prems" \<open>c = CHR ''%''\<close> by simp
      with False \<open>c = CHR ''%''\<close> show ?thesis
        by (cases args) (simp_all add: sublist_before sublist_skip)
    qed
  next
    case False
    then show ?thesis
      using "3.IH"(1) [of args] "3.prems" by (simp add: sublist_skip)
  qed
qed simp_all

lemma sublist_join: "x \<in> set xs \<Longrightarrow> sublist s x \<Longrightarrow> sublist s (join_with sep xs)"
proof (induction sep xs rule: join_with.induct)
  case (3 sep x y xs)
  then show ?case by (auto intro: sublist_after sublist_before)
qed auto

definition ascii_texts :: go_tables where
  "ascii_texts = \<lparr>wide_letter = (\<lambda>r. False), wide_digit = (\<lambda>r. False), wide_print = (\<lambda>r. False),
     float_text = (\<lambda>x. ''0'')\<rparr>"

definition plain_names :: go_names where
  "plain_names = \<lparr>type_text = (\<lambda>ty. ''T''), errno_text = (\<lambda>n. ''errno'')\<rparr>"

lemma errors_is_sublist:
  "errors_is t e \<Longrightarrow> well_formed e \<Longrightarrow> sublist (error_text tab names t) (error_text tab names e)"
proof (induction t e rule: errors_is.induct)
  case (1 t fmt args e)
  show ?case
  proof (cases "t = Errorf fmt args (Some e)")
    case False
    then have "sublist (error_text tab names t) (error_text tab names e)" using 1 by simp
    moreover have "sublist (error_text tab names e) (error_text tab names (Errorf fmt args (Some e)))"
      using "1.prems"(2) by (simp add: sublist_sprintf)
    ultimately show ?thesis by (rule sublist_order.order_trans)
  qed simp
next
  case (2 t es)
  show ?case
  proof (cases "t = Joined es")
    case False
    then obtain e where e: "e \<in> set es" "errors_is t e" using "2.prems"(1) by auto
    then have "sublist (error_text tab names t) (error_text tab names e)" using 2 by simp
    with e(1) show ?thesis
      unfolding error_text.simps by (intro sublist_join [of "error_text tab names e"]) auto
  qed simp
qed auto



section \<open>Value types show\<close>

definition known_types :: "value_type list" where
  "known_types = [ValueTypeThunk, ValueTypeInt, ValueTypeFloat, ValueTypeBool, ValueTypeString, ValueTypePath,
     ValueTypeNull, ValueTypeAttrs, ValueTypeList, ValueTypeFunction, ValueTypeExternal, ValueTypeFailed]"

lemma type_names_inject: "a \<in> set known_types \<Longrightarrow> b \<in> set known_types \<Longrightarrow> value_type_string a = value_type_string b \<Longrightarrow> a = b"
  by (auto simp: known_types_def value_type_string_def value_type_defs)

lemma type_name_space: "CHR '' '' \<notin> set (value_type_string a)"
  by (simp add: value_type_string_def)

lemma append_space_inject:
  "CHR '' '' \<notin> set x \<Longrightarrow> CHR '' '' \<notin> set y \<Longrightarrow> x @ CHR '' '' # u = y @ CHR '' '' # v \<longleftrightarrow> x = y \<and> u = v"
proof (induction x arbitrary: y)
  case Nil
  then show ?case by (cases y) auto
next
  case (Cons a x)
  then show ?case by (cases y) auto
qed

text \<open>
  The message of a \<^verbatim>\<open>ValueTypeError\<close> tells which type was found and which was wanted: two
  such errors on types Nix has read alike only if they are the same.
\<close>

theorem value_type_error_inject:
  assumes "a \<in> set known_types" "b \<in> set known_types" "c \<in> set known_types" "d \<in> set known_types"
    "value_type_error_text a b = value_type_error_text c d"
  shows "a = c \<and> b = d"
  using assms type_names_inject
  by (auto simp: value_type_error_text_def append_space_inject type_name_space)

lemma value_type_error_inject_witness:
  "value_type_error_text ValueTypeInt ValueTypeString \<noteq> value_type_error_text ValueTypeString ValueTypeInt"
  using value_type_error_inject [of ValueTypeInt ValueTypeString ValueTypeString ValueTypeInt]
  by (auto simp: known_types_def value_type_defs)

end
