(* ===== verification/Allocations.thy ===== *)
theory Allocations
  imports Value_Ownership Store_Settled
begin

text \<open>
  How many wrappers an operation makes, counted: with the ledger this tells not only that what an
  operation returns is new and open, but that it left nothing else open.
\<close>

section \<open>Counting\<close>

named_theorems counting \<open>wrappers made by the operations\<close>

text \<open>\<open>still m\<close>: no wrapper is made; \<open>makes_one m\<close>: one is made on success and none on failure.\<close>

definition still :: "'a io \<Rightarrow> bool" where
  "still m \<longleftrightarrow> (\<forall>w. wp m (\<lambda>r w'. next_ref w' = next_ref w) w)"

definition makes_one :: "'a res io \<Rightarrow> bool" where
  "makes_one m \<longleftrightarrow> (\<forall>w. wp m (\<lambda>r w'. next_ref w' = next_ref w + (if isl r then 0 else 1)) w)"

lemma wp_still: "still m \<Longrightarrow> (\<And>r w'. next_ref w' = next_ref w \<Longrightarrow> Q r w') \<Longrightarrow> wp m Q w"
  unfolding still_def by (blast intro: wp_mono)

lemma still_step [counting]:
  "still (State_Monad.return x)" "still (ok y)" "still (fail e)" "still (raw_unit c)" "still (raw_free c)"
  "still (raw_ptr c)" "still (raw_str c)" "still (raw_code c)" "still (raw_bool c)" "still (raw_size c)"
  "still (raw_u32 c)" "still (raw_64 c)" "still (raw_bytes c)" "still (raw_code_bytes c)" "still (get_ptr k i)"
  "still (set_nil i)"
  by (simp_all add: still_def wp_rules wp_raw raw_free_def split: option.split)

lemma still_bind [counting]:
  assumes "still m" "\<And>x. still (k x)" shows "still (m \<bind> k)"
  unfolding still_def wp_bind
proof
  fix w
  show "wp m (\<lambda>x. wp (k x) (\<lambda>r w'. next_ref w' = next_ref w)) w"
    using assms(1)
  proof (rule wp_still)
    fix x and w' :: world assume "next_ref w' = next_ref w"
    then show "wp (k x) (\<lambda>r w'. next_ref w' = next_ref w) w'"
      using assms(2) [of x, unfolded still_def, rule_format, of w'] by simp
  qed
qed

lemma still_prod [counting]: "(\<And>a b. still (k a b)) \<Longrightarrow> still (case x of (a, b) \<Rightarrow> k a b)"
  by (cases x) simp

lemma still_let [counting]: "(\<And>x. still (k x)) \<Longrightarrow> still (let x = t in k x)"
  by simp

lemma one_if [counting]: "(b \<Longrightarrow> makes_one m) \<Longrightarrow> (\<not> b \<Longrightarrow> makes_one n) \<Longrightarrow> makes_one (if b then m else n)"
  by simp

lemma still_if [counting]: "(b \<Longrightarrow> still m) \<Longrightarrow> (\<not> b \<Longrightarrow> still n) \<Longrightarrow> still (if b then m else n)"
  by simp

lemma still_option [counting]:
  "(x = None \<Longrightarrow> still m) \<Longrightarrow> (\<And>y. x = Some y \<Longrightarrow> still (k y)) \<Longrightarrow> still (case x of None \<Rightarrow> m | Some y \<Rightarrow> k y)"
  by (cases x) simp_all

lemma still_sum [counting]:
  "(\<And>e. still (h e)) \<Longrightarrow> (\<And>y. still (k y)) \<Longrightarrow> still (case x of Inl e \<Rightarrow> h e | Inr y \<Rightarrow> k y)"
  by (cases x) simp_all

lemma still_attempt [counting]: "still m \<Longrightarrow> (\<And>e. still (h e)) \<Longrightarrow> (\<And>x. still (k x)) \<Longrightarrow> still (attempt m h k)"
  unfolding attempt_def by (intro counting)

lemma still_chk [counting]: "still m \<Longrightarrow> (\<And>x. still (k x)) \<Longrightarrow> still (chk m wrap k)"
  unfolding chk_def by (intro counting)

lemma one_fail [counting]: "makes_one (fail e)"
  by (simp add: makes_one_def wp_rules)

lemma one_new [counting]: "makes_one (new_cell k p \<bind> (\<lambda>i. ok (f i)))"
  by (simp add: makes_one_def wp_rules)

lemma one_bind [counting]:
  assumes "still m" "\<And>x. makes_one (k x)" shows "makes_one (m \<bind> k)"
  unfolding makes_one_def wp_bind
proof
  fix w
  show "wp m (\<lambda>x. wp (k x) (\<lambda>r w'. next_ref w' = next_ref w + (if isl r then 0 else 1))) w"
    using assms(1)
  proof (rule wp_still)
    fix x and w' :: world assume "next_ref w' = next_ref w"
    then show "wp (k x) (\<lambda>r w'. next_ref w' = next_ref w + (if isl r then 0 else 1)) w'"
      using assms(2) [of x, unfolded makes_one_def, rule_format, of w'] by simp
  qed
qed

lemma one_option [counting]:
  "(x = None \<Longrightarrow> makes_one m) \<Longrightarrow> (\<And>y. x = Some y \<Longrightarrow> makes_one (k y)) \<Longrightarrow>
   makes_one (case x of None \<Rightarrow> m | Some y \<Rightarrow> k y)"
  by (cases x) simp_all

lemma one_sum [counting]:
  "(\<And>e. makes_one (h e)) \<Longrightarrow> (\<And>y. makes_one (k y)) \<Longrightarrow> makes_one (case x of Inl e \<Rightarrow> h e | Inr y \<Rightarrow> k y)"
  by (cases x) simp_all

lemma one_prod [counting]: "(\<And>a b. makes_one (k a b)) \<Longrightarrow> makes_one (case x of (a, b) \<Rightarrow> k a b)"
  by (cases x) simp

lemma one_attempt [counting]:
  "still m \<Longrightarrow> (\<And>e. makes_one (h e)) \<Longrightarrow> (\<And>x. makes_one (k x)) \<Longrightarrow> makes_one (attempt m h k)"
  unfolding attempt_def by (intro counting)

lemma one_chk [counting]: "still m \<Longrightarrow> (\<And>x. makes_one (k x)) \<Longrightarrow> makes_one (chk m wrap k)"
  unfolding chk_def by (intro counting)

lemma one_then [counting]:
  assumes "makes_one m" "still n" shows "makes_one (do { r \<leftarrow> m; u \<leftarrow> n; State_Monad.return r })"
  unfolding makes_one_def wp_bind wp_return
proof
  fix w
  show "wp m (\<lambda>r. wp n (\<lambda>u w'. next_ref w' = next_ref w + (if isl r then 0 else 1))) w"
    using assms(1) [unfolded makes_one_def, rule_format]
  proof (rule wp_mono)
    fix r and w' :: world assume "next_ref w' = next_ref w + (if isl r then 0 else 1)"
    then show "wp n (\<lambda>u w'. next_ref w' = next_ref w + (if isl r then 0 else 1)) w'"
      using assms(2) by (auto intro: wp_still)
  qed
qed

section \<open>The operations\<close>

lemma still_cstring [counting]: "still (take_cstring p)"
  unfolding take_cstring_def by (intro counting)

lemma still_take_raw [counting]: "still (take_raw c)"
  unfolding take_raw_def by (intro counting)

lemma still_from_context [counting]: "still (from_context ctx)"
  unfolding free_context_def read_error_def from_context_def by (intro counting)

lemma still_fail_status [counting]: "still (fail_status ctx fmt args)"
  unfolding fail_status_def by (intro counting)

lemma still_checks [counting]:
  "still (check_code ctx c fmt args)" "still (check_code_bytes ctx c fmt args)"
  "still (check_ptr ctx c fmt args)" "still (check_str ctx c fmt args)" "still (check_pending ctx fmt args)"
  unfolding check_code_def check_code_bytes_def check_ptr_def check_str_def check_pending_def
  by (intro counting)+

lemma still_wrappers [counting]:
  "still (context_borrow c)" "still (store_borrow s)" "still (evaluator_borrow e)" "still (fetchers_borrow g)"
  "still (flakesettings_borrow l)" "still (path_borrow p)" "still (path_close p)" "still (flake_borrow f)"
  unfolding context_borrow_def store_borrow_def evaluator_borrow_def fetchers_borrow_def flakesettings_borrow_def
    path_borrow_def path_close_def flake_borrow_def
  by (intro counting)+

lemma one_path_new [counting]: "makes_one (path_new ctx p)"
  unfolding path_new_def by (intro counting)

text \<open>Locking a flake.\<close>

lemma still_metadata [counting]: "still (flake_metadata ctx s gp l)"
  unfolding flake_metadata_def by (intro counting)

lemma one_lock [counting]: "makes_one (flake_lock ctx gp fp st ls r s build)"
  unfolding flake_lock_def by (intro counting)

lemma one_scoped [counting]: "still m \<Longrightarrow> (\<And>p. makes_one (k p)) \<Longrightarrow> makes_one (scoped m free k)"
  unfolding scoped_def by (intro counting)

lemma one_scoped_ref [counting]: "(\<And>r. makes_one (k r)) \<Longrightarrow> makes_one (scoped_ref result k)"
  unfolding scoped_ref_def free_ref_def by (intro counting)

lemma one_overrides [counting]: "makes_one k \<Longrightarrow> makes_one (with_overrides ctx gp fp ps ls os k)"
  by (induction os) (auto intro!: counting)

lemma still_flake_options [counting]:
  "still (set_base_directory ctx ps dir)" "still (set_reference_lock render ctx ls info)"
  "still (apply_lock_mode ctx ls mode)"
  unfolding set_base_directory_def set_reference_lock_def apply_lock_mode_def by (intro counting)+

lemma one_flake_new [counting]: "makes_one (flake_new render ctx s fs fls e ref opts)"
  unfolding flake_new_def Let_def by (intro counting)

section \<open>Exact ownership\<close>

text \<open>If the new wrappers are as many as the ones known to be open, there are no others.\<close>

lemma only_new:
  assumes "only ps w0 w" "safe w0" "grows w w'" "distinct (map snd qs)"
    "\<And>k i. (k, i) \<in> set qs \<Longrightarrow> created k w i w'" "next_ref w' \<le> next_ref w + length qs"
  shows "only (qs @ ps) w0 w'"
proof -
  have safe: "safe w" using assms(1,2) by (rule only_safe)
  then have safe': "safe w'" using assms(3) by (simp add: grows_safe)
  have le: "next_ref w0 \<le> next_ref w" using assms(1) by (simp add: only_def grows_next)
  have sub: "snd ` set qs \<subseteq> {next_ref w..<next_ref w'}"
    using assms(5) cells_bound [OF safe_wf [OF safe']] by (fastforce simp: created_def)
  have "card (snd ` set qs) = length qs" using assms(4) by (simp add: distinct_card flip: set_map)
  then have all: "snd ` set qs = {next_ref w..<next_ref w'}"
    using sub assms(6) by (intro card_subset_eq) (auto dest: card_mono [rotated])
  have old: "cells w' i = cells w i" if "i < next_ref w" for i
    using grows_ext [OF assms(3)] that by (simp add: ext_def)
  have ids: "ptr_at k i w' \<noteq> None \<longleftrightarrow> (k, i) \<in> set qs \<or> i < next_ref w \<and> ptr_at k i w \<noteq> None" for k i
  proof (cases "i < next_ref w")
    case True
    then have "(k, i) \<notin> set qs" using sub by fastforce
    then show ?thesis using True old [OF True] by (simp add: ptr_at_def)
  next
    case False
    show ?thesis
    proof (cases "i < next_ref w'")
      case True
      then have "i \<in> snd ` set qs" using all False by simp
      then obtain k' where k': "(k', i) \<in> set qs" by force
      then obtain p where p: "cells w' i = Some (k', p)" using assms(5) by (force simp: created_def)
      have "k'' = k'" if "(k'', i) \<in> set qs" for k''
        using assms(5) [OF that] p by (simp add: created_def)
      then have "(k, i) \<in> set qs \<longleftrightarrow> k = k'" using k' by blast
      moreover have "ptr_at k i w' \<noteq> None \<longleftrightarrow> k = k'" using p by (simp add: ptr_at_def)
      ultimately show ?thesis using False by simp
    next
      case out: False
      then have "(k, i) \<notin> set qs" using sub by force
      then show ?thesis using False out ptr_at_outside [OF safe'] by simp
    qed
  qed
  have inner: "i < next_ref w" if "(k, i) \<in> set ps" for k i
    using only_open [OF assms(1) that] ptr_at_outside [OF safe, of i k] by (cases "next_ref w \<le> i") auto
  have "grows w0 w'" using only_grows [OF assms(1)] assms(3) by (rule grows_trans)
  moreover have "distinct (map snd (qs @ ps))"
    using assms(1,4) sub inner by (fastforce simp: only_def)
  moreover have "next_ref w0 \<le> i" if "(k, i) \<in> set (qs @ ps)" for k i
    using that assms(1) sub le by (fastforce simp: only_def)
  moreover have "ptr_at k i w' \<noteq> None \<longleftrightarrow> (k, i) \<in> set (qs @ ps)" if "next_ref w0 \<le> i" for k i
    using that ids [of k i] assms(1) inner by (auto simp: only_def)
  ultimately show ?thesis by (simp only: only_def) blast
qed

text \<open>A settled world has no new wrapper, so it owns what it owned.\<close>

lemma settled_no_new:
  assumes "settled w w'" "safe w" "next_ref w \<le> i" shows "cells w' i = None"
proof (cases "i < next_ref w'")
  case True
  have g: "grows w w'" and live: "live w' = live w" using assms(1) by (simp_all add: settled_def)
  have "sound (temps w) w" "sound (temps w) w'"
    using sound_self [OF assms(2)] g by (simp_all add: grows_sound)
  with live have "owned w' = owned w" by (simp add: sound_def)
  moreover have "owned w' = (\<Sum>j<next_ref w. opt_mset (cells w' j)) + (\<Sum>j=next_ref w..<next_ref w'. opt_mset (cells w' j))"
    using grows_next [OF g] unfolding owned_def
    by (subst sum.union_disjoint [symmetric]) (auto intro: sum.cong)
  moreover have "(\<Sum>j<next_ref w. opt_mset (cells w' j)) = owned w"
    using grows_ext [OF g] unfolding owned_def by (intro sum.cong) (auto simp: ext_def)
  ultimately have "(\<Sum>j=next_ref w..<next_ref w'. opt_mset (cells w' j)) = {#}" by simp
  then have "\<forall>j \<in> {next_ref w..<next_ref w'}. opt_mset (cells w' j) = {#}"
    by (subst (asm) sum_eq_empty_iff) auto
  then have "opt_mset (cells w' i) = {#}"
    using True assms(3) by simp
  then show ?thesis by (cases "cells w' i") auto
next
  case False
  then show ?thesis
    using assms(1,2) settled_safe [OF assms(1)] safe_wf [of w'] by (simp add: wf_cells_def)
qed

lemma only_settled:
  assumes "only ps w w'" "settled w' w''" "safe w" shows "only ps w w''"
proof -
  have safe: "safe w'" using assms(1,3) by (rule only_safe)
  have "ptr_at k i w'' = ptr_at k i w'" for k i
  proof (cases "next_ref w' \<le> i")
    case True
    then show ?thesis
      using settled_no_new [OF assms(2) safe True] ptr_at_outside [OF safe True] by (simp add: ptr_at_def)
  next
    case False
    then have "cells w'' i = cells w' i" using assms(2) by (auto simp: settled_def grows_def ext_def)
    then show ?thesis by (simp add: ptr_at_def)
  qed
  moreover have "grows w w''"
    using assms(1,2) by (auto simp: only_def settled_def intro: grows_trans)
  ultimately show ?thesis using assms(1) by (simp add: only_def)
qed

text \<open>Locking a flake opens the flake and nothing else.\<close>

lemma flake_new_adds:
  assumes "safe w0" "only ps w0 w"
  shows "wp (flake_new render ctx s fs fls e ref opts) (adds KLockedFlake lf_id ps w0) w"
proof -
  have safe: "safe w" using assms by (simp add: only_safe)
  have "wp (flake_new render ctx s fs fls e ref opts)
      (\<lambda>r w'. creates KLockedFlake lf_id w r w' \<and> next_ref w' = next_ref w + (if isl r then 0 else 1)) w"
    using flake_new_creates [OF safe] one_flake_new [unfolded makes_one_def] by (intro wp_conj) blast+
  then show ?thesis
  proof (rule wp_mono)
    fix r w' assume c: "creates KLockedFlake lf_id w r w' \<and> next_ref w' = next_ref w + (if isl r then 0 else 1)"
    show "adds KLockedFlake lf_id ps w0 r w'"
    proof (cases r)
      case (Inl e)
      with c only_new [OF assms(2,1), of w' "[]"] show ?thesis by (simp add: creates_def)
    next
      case (Inr q)
      with c only_new [OF assms(2,1), of w' "[(KLockedFlake, lf_id q)]"] show ?thesis by (simp add: creates_def)
    qed
  qed
qed

text \<open>A value obtained with its ledger exact.\<close>

lemma only_one_value:
  assumes "only ps w0 w" "safe w0" "one_value w (Inr v) w'"
  shows "only ((KValue, val_id v) # ps) w0 w'"
proof -
  have safe: "safe w" using assms(1,2) by (rule only_safe)
  from assms(3) obtain p where g: "grows w w'" and new: "next_ref w \<le> val_id v"
    and p: "cells w' (val_id v) = Some (KValue, p)" and live: "live w' = add_mset (KValue, p) (live w)"
    by (auto simp: one_value_Inr)
  let ?c = "clear_cell (val_id v) (drop_handle (KValue, p) w')"
  have "grows w ?c" using safe g new p by (rule grows_close_fresh)
  then have "settled w ?c" using live by (simp add: settled_def)
  then have o: "only ps w0 ?c" by (rule only_settled [OF assms(1) _ assms(2)])
  have ids: "ptr_at k i w' \<noteq> None \<longleftrightarrow> (k, i) = (KValue, val_id v) \<or> ptr_at k i ?c \<noteq> None" for k i
    using p by (auto simp: ptr_at_def)
  have le: "next_ref w0 \<le> val_id v" using assms(1) new by (auto simp: only_def dest: grows_next)
  have fresh: "val_id v \<notin> snd ` set ps"
    using only_open [OF o] by (fastforce simp: ptr_at_def)
  have "grows w0 w'" using only_grows [OF assms(1)] g by (rule grows_trans)
  moreover have "distinct (map snd ((KValue, val_id v) # ps))" using o fresh by (simp add: only_def)
  moreover have "next_ref w0 \<le> i" if "(k, i) \<in> set ((KValue, val_id v) # ps)" for k i
    using that o le by (auto simp: only_def)
  moreover have "ptr_at k i w' \<noteq> None \<longleftrightarrow> (k, i) \<in> set ((KValue, val_id v) # ps)" if "next_ref w0 \<le> i" for k i
  proof -
    have "ptr_at k i ?c \<noteq> None \<longleftrightarrow> (k, i) \<in> set ps" using o that unfolding only_def by blast
    with ids [of k i] show ?thesis by simp
  qed
  ultimately show ?thesis unfolding only_def by blast
qed

text \<open>Realising a derivation opens the paths of its results and nothing else.\<close>

lemma wp_fail_status_any: "(\<And>e w'. Q (Inl e) w') \<Longrightarrow> wp (fail_status ctx fmt args) Q w"
  unfolding fail_status_def wp_rules by (rule wp_always)

lemma count_realise_loop:
  assumes "\<And>e w'. Q (Inl e) w'" "\<And>rs' w'. next_ref w' + length rs = next_ref w + length rs' \<Longrightarrow> Q (Inr rs') w'"
  shows "wp (convert_realise_loop ctx raw_ctx results is rs) Q w"
  using assms(2)
proof (induction "is" arbitrary: rs w)
  case Nil
  then show ?case by (simp add: wp_rules)
next
  case (Cons i "is")
  have step: "wp (path_new ctx p) (\<lambda>r w'. case r of
        Inl e \<Rightarrow> wp (close_realizations rs) (\<lambda>u. Q (Inl (wrap e))) w'
      | Inr q \<Rightarrow> wp (convert_realise_loop ctx raw_ctx results is (rs @ [\<lparr>OutputName = name, Path = Some q\<rparr>])) Q w') w1"
    if "next_ref w1 = next_ref w" for p name w1 wrap
  proof (rule wp_mono [OF one_path_new [unfolded makes_one_def, rule_format]], goal_cases)
    case (1 r w')
    then show ?case
      using that by (cases r) (auto intro!: wp_always assms(1) Cons.IH Cons.prems)
  qed
  show ?case
    unfolding convert_realise_loop.simps wp_rules wp_raw take_cstring_def raw_free_def Let_def
    by (auto simp: wp_rules wp_raw intro!: wp_always wp_fail_status_any assms(1) step split: option.split)
qed

lemma count_realise:
  assumes "\<And>e w'. Q (Inl e) w'" "\<And>rs w'. next_ref w' = next_ref w + length rs \<Longrightarrow> Q (Inr rs) w'"
  shows "wp (store_realise s p) Q w"
  unfolding store_realise_def with_store_def convert_realise_results_def context_borrow_def path_borrow_def
    check_ptr_def raw_free_def
  by (auto simp: wp_rules wp_raw intro!: wp_fail_status_any assms count_realise_loop split: option.split)

section \<open>Realising leaves nothing on success\<close>

abbreviation path_ids :: "path_ref list \<Rightarrow> (kind \<times> nat) list" where
  "path_ids qs \<equiv> map (\<lambda>q. (KStorePath, path_id q)) qs"

lemma store_realise_only:
  assumes "safe w0" "only ps w0 w"
  shows "wp (store_realise s p) (\<lambda>r w'. \<forall>rs. r = Inr rs \<longrightarrow>
    (\<forall>x \<in> set rs. Path x \<noteq> None) \<and> only (path_ids (real_paths rs) @ ps) w0 w') w"
proof -
  have safe: "safe w" using assms by (simp add: only_safe)
  have count: "wp (store_realise s p) (\<lambda>r w'. \<forall>rs. r = Inr rs \<longrightarrow> next_ref w' = next_ref w + length rs) w"
    by (rule count_realise) auto
  show ?thesis
    by (rule wp_mono [OF wp_conj [OF store_realise_outcome [OF safe] count]])
      (auto simp: realise_outcome_def open_realizations_def fresh_paths_def leaves_grows safe real_paths_def comp_def
        intro!: only_new [OF assms(2,1)])
qed

lemma close_realizations_shut:
  assumes "safe w" "\<forall>x \<in> set rs. Path x \<noteq> None"
  shows "wp (close_realizations rs) (\<lambda>u w'. shut (path_ids (real_paths rs)) w w') w"
  using assms
proof (induction rs arbitrary: w)
  case Nil
  then show ?case by (simp add: wp_rules real_paths_def)
next
  case (Cons x rs)
  then obtain q where q: "Path x = Some q" by auto
  have rest: "wp (close_realizations rs) (\<lambda>u w''. shut (path_ids (real_paths (x # rs))) w w'') w'"
    if "shut [(KStorePath, path_id q)] w w'" for w'
    using shut_trans [OF that] Cons.prems shut_safe [OF that] q
    by (intro wp_mono [OF Cons.IH]) (auto simp: real_paths_def)
  show ?case
    unfolding close_realizations.simps realization_close_def q option.case wp_rules
    by (rule wp_mono [OF pth.close_shuts [OF Cons.prems(1)]]) (use rest in \<open>auto split: sum.split\<close>)
qed

lemma still_real_path [counting]: "still (real_path s p)"
  unfolding real_path_def with_store_def by (intro counting)

lemma still_realized_output [counting]: "still (realized_output c r)"
  unfolding realized_output_def by (intro counting)

lemma still_realized_outputs [counting]: "still (realized_outputs c rs outputs)"
  by (induction rs arbitrary: outputs) (auto intro!: counting)

lemma realized_outputs_only:
  assumes "safe w0" "only ps w0 w" shows "wp (realized_outputs c rs outputs) (\<lambda>r w'. only ps w0 w') w"
proof -
  have safe: "safe w" using assms by (simp add: only_safe)
  show ?thesis
    using only_new [OF assms(2,1), of _ "[]"]
    by (intro wp_mono [OF wp_conj [OF wp_realized_outputs [OF safe] still_realized_outputs [unfolded still_def, rule_format]]])
      auto
qed

end
