(* ===== verification/Example_Program.thy ===== *)
theory Example_Program
  imports Allocations Client_Guarantees Samples Sdk System_Id
begin

text \<open>
  \<^verbatim>\<open>cmd/example/main.go\<close>: a program over the SDK from start to end. What it prints is left out;
  \<^verbatim>\<open>log.Fatal\<close> exits without running the deferred closes.
\<close>

section \<open>The operations of a client with their exact ledger\<close>

lemma wp_middleware_none:
  assumes "c_ctx c \<noteq> None" "wp h (\<lambda>(c', x, r) w'. Q (c', x, case r of
      Inl e \<Rightarrow> Inl (wrapf ''middleware: failed to call handler: %w'' [] e) | Inr _ \<Rightarrow> Inr ()) w') w"
  shows "wp (middleware None c vars h) Q w"
  unfolding middleware_run [OF assms(1)] wp_rules
  by (rule wp_mono [OF assms(2)]) (auto split: prod.splits)

lemma wp_giving:
  "wp m (\<lambda>r w'. case r of Inl e \<Rightarrow> Q (c, vars, Inl e) w' | Inr x \<Rightarrow> Q (c, x, Inr ()) w') w \<Longrightarrow> wp (giving c vars m) Q w"
  unfolding giving_def wp_rules by (erule wp_mono) (auto split: sum.splits)

lemma realize_settled:
  assumes "safe w" "c_ctx c \<noteq> None"
  shows "wp (realize None c drv_path) (\<lambda>(c', x, r) w'. c' = c \<and> (r = Inr () \<longrightarrow> settled w w')) w"
proof -
  have rest: "wp (realized_outputs c rs []) (\<lambda>r. wp (close_realizations rs)
      (\<lambda>_. wp (path_close q) (\<lambda>_ w'. settled w w'))) w2"
    if "\<forall>x \<in> set rs. Path x \<noteq> None" "only (path_ids (real_paths rs) @ [(KStorePath, path_id q)]) w w2" for rs q w2
  proof (rule wp_mono [OF realized_outputs_only [OF assms(1) that(2)]])
    fix r w3 assume o: "only (path_ids (real_paths rs) @ [(KStorePath, path_id q)]) w w3"
    then have safe: "safe w3" using assms(1) by (rule only_safe)
    have close: "wp (path_close q) (\<lambda>_ w'. settled w w') w4" if s: "shut (path_ids (real_paths rs)) w3 w4" for w4
    proof (rule wp_mono [OF pth.close_shuts])
      show "safe w4" using safe s by (simp add: shut_safe)
      fix e w5 assume "e = Inr () \<and> shut [(KStorePath, path_id q)] w4 w5"
      then have "only [] w w5"
        using only_close_all [OF o _ assms(1)] shut_trans [OF s] by simp
      then show "settled w w5" using assms(1) by (rule only_nil_settled)
    qed
    show "wp (close_realizations rs) (\<lambda>_. wp (path_close q) (\<lambda>_ w'. settled w w')) w3"
      by (rule wp_mono [OF close_realizations_shut [OF safe that(1)]]) (rule close)
  qed
  show ?thesis
    unfolding realize_def
  proof (rule wp_middleware_none [OF assms(2)], rule wp_giving, unfold wp_chk,
      rule wp_adds [OF parse_path_adds [OF assms(1) only_nil [OF assms(1)]]], goal_cases)
    case (1 e w')
    then show ?case by simp
  next
    case (2 q w1)
    show ?case
      unfolding defer_path_close_def wp_rules sum.case
    proof (rule wp_mono [OF store_realise_only [OF assms(1) 2]], goal_cases)
      case (1 r w2)
      show ?case
      proof (cases r)
        case (Inl e)
        then show ?thesis by (simp add: wp_rules wp_const)
      next
        case (Inr rs)
        with 1 have all: "wp (realized_outputs c rs []) (\<lambda>r. wp (close_realizations rs)
            (\<lambda>_. wp (path_close q) (\<lambda>_ w'. settled w w'))) w2"
          by (intro rest) simp_all
        show ?thesis
          unfolding Inr sum.case wp_rules
        proof (rule wp_mono [OF all], goal_cases)
          case (1 x w3)
          then show ?case
          proof (rule wp_mono, goal_cases)
            case (1 u w4)
            then show ?case by (rule wp_mono) (auto split: sum.split)
          qed
        qed
      qed
    qed
  qed
qed

section \<open>What a result refers to\<close>

named_theorems returning \<open>properties of successful results\<close>

definition returns :: "('a \<Rightarrow> bool) \<Rightarrow> 'a res io \<Rightarrow> bool" where
  "returns P m \<longleftrightarrow> (\<forall>w. wp m (\<lambda>r w'. \<forall>x. r = Inr x \<longrightarrow> P x) w)"

lemma returns_ok [returning]: "P x \<Longrightarrow> returns P (ok x)"
  by (simp add: returns_def wp_rules)

lemma returns_fail [returning]: "returns P (fail e)"
  by (simp add: returns_def wp_rules)

lemma returns_bind [returning]: "(\<And>x. returns P (k x)) \<Longrightarrow> returns P (m \<bind> k)"
  unfolding returns_def wp_bind by (auto intro: wp_always)

lemma returns_attempt [returning]:
  "(\<And>e. returns P (h e)) \<Longrightarrow> (\<And>x. returns P (k x)) \<Longrightarrow> returns P (attempt m h k)"
  unfolding returns_def wp_attempt by (auto intro!: wp_always split: sum.split)

lemma returns_chk [returning]: "(\<And>x. returns P (k x)) \<Longrightarrow> returns P (chk m wrap k)"
  unfolding chk_def by (intro returning)

lemma returns_option [returning]:
  "(x = None \<Longrightarrow> returns P m) \<Longrightarrow> (\<And>y. x = Some y \<Longrightarrow> returns P (k y)) \<Longrightarrow>
   returns P (case x of None \<Rightarrow> m | Some y \<Rightarrow> k y)"
  by (cases x) simp_all

lemma returns_sum [returning]:
  "(\<And>e. x = Inl e \<Longrightarrow> returns P (h e)) \<Longrightarrow> (\<And>y. x = Inr y \<Longrightarrow> returns P (k y)) \<Longrightarrow>
   returns P (case x of Inl e \<Rightarrow> h e | Inr y \<Rightarrow> k y)"
  by (cases x) simp_all

lemma returns_prod [returning]: "(\<And>a b. returns P (k a b)) \<Longrightarrow> returns P (case x of (a, b) \<Rightarrow> k a b)"
  by (cases x) simp

lemma returns_then [returning]: "returns P m \<Longrightarrow> returns P (do { r \<leftarrow> m; u \<leftarrow> n; State_Monad.return r })"
  unfolding returns_def wp_rules wp_const by simp

lemma returns_after:
  assumes "returns P' m" "\<And>e. returns P (h e)" "\<And>x. P' x \<Longrightarrow> returns P (k x)"
  shows "returns P (attempt m h k)"
  unfolding returns_def wp_attempt
  by (rule allI, rule wp_mono [OF assms(1) [unfolded returns_def, rule_format]])
    (use assms(2,3) in \<open>auto simp: returns_def split: sum.split\<close>)

lemma evaluator_new_ctx: "returns (\<lambda>ev. ev_ctx ev = ctx) (evaluator_new ctx s opts)"
  unfolding evaluator_new_def Let_def by (intro returning) simp

lemma give_up_returns [returning]: "returns P (give_up c e)"
  unfolding give_up_def by (intro returning)

definition evaluates_in :: "client \<Rightarrow> bool" where
  "evaluates_in c \<longleftrightarrow> c_ctx c = Some (ev_ctx (the (c_evaluator c)))"

lemma new_client_evaluates: "returns evaluates_in (new_client order porder cfg)"
proof -
  have "returns evaluates_in (open_store_and_evaluator porder cfg ctx fl c)" if "c_ctx c = Some ctx" for ctx fl c
    unfolding open_store_and_evaluator_def Let_def
    by (intro returns_attempt returns_after [OF evaluator_new_ctx] give_up_returns)
      (auto simp: evaluates_in_def that intro!: returning)
  then show ?thesis
    unfolding new_client_def Let_def by (intro returning) simp
qed

lemma scoped_returns [returning]: "(\<And>p. returns P (k p)) \<Longrightarrow> returns P (scoped m free k)"
  unfolding scoped_def by (intro returning)

lemma scoped_ref_returns [returning]: "(\<And>r. returns P (k r)) \<Longrightarrow> returns P (scoped_ref result k)"
  unfolding scoped_ref_def by (intro returning)

lemma overrides_return [returning]: "returns P k \<Longrightarrow> returns P (with_overrides ctx gp fp ps ls os k)"
  by (induction os) (auto intro!: returning)

lemma flake_new_evaluator: "returns (\<lambda>f. lf_evaluator f = e) (flake_new render ctx s fs fls e ref opts)"
  unfolding flake_new_def flake_lock_def Let_def by (intro returning) simp

lemma wp_keeps: "keeps_client c w m \<Longrightarrow> (\<And>x r w'. settled w w' \<Longrightarrow> Q (c, x, r) w') \<Longrightarrow> wp m Q w"
  by (auto simp: keeps_client_def wp_def split: prod.splits)

lemma realize_safe:
  assumes "safe w" "complete c" shows "wp (realize None c drv) (\<lambda>r w'. safe w') w"
proof -
  have "accounted w (after (realize None c drv) w)"
    using assms by (intro account_client) (simp_all add: usable_def)
  then have "safe (snd (run_state (realize None c drv) w))" by (simp add: accounted_def after_def)
  then show ?thesis by (cases "run_state (realize None c drv) w") (simp add: wp_def)
qed

section \<open>main\<close>

text \<open>\<open>Fatal e\<close>: the program stopped in \<^verbatim>\<open>log.Fatal(e)\<close>.\<close>

datatype main_end = Finished "realized_dto list" | Fatal err

definition or_fatal :: "'a outcome \<Rightarrow> (client \<Rightarrow> 'a \<Rightarrow> main_end io) \<Rightarrow> main_end io" where
  "or_fatal res k =
     (case snd (snd res) of Inl e \<Rightarrow> State_Monad.return (Fatal e) | Inr _ \<Rightarrow> k (fst res) (fst (snd res)))"

definition required :: "string \<Rightarrow> string \<Rightarrow> field_tag" where
  "required name attr = \<lparr>f_name = name, f_pkgpath = [], f_nix = attr, f_validate = ''required''\<rparr>"

definition evaluation_type :: gtype where
  "evaluation_type = GStruct [(required ''Message'' ''message'', GString), (required ''Answer'' ''answer'', GInt 64)]"

definition package_type :: gtype where
  "package_type = GStruct [(required ''Name'' ''name'', GString), (required ''DrvPath'' ''drvPath'', GString)]"

definition drv_path_of :: "out_arg \<Rightarrow> string" where
  "drv_path_of pkg = (case pkg of OutPtr _ (VStruct [_, VString s]) \<Rightarrow> s | _ \<Rightarrow> [])"

definition example_config :: client_config where
  "example_config = zero_client_config\<lparr>cfg_Verbosity := VerbosityInfo, cfg_LogFormat := LogFormatBar,
     Store_URI := Daemon\<rparr>"

text \<open>From the package value to the end, with the deferred closes.\<close>

definition realize_package ::
  "go_tables \<Rightarrow> client \<Rightarrow> flake_ref \<Rightarrow> value_ref option \<Rightarrow> main_end io" where
  "realize_package tab c f package_value = do {
     res \<leftarrow> client_unmarshal tab None c package_value (OutPtr package_type (zero_gval package_type));
     or_fatal res (\<lambda>c pkg. do {
       res \<leftarrow> realize None c (drv_path_of pkg);
       or_fatal res (\<lambda>c outputs. do {
         x \<leftarrow> value_close (the package_value);
         y \<leftarrow> flake_close f;
         z \<leftarrow> client_close False c;
         State_Monad.return (Finished outputs)
       })
     })
   }"

text \<open>From the opened flake on: its lock graph, then its package.\<close>

definition use_flake ::
  "go_tables \<Rightarrow> (string \<Rightarrow> json option) \<Rightarrow> string \<Rightarrow> string \<Rightarrow> client \<Rightarrow> flake_ref \<Rightarrow> main_end io" where
  "use_flake tab parse goos goarch c f =
     (case flake_lock_info parse f of
        Inl e \<Rightarrow> State_Monad.return (Fatal e)
      | Inr lock_info \<Rightarrow>
          (case marshal_info lock_info of
             Inl e \<Rightarrow> State_Monad.return (Fatal e)
           | Inr lock_json \<Rightarrow> do {
               res \<leftarrow> get_flake_output_value None c f [''legacyPackages'', default_system goos goarch, ''hello''];
               or_fatal res (\<lambda>c package_value. realize_package tab c f package_value)
             }))"

definition example_main ::
  "go_tables \<Rightarrow> (json \<Rightarrow> string) \<Rightarrow> (string \<Rightarrow> json option) \<Rightarrow> (string list \<Rightarrow> string list) \<Rightarrow>
   ((string \<times> string) list \<Rightarrow> (string \<times> string) list) \<Rightarrow> string \<Rightarrow> string \<Rightarrow> main_end io" where
  "example_main tab render parse order porder goos goarch = do {
     opened \<leftarrow> new_client order porder example_config;
     (case opened of
        Inl e \<Rightarrow> State_Monad.return (Fatal e)
      | Inr c \<Rightarrow> do {
          res \<leftarrow> client_eval tab None c ''{ message = \"hello from Nix\"; answer = 6 * 7; }''
            (OutPtr evaluation_type (zero_gval evaluation_type));
          or_fatal res (\<lambda>c evaluation. do {
            res \<leftarrow> open_flake render c ''github:NixOS/nixpkgs/nixpkgs-unstable'' [];
            or_fatal res (\<lambda>c f. use_flake tab parse goos goarch c (the f))
          })
        })
   }"

section \<open>Nothing is left behind\<close>

lemma wp_or_fatal_simps [simp]:
  "wp (or_fatal (c, x, Inl e) k) Q w = Q (Fatal e) w" "wp (or_fatal (c, x, Inr u) k) Q w = wp (k c x) Q w"
  by (simp_all add: or_fatal_def wp_rules)

lemma wp_step: "wp m (\<lambda>res. wp (k res) Q) w \<Longrightarrow> wp (do { res \<leftarrow> m; k res }) Q w"
  by (simp add: wp_rules)

text \<open>How main may end: in any safe world by an error, with an empty ledger otherwise.\<close>

definition clean_end :: "world \<Rightarrow> main_end \<Rightarrow> world \<Rightarrow> bool" where
  "clean_end w0 e w \<longleftrightarrow> safe w \<and> (case e of Finished outputs \<Rightarrow> settled w0 w | Fatal er \<Rightarrow> True)"

lemma wp_realize_package:
  assumes "safe w0" "only ((KValue, val_id v) # ps) w0 w" "set ps = set (parts c) \<union> {(KLockedFlake, lf_id f)}"
    "complete c" "ptr_at KContext (ctx_id (val_ctx v)) w \<noteq> None"
  shows "wp (realize_package tab c f (Some v)) (clean_end w0) w"
proof -
  have ctx: "c_ctx c \<noteq> None" using assms(4) by (simp add: complete_def)
  have safe: "safe w" using assms(1,2) by (simp add: only_safe)
  have close: "wp (value_close v) (\<lambda>_. wp (flake_close f) (\<lambda>_. wp (client_close False c)
      (\<lambda>_. clean_end w0 (Finished outputs)))) w3" if "settled w w3" for w3 outputs
  proof -
    have o: "only ((KValue, val_id v) # ps) w0 w3" by (rule only_settled [OF assms(2) that assms(1)])
    have safe3: "safe w3" using o assms(1) by (rule only_safe)
    have in_context: "ptr_at KContext (ctx_id (val_ctx v)) w3 \<noteq> None"
      using grows_ptr_at [OF _ safe assms(5)] that by (simp add: settled_def)
    have rest: "wp (flake_close f) (\<lambda>_. wp (client_close False c) (\<lambda>_. clean_end w0 (Finished outputs))) w4"
      if s: "shut [(KValue, val_id v)] w3 w4" for w4
    proof (rule wp_mono [OF flk.close_shuts])
      show safe4: "safe w4" using s safe3 by (simp add: shut_safe)
      fix e w5 assume s5: "e = Inr () \<and> shut [(KLockedFlake, lf_id f)] w4 w5"
      then have safe5: "safe w5" using safe4 shut_safe by blast
      show "wp (client_close False c) (\<lambda>_. clean_end w0 (Finished outputs)) w5"
      proof (rule wp_mono [OF wp_client_close [OF safe5 ctx]])
        fix r w6 assume "r = (zero_client, Inr ()) \<and> shut (parts c) w5 w6"
        then have "shut ([(KValue, val_id v)] @ [(KLockedFlake, lf_id f)] @ parts c) w3 w6"
          using s s5 by (blast intro: shut_trans)
        then have "only [] w0 w6"
          using only_shut [OF o _ assms(1)] assms(3) by fastforce
        then have "settled w0 w6" using assms(1) by (rule only_nil_settled)
        then show "clean_end w0 (Finished outputs) w6"
          using assms(1) by (simp add: clean_end_def settled_safe)
      qed
    qed
    show ?thesis
    proof (rule wp_value_close [OF safe3], goal_cases)
      case 1
      then show ?case using only_open [OF o, of KValue "val_id v"] by simp
    next
      case (2 e)
      then show ?case using in_context by simp
    next
      case (3 p r h)
      then show ?case using safe3 by (intro rest) (auto intro: shut_cell)
    qed
  qed
  show ?thesis
    unfolding realize_package_def
  proof (rule wp_step, rule wp_keeps [OF keeps_client_unmarshal [OF safe ctx]], goal_cases)
    case (1 pkg r w2)
    then have safe2: "safe w2" using safe by (simp add: settled_safe)
    show ?case
    proof (cases r)
      case (Inl e)
      then show ?thesis using safe2 by (simp add: clean_end_def)
    next
      case (Inr u)
      show ?thesis
        unfolding Inr wp_or_fatal_simps
      proof (rule wp_step, rule wp_mono [OF wp_conj [OF realize_settled [OF safe2 ctx] realize_safe [OF safe2 assms(4)]]],
          goal_cases)
        case (1 res w')
        obtain c' outputs r' where res: "res = (c', outputs, r')" by (cases res)
        show ?case
        proof (cases r')
          case (Inl e)
          then show ?thesis using 1 by (simp add: res clean_end_def)
        next
          case (Inr u')
          then have "settled w w'" and "c' = c" using 1 settled_trans [OF \<open>settled w w2\<close>] by (simp_all add: res)
          then show ?thesis using close by (simp add: res Inr wp_rules)
        qed
      qed
    qed
  qed
qed

lemma wp_open_flake:
  assumes "safe w0" "only ps w0 w" "c_ctx c \<noteq> None"
    "\<And>e w'. safe w' \<Longrightarrow> Q (c, None, Inl e) w'"
    "\<And>f w'. only ((KLockedFlake, lf_id f) # ps) w0 w' \<Longrightarrow> lf_evaluator f = the (c_evaluator c) \<Longrightarrow>
      Q (c\<lparr>c_resources := c_resources c @ [f]\<rparr>, Some f, Inr ()) w'"
  shows "wp (open_flake render c ref opts) Q w"
  unfolding open_flake_def
proof (rule wp_middleware_none [OF assms(3)], unfold wp_rules,
    rule wp_mono [OF wp_conj [OF flake_new_adds [OF assms(1,2)] flake_new_evaluator [unfolded returns_def, rule_format]]],
    goal_cases)
  case (1 r w')
  then show ?case using assms(1,4,5) by (cases r) (auto dest: only_safe)
qed

lemma wp_get_flake_output_value:
  assumes "safe w0" "only ps w0 w" "c_ctx c \<noteq> None" "ptr_at KContext (ctx_id (ev_ctx (lf_evaluator f))) w \<noteq> None"
    "\<And>e w'. safe w' \<Longrightarrow> Q (c, None, Inl e) w'"
    "\<And>v w'. only ((KValue, val_id v) # ps) w0 w' \<Longrightarrow> ptr_at KContext (ctx_id (val_ctx v)) w' \<noteq> None \<Longrightarrow>
      Q (c, Some v, Inr ()) w'"
  shows "wp (get_flake_output_value None c f path) Q w"
proof -
  have safe: "safe w" using assms(1,2) by (simp add: only_safe)
  obtain rc where rc: "cells w (ctx_id (ev_ctx (lf_evaluator f))) = Some (KContext, rc)"
    using assms(4) by (auto simp: ptr_at_Some)
  show ?thesis
    unfolding get_flake_output_value_def
  proof (rule wp_middleware_none [OF assms(3)], rule wp_giving, unfold wp_rules,
      rule wp_mono [OF get_output_value_one [OF safe rc]], goal_cases)
    case (1 r w')
    then have "safe w'" using safe one_value_grows grows_safe by blast
    then show ?case
      using 1 assms(5,6) only_one_value [OF assms(2,1)] by (cases r) (auto simp: one_value_Inr)
  qed
qed

lemma wp_use_flake:
  assumes "safe w0" "only ((KLockedFlake, lf_id f) # parts c) w0 w" "complete c" "evaluates_in c"
    "lf_evaluator f = the (c_evaluator c)"
  shows "wp (use_flake tab parse goos goarch (c\<lparr>c_resources := c_resources c @ [f]\<rparr>) f) (clean_end w0) w"
proof -
  let ?c = "c\<lparr>c_resources := c_resources c @ [f]\<rparr>"
  have fatal: "clean_end w0 (Fatal e) w'" if "safe w'" for e w' using that by (simp add: clean_end_def)
  have safe: "safe w" using assms(1,2) by (simp add: only_safe)
  have "(KContext, ctx_id (ev_ctx (the (c_evaluator c)))) \<in> set ((KLockedFlake, lf_id f) # parts c)"
    using assms(4) by (simp add: parts_def evaluates_in_def)
  then have open_ctx: "ptr_at KContext (ctx_id (ev_ctx (lf_evaluator f))) w \<noteq> None"
    using only_open [OF assms(2)] assms(5) by simp
  have whole: "c_ctx ?c \<noteq> None" "complete ?c" using assms(3) by (simp_all add: complete_def)
  have "set ((KLockedFlake, lf_id f) # parts c) = set (parts ?c) \<union> {(KLockedFlake, lf_id f)}"
    by (auto simp: parts_def)
  then have package: "wp (realize_package tab ?c f (Some v)) (clean_end w0) w'"
    if "only ((KValue, val_id v) # (KLockedFlake, lf_id f) # parts c) w0 w'"
      "ptr_at KContext (ctx_id (val_ctx v)) w' \<noteq> None" for v w'
    using wp_realize_package [OF assms(1) that(1) _ whole(2) that(2)] by blast
  have "wp (do { res \<leftarrow> get_flake_output_value None ?c f path;
      or_fatal res (\<lambda>c package_value. realize_package tab c f package_value) }) (clean_end w0) w" for path
    by (rule wp_step, rule wp_get_flake_output_value [OF assms(1,2) whole(1) open_ctx])
      (simp_all add: fatal package)
  then show ?thesis
    unfolding use_flake_def by (simp add: wp_return fatal safe split: sum.split)
qed

lemma example_main_clean:
  assumes "safe w0" shows "wp (example_main tab render parse order porder goos goarch) (clean_end w0) w0"
proof -
  have fatal: "clean_end w0 (Fatal e) w" if "safe w" for e w using that by (simp add: clean_end_def)
  show ?thesis
    unfolding example_main_def
  proof (rule wp_step,
      rule wp_mono [OF wp_conj [OF new_client_outcome [OF assms] new_client_evaluates [unfolded returns_def, rule_format]]],
      goal_cases)
    case (1 r w1)
    show ?case
    proof (cases r)
      case (Inl e)
      with 1 have "safe w1" using assms by (auto simp: client_outcome_def dest: only_safe split: if_splits)
      then show ?thesis by (simp add: Inl wp_return fatal)
    next
      case (Inr c)
      with 1 have o: "only (parts c) w0 w1" and c: "complete c" "evaluates_in c" by (simp_all add: client_outcome_def)
      have safe: "safe w1" using o assms by (rule only_safe)
      have ctx: "c_ctx c \<noteq> None" using c(1) by (simp add: complete_def)
      show ?thesis
        unfolding Inr sum.case
      proof (rule wp_step, rule wp_keeps [OF keeps_client_eval [OF safe ctx]], goal_cases)
        case (1 x r w2)
        have o2: "only (parts c) w0 w2" by (rule only_settled [OF o 1 assms])
        show ?case
        proof (cases r)
          case (Inl e)
          then show ?thesis using settled_safe [OF 1] safe by (simp add: fatal)
        next
          case (Inr u)
          show ?thesis
            unfolding Inr wp_or_fatal_simps
            by (rule wp_step, rule wp_open_flake [OF assms o2 ctx])
              (simp_all add: fatal wp_use_flake [OF assms _ c])
        qed
      qed
    qed
  qed
qed

lemma live_empty: "live (empty_world lib) = {#}"
  by (simp add: empty_world_def)

text \<open>
  C3: the example program releases everything. Whatever the native library, the JSON syntax, the
  iteration order of Go maps and the platform are, it commits no fault, and when it reaches its end no
  native handle is live.
\<close>

theorem example_leaves_nothing:
  "case run_state (example_main tab render parse order porder goos goarch) (empty_world lib) of (e, w') \<Rightarrow>
     \<not> fault w' \<and> (case e of Finished outputs \<Rightarrow> live w' = {#} | Fatal er \<Rightarrow> True)"
proof -
  have "wp (example_main tab render parse order porder goos goarch) (clean_end (empty_world lib)) (empty_world lib)"
    by (rule example_main_clean) simp
  then show ?thesis
    by (auto simp: wp_def clean_end_def settled_def live_empty split: prod.splits main_end.splits)
qed

end
