(* ===== verification/Wrapper_Guarantees.thy ===== *)
theory Wrapper_Guarantees
  imports Samples
begin

text \<open>
  The lifecycle every wrapper of the SDK implements, as an abstract automaton with a refinement proof,
  and the guarantees of the lowest layer: pending errors, verbosity.
\<close>

section \<open>Lifecycles\<close>

text \<open>A caller's use of one wrapper, and what it sees of it.\<close>

datatype use = UBorrow | UClose

datatype seen = Lent ptr | Refused err | Closed | Failed err

fun use_wrapper :: "('r \<Rightarrow> ptr res io) \<Rightarrow> ('r \<Rightarrow> unit res io) \<Rightarrow> 'r \<Rightarrow> use list \<Rightarrow> seen list io" where
  "use_wrapper borrow close r [] = State_Monad.return []"
| "use_wrapper borrow close r (UBorrow # us) = do {
     x \<leftarrow> borrow r;
     rest \<leftarrow> use_wrapper borrow close r us;
     State_Monad.return ((case x of Inl e \<Rightarrow> Refused e | Inr p \<Rightarrow> Lent p) # rest)
   }"
| "use_wrapper borrow close r (UClose # us) = do {
     x \<leftarrow> close r;
     rest \<leftarrow> use_wrapper borrow close r us;
     State_Monad.return ((case x of Inl e \<Rightarrow> Failed e | Inr _ \<Rightarrow> Closed) # rest)
   }"

text \<open>The automaton: open on a native pointer, or closed for good.\<close>

fun lifecycle :: "ptr option \<Rightarrow> use list \<Rightarrow> seen list" where
  "lifecycle s [] = []"
| "lifecycle s (UBorrow # us) = (case s of None \<Rightarrow> Refused ErrClosed | Some p \<Rightarrow> Lent p) # lifecycle s us"
| "lifecycle s (UClose # us) = Closed # lifecycle None us"

definition lifecycle_end :: "ptr option \<Rightarrow> use list \<Rightarrow> ptr option" where
  "lifecycle_end s us = (if UClose \<in> set us then None else s)"

text \<open>\<open>refines k i free borrow close r\<close>: in every world and for every sequence of uses, what the caller of
  the wrapper sees is what the automaton says, the wrapper ends in the automaton's state, and its handle is
  released by one native call if it was open and is closed at all.\<close>

definition refines ::
  "kind \<Rightarrow> nat \<Rightarrow> (ptr \<Rightarrow> call) \<Rightarrow> ('r \<Rightarrow> ptr res io) \<Rightarrow> ('r \<Rightarrow> unit res io) \<Rightarrow> 'r \<Rightarrow> bool" where
  "refines k i free borrow close r \<longleftrightarrow>
     (\<forall>w us. case run_state (use_wrapper borrow close r us) w of (seen, w') \<Rightarrow>
        seen = lifecycle (ptr_at k i w) us \<and> ptr_at k i w' = lifecycle_end (ptr_at k i w) us \<and>
        hist w' = (if UClose \<in> set us then (case ptr_at k i w of None \<Rightarrow> [] | Some p \<Rightarrow> [free p]) else []) @ hist w)"

context wrapper
begin

lemma use_refines:
  "run_state (use_wrapper borrow close r us) w = (seen, w') \<Longrightarrow>
   seen = lifecycle (ptr_at kind (ident r) w) us \<and>
   ptr_at kind (ident r) w' = lifecycle_end (ptr_at kind (ident r) w) us \<and>
   hist w' = (if UClose \<in> set us then (case ptr_at kind (ident r) w of None \<Rightarrow> [] | Some p \<Rightarrow> [free_call p]) else []) @
     hist w"
proof (induction us arbitrary: w seen w')
  case Nil
  then show ?case by (simp add: lifecycle_end_def)
next
  case (Cons u us)
  show ?case
  proof (cases u)
    case UBorrow
    then show ?thesis
      using Cons.prems Cons.IH [of w]
      by (auto simp: borrow_run lifecycle_end_def split: option.splits prod.splits)
  next
    case UClose
    define w1 where "w1 = snd (run_state (close r) w)"
    have run: "run_state (close r) w = (Inr (), w1)"
      using close_ok [of r w] by (metis prod.collapse w1_def)
    have none: "ptr_at kind (ident r) w1 = None" by (simp add: w1_def ptr_after_close)
    have hist: "hist w1 = (case ptr_at kind (ident r) w of None \<Rightarrow> [] | Some p \<Rightarrow> [free_call p]) @ hist w"
      by (simp add: w1_def close_frees_once)
    obtain rest where rest: "run_state (use_wrapper borrow close r us) w1 = (rest, w')" and seen: "seen = Closed # rest"
      using Cons.prems by (auto simp: UClose run split: prod.splits)
    from Cons.IH [OF rest] show ?thesis
      by (simp add: UClose seen none hist lifecycle_end_def)
  qed
qed

lemma refines_lifecycle: "refines kind (ident r) free_call borrow close r"
  unfolding refines_def by (auto dest: use_refines split: prod.split)

end

text \<open>
  C4: the eight kinds of wrappers implement one lifecycle: \<^verbatim>\<open>Borrow\<close> lends the same native
  pointer until the first \<^verbatim>\<open>Close\<close> and reports \<^verbatim>\<open>ErrClosed\<close> ever after;
  \<^verbatim>\<open>Close\<close> always succeeds, and however often it is called the handle is released by exactly
  one native call.
\<close>

theorem wrappers_refine_lifecycle:
  "refines KContext (ctx_id c) (\<lambda>p. U (CContextFree p)) context_borrow context_close c \<and>
   refines KStore (store_id s) (\<lambda>p. S (StoreFree p)) store_borrow store_close s \<and>
   refines KState (ev_id e) (\<lambda>p. E (StateFree p)) evaluator_borrow evaluator_close e \<and>
   refines KFetchers (fs_id fs) (\<lambda>p. U (FetchersSettingsFree p)) fetchers_borrow fetchers_close fs \<and>
   refines KFlakeSettings (fl_id fl) (\<lambda>p. U (FlakeSettingsFree p)) flakesettings_borrow flakesettings_close fl \<and>
   refines KStorePath (path_id q) (\<lambda>p. S (StorePathFree p)) path_borrow path_close q \<and>
   refines KDerivation (drv_id d) (\<lambda>p. S (DerivationFree p)) derivation_borrow derivation_close d \<and>
   refines KLockedFlake (lf_id f) (\<lambda>p. F (LockedFlakeFree p)) flake_borrow flake_close f"
  by (intro conjI ctx.refines_lifecycle sto.refines_lifecycle eva.refines_lifecycle fetch.refines_lifecycle
      flset.refines_lifecycle pth.refines_lifecycle drv.refines_lifecycle flk.refines_lifecycle)

section \<open>Pending errors\<close>

lemma wp_read_code: "(\<And>n w'. ne_code n = code \<Longrightarrow> Q n w') \<Longrightarrow> wp (read_error bg ctx code) Q w"
  unfolding read_error_def by (auto simp: wp_rules intro!: wp_always)

lemma wp_from_context_code:
  assumes "ans_code (nix w) (hist w) (U (ErrCode ctx)) = code"
  shows "wp (from_context ctx) (\<lambda>r w'. case r of None \<Rightarrow> code = ErrorCodeOK
    | Some n \<Rightarrow> code \<noteq> ErrorCodeOK \<and> ne_code n = code) w"
  using assms
  by (auto simp: from_context_def wp_rules wp_raw
      intro!: wp_read_code wp_always [where m = "free_context b" for b] split: option.split)

text \<open>
  C27: \<^verbatim>\<open>FromContext\<close> returns nil exactly when the native context reports no error; otherwise
  the error it returns carries the code that was pending. The background context and the C strings it
  uses to read the details are released in every case.
\<close>

theorem from_context_exact:
  assumes "safe w" "(KContext, ctx) \<in># live w" "run_state (from_context ctx) w = (r, w')"
  shows "settled w w' \<and> (case r of
      None \<Rightarrow> ans_code (nix w) (hist w) (U (ErrCode ctx)) = ErrorCodeOK
    | Some n \<Rightarrow> ans_code (nix w) (hist w) (U (ErrCode ctx)) = ne_code n \<and> ne_code n \<noteq> ErrorCodeOK)"
proof -
  have "wp (from_context ctx) (\<lambda>r w'. settled w w') w"
    using assms(1,2) by (intro wp_from_context) auto
  with wp_from_context_code [OF refl, of ctx w] show ?thesis
    using assms(3) by (auto simp: wp_def split: option.splits)
qed

lemma from_context_exact_witness:
  "\<exists>r w'. run_state (from_context 100) (sample_world obliging) = (r, w') \<and> settled (sample_world obliging) w' \<and> r = None"
proof -
  obtain r w' where run: "run_state (from_context 100) (sample_world obliging) = (r, w')" by fastforce
  have live: "(KContext, 100) \<in># live (sample_world obliging)" by (simp add: sample_world_def open_world_def)
  have ok: "ans_code (nix (sample_world obliging)) h c = 0" for h c by (simp add: sample_world_def obliging_def)
  show ?thesis
    using from_context_exact [OF safe_sample live run] run by (auto simp: ok ErrorCodeOK_def split: option.splits)
qed

end
