(* ===== verification/Store_Guarantees.thy ===== *)
theory Store_Guarantees
  imports Wrapper_Guarantees Store_Settled
begin

text \<open>
  What the store component guarantees its callers: which handles an operation leaves, how closed
  wrappers behave, what the garbage collector is asked, and how results are classified.
\<close>

definition sample_path :: path_ref where
  "sample_path = \<lparr>path_id = 5, path_name = ''hello'', path_hash = replicate 20 1, path_ctx = sample_context\<rparr>"

section \<open>Lifecycles\<close>

text \<open>
  A clone of a store path is independent of its original: it is another wrapper, and it stays open
  when the original is closed, as the original does when the clone is.
\<close>

theorem path_clone_independent:
  assumes "safe w" "run_state (path_clone p) w = (Inr q, w')"
  shows "path_id q \<noteq> path_id p \<and> ptr_at KStorePath (path_id q) (snd (run_state (path_close p) w')) \<noteq> None \<and>
    ptr_at KStorePath (path_id p) (snd (run_state (path_close q) w')) = ptr_at KStorePath (path_id p) w"
  using pthc.clone_independent [OF assms] by blast

lemma path_clone_sample: "wp (path_clone sample_path) (\<lambda>r w'. \<exists>q. r = Inr q) (busy_world obliging)"
  by (simp add: path_clone_def sample_path_def busy_world_def obliging_def wp_rules wp_raw context_borrow_def
      check_ptr_def path_adopt_def path_new_def check_str_def take_cstring_def check_code_bytes_def
      ErrorCodeOK_def ptr_at_def open_world_def raw_free_def)

lemma path_clone_independent_witness:
  "\<exists>q w'. run_state (path_clone sample_path) (busy_world obliging) = (Inr q, w') \<and> path_id q \<noteq> 5 \<and>
     ptr_at KStorePath (path_id q) (snd (run_state (path_close sample_path) w')) \<noteq> None \<and>
     ptr_at KStorePath 5 (snd (run_state (path_close q) w')) = Some 105"
proof -
  obtain r w' where run: "run_state (path_clone sample_path) (busy_world obliging) = (r, w')" by fastforce
  then obtain q where "r = Inr q" using wp_run [OF run path_clone_sample] by auto
  with run path_clone_independent [OF safe_busy, of sample_path obliging q w'] show ?thesis
    by (simp add: sample_path_def busy_world_def)
qed

section \<open>Ledger\<close>

text \<open>
  C25: the operations of a store that return plain data or nothing leave the live handles as they were,
  whatever the native library answers: the paths parsed for a root or for the garbage collector, the
  native arrays of roots and of collected paths, and the C strings are all released.
\<close>

theorem store_operations_settle:
  "settles (real_path s p) \<and> settles (is_valid_path s p) \<and>
   settles (add_temp_root s path) \<and> settles (add_permanent_root s path root) \<and> settles (find_roots s censor) \<and>
   settles (collect_garbage s action opts) \<and>
   settles (copy_closure s dst p) \<and> settles (copy_path_to s dst p copts)"
proof (intro conjI)
  show "settles (real_path s p)" "settles (is_valid_path s p)"
    unfolding settles_def real_path_def is_valid_path_def
    by (auto simp: wp_rules intro!: wp_intros split: option.split sum.split)
  show "settles (copy_closure s dst p)" "settles (copy_path_to s dst p copts)"
    unfolding settles_def copy_closure_def copy_path_to_def Let_def
    by (auto simp: wp_rules intro!: wp_intros split: option.split sum.split)
qed (auto simp: settles_def add_temp_root_settles add_permanent_root_settles find_roots_settles
    collect_garbage_settles)



text \<open>A library that cannot tell the hash of a store path.\<close>

definition is_path_hash :: "call \<Rightarrow> bool" where
  "is_path_hash c = (case c of S (StorePathHash x p) \<Rightarrow> True | _ \<Rightarrow> False)"

text \<open>
  The leak is real: \<^verbatim>\<open>storepath.New\<close> leaves the handle with its caller when it fails, and
  \<^verbatim>\<open>convertClosurePaths\<close> and \<^verbatim>\<open>convertRealiseResults\<close> drop it.
\<close>

theorem conversion_leaks:
  "case run_state (store_closure sample_store sample_path []) (busy_world (failing is_path_hash obliging)) of
     (r, w') \<Rightarrow> isl r \<and> (\<exists>p. live w' = add_mset (KStorePath, p) (live (busy_world obliging))) \<and>
       next_ref w' = next_ref (busy_world obliging)"
proof -
  have "wp (store_closure sample_store sample_path []) (\<lambda>r w'. isl r \<and>
      (\<exists>p. live w' = add_mset (KStorePath, p) (live (busy_world obliging))) \<and>
       next_ref w' = next_ref (busy_world obliging)) (busy_world (failing is_path_hash obliging))"
    by (simp add: store_closure_def Let_def sample_path_def busy_world_def obliging_def failing_def wp_rules wp_raw
        with_store_def context_borrow_def path_borrow_def check_ptr_def is_path_hash_def convert_closure_paths_def
        path_new_def check_str_def take_cstring_def check_code_bytes_def closure_close_def apply_options_def
        ErrorCodeOK_def ptr_at_def open_world_def raw_free_def fail_status_def from_context_def read_error_def
        take_raw_def free_context_def ErrorCodeNix_def zero_closure_config_def)
  then show ?thesis by (simp add: wp_def)
qed

section \<open>Results\<close>

text \<open>
  Every method of a closed store reports \<^verbatim>\<open>ErrClosed\<close> and makes no native call.
\<close>

theorem closed_store_refuses:
  assumes "ptr_at KStore (store_id s) w = None"
  shows "run_state (parse_path s str) w = (Inl ErrClosed, w) \<and> run_state (path_from_hash s str) w = (Inl ErrClosed, w) \<and>
    run_state (real_path s p) w = (Inl ErrClosed, w) \<and> run_state (is_valid_path s p) w = (Inl ErrClosed, w) \<and>
    run_state (store_closure s p opts) w = (Inl ErrClosed, w) \<and> run_state (store_realise s p) w = (Inl ErrClosed, w) \<and>
    run_state (store_realise_output s p name) w = (Inl ErrClosed, w) \<and>
    run_state (copy_closure s dst p) w = (Inl ErrClosed, w) \<and> run_state (copy_path_to s dst p copts) w = (Inl ErrClosed, w) \<and>
    run_state (add_temp_root s str) w = (Inl ErrClosed, w) \<and>
    run_state (add_permanent_root s str root) w = (Inl ErrClosed, w) \<and>
    run_state (find_roots s censor) w = (Inl ErrClosed, w) \<and>
    run_state (collect_garbage s action gopts) w = (Inl ErrClosed, w) \<and>
    run_state (derivation_from_json s str) w = (Inl ErrClosed, w) \<and>
    run_state (derivation_from_path s p) w = (Inl ErrClosed, w)"
  using assms
  by (simp add: parse_path_def path_from_hash_def real_path_def is_valid_path_def store_closure_def Let_def
      store_realise_def store_realise_output_def copy_closure_def copy_path_to_def add_temp_root_def
      add_permanent_root_def find_roots_def collect_garbage_def derivation_from_json_def derivation_from_path_def
      with_store_def store_open_def get_ptr_def fail_def)

lemma closed_store_refuses_witness:
  "run_state (parse_path sample_store ''/nix/store/x'') (empty_world obliging) = (Inl ErrClosed, empty_world obliging)"
  using closed_store_refuses [of sample_store "empty_world obliging" "''/nix/store/x''" sample_path "[]" "''out''"
      sample_store "[]" "''r''" False 0 "[]"]
  by (simp add: empty_world_def ptr_at_def)

text \<open>
  C31: a hash part that the native library answers with no path is told apart from a failed query by the
  pending error alone: without one the result is \<^verbatim>\<open>ErrPathNotFound\<close> (as
  \<^verbatim>\<open>errors.Is\<close> sees it), with one it is the Nix error with its code.
\<close>

theorem path_from_hash_absent:
  assumes "ptr_at KStore (store_id s) w = Some sp" "ptr_at KContext (ctx_id (store_ctx s)) w = Some rc"
    "ans_ptr (nix w) (hist w) (S (StoreQueryPathFromHashPart rc sp part)) = None"
    "ans_code (nix w) (S (StoreQueryPathFromHashPart rc sp part) # hist w) (U (ErrCode rc)) = code"
  shows "case fst (run_state (path_from_hash s part) w) of Inr q \<Rightarrow> False
    | Inl e \<Rightarrow> errors_is ErrPathNotFound e = (code = ErrorCodeOK) \<and>
        (code \<noteq> ErrorCodeOK \<longrightarrow> (\<exists>n. ne_code n = code \<and> errors_is (NixErr n) e))"
proof -
  have "wp (path_from_hash s part) (\<lambda>r w'. case r of Inr q \<Rightarrow> False
      | Inl e \<Rightarrow> errors_is ErrPathNotFound e = (code = ErrorCodeOK) \<and>
          (code \<noteq> ErrorCodeOK \<longrightarrow> (\<exists>n. ne_code n = code \<and> errors_is (NixErr n) e))) w"
    using assms
    by (auto simp: path_from_hash_def with_store_def context_borrow_def wp_rules wp_raw from_context_def
        wrapf_def intro!: wp_read_code wp_always [where m = "free_context b" for b] split: option.split)
  then show ?thesis by (auto simp: wp_def split: prod.splits)
qed

lemma path_from_hash_absent_witness:
  "case fst (run_state (path_from_hash sample_store ''abc'') (busy_world (obliging\<lparr>ans_ptr := \<lambda>h c. None\<rparr>))) of
     Inr q \<Rightarrow> False | Inl e \<Rightarrow> errors_is ErrPathNotFound e"
  using path_from_hash_absent [of sample_store "busy_world (obliging\<lparr>ans_ptr := \<lambda>h c. None\<rparr>)" 101 100 "''abc''" 0]
  by (auto simp: busy_world_def obliging_def ErrorCodeOK_def split: sum.splits)

text \<open>
  \<^verbatim>\<open>PrintPath\<close> is injective: two store paths print alike only if they have the same hash
  and the same name.
\<close>

theorem print_path_inject:
  assumes "length h = 20" "length h' = 20" "print_path s h n = print_path s h' n'"
  shows "h = h' \<and> n = n'"
  using assms(3) encode_nix32_inject [OF assms(1,2)]
  by (simp add: print_path_def length_encode_nix32)

lemma print_path_inject_witness:
  "print_path sample_store (replicate 20 0) ''a'' \<noteq> print_path sample_store (replicate 20 1) ''a''"
  using print_path_inject [of "replicate 20 0" "replicate 20 1" sample_store "''a''" "''a''"]
  by auto

end
