(* ===== verification/Flake_Guarantees.thy ===== *)
theory Flake_Guarantees
  imports Samples Allocations
begin

text \<open>
  What locking a flake guarantees: the handles it leaves, and that it needs a fingerprint.
\<close>

section \<open>Ledger\<close>

text \<open>
  C19: \<^verbatim>\<open>flake.New\<close> opens one locked flake and nothing else, or nothing: the parse flags, the parse
  results and references of the flake and of every input override, the lock flags and the C strings are
  released on every path, as is the locked flake itself when its metadata cannot be read.
\<close>

theorem flake_new_handles:
  assumes "safe w" "run_state (flake_new render ctx s fs fls e ref opts) w = (r, w')"
  shows "case r of Inl er \<Rightarrow> settled w w' | Inr f \<Rightarrow> only [(KLockedFlake, lf_id f)] w w'"
  using wp_run [OF assms(2) flake_new_adds [OF assms(1) only_nil [OF assms(1)]]] assms(1)
  by (cases r) (simp_all add: only_nil_settled)

definition sample_flake_options :: "flake_option list" where
  "sample_flake_options = [WithLockMode LockModeCheck, WithInputOverride ''nixpkgs'' ''github:NixOS/nixpkgs'']"

definition lock_sample :: "flake_ref res io" where
  "lock_sample = flake_new (\<lambda>j. ''{}'') sample_context sample_store (the (c_fetchers sample_client))
     (the (c_flakesettings sample_client)) sample_evaluator ''.'' sample_flake_options"

lemma flake_new_handles_witness:
  "\<exists>r w'. run_state lock_sample (sample_world obliging) = (r, w') \<and>
     (case r of Inl er \<Rightarrow> settled (sample_world obliging) w' | Inr f \<Rightarrow> only [(KLockedFlake, lf_id f)] (sample_world obliging) w')"
proof -
  obtain r w' where run: "run_state lock_sample (sample_world obliging) = (r, w')" by (cases "run_state lock_sample (sample_world obliging)")
  from flake_new_handles [OF safe_sample run [unfolded lock_sample_def]] run show ?thesis by blast
qed

section \<open>Fingerprints\<close>

text \<open>An operation whose error does not depend on what follows it.\<close>

abbreviation fails :: "'a res io \<Rightarrow> world \<Rightarrow> bool" where
  "fails m w \<equiv> wp m (\<lambda>r w'. isl r) w"

lemma fails_scoped:
  assumes "ready w ((KContext, rc) # uses c)" "frees c = None"
    "\<And>p h. fails (k p) (with_hist h (gain (kind_of c, p) w))"
  shows "fails (scoped (check_ptr rc c fmt args) free k) w"
  unfolding scoped_def wp_chk
  using assms by (intro wp_check_ptr [OF assms(1,2)]) (auto simp: wp_rules wp_const)

lemma fails_scoped_ref:
  assumes "ready w [(KRefResult, result)]"
    "\<And>h. fails (k None) (with_hist h w)" "\<And>p h. fails (k (Some p)) (with_hist h (gain (KRef, p) w))"
  shows "fails (scoped_ref result k) w"
  unfolding scoped_ref_def using assms by (auto simp: wp_rules wp_const intro!: wp_raw_ptr_ready)

text \<open>A library that knows no fingerprint of any locked flake.\<close>

definition no_fingerprint :: "native \<Rightarrow> bool" where
  "no_fingerprint lib \<longleftrightarrow> (\<forall>h c s g l. ans_str lib h (F (LockedFlakeGetFingerprint c s g l)) = None)"

lemma fails_metadata: "no_fingerprint (nix w) \<Longrightarrow> fails (flake_metadata rc s gp l) w"
  by (auto simp: flake_metadata_def assigned_error_def wp_rules wp_raw wp_const take_cstring_def raw_free_def
      store_borrow_def no_fingerprint_def split: option.split)

lemma fails_lock:
  assumes "no_fingerprint (nix w)" "ready w ([(KContext, rc), (KFetchers, gp), (KFlakeSettings, fp), (KState, st),
      (KLockFlags, ls)] @ ref_opt r)"
  shows "fails (flake_lock rc gp fp st ls r s build) w"
  unfolding flake_lock_def wp_rules
  using assms by (intro wp_check_ptr) (auto simp: wp_rules wp_const intro!: wp_mono [OF fails_metadata] split: sum.split)

lemma fails_overrides:
  assumes "safe w" "ready w [(KContext, rc), (KFetchers, gp), (KFlakeSettings, fp), (KParseFlags, ps), (KLockFlags, ls)]"
    "\<And>w'. wider w w' \<Longrightarrow> safe w' \<Longrightarrow> fails k w'"
  shows "fails (with_overrides rc gp fp ps ls os k) w"
  using assms
proof (induction os arbitrary: w)
  case Nil
  then show ?case by simp
next
  case (Cons o1 os)
  have rest: "fails (with_overrides rc gp fp ps ls os k) w'" if "wider w w'" "safe w'" for w'
    using that Cons.prems by (intro Cons.IH) (auto simp: ready_def intro: wider_trans wider_live)
  have add: "fails (chk (check_code rc (F (FlakeLockFlagsAddInputOverride rc ls path r)) fmt args) (\<lambda>e. e)
      (\<lambda>_. with_overrides rc gp fp ps ls os k)) w'"
    if "wider w w'" "safe w'" "ready w' (ref_opt r)" for w' r path fmt args
    using that wider_ready [OF that(1,2) Cons.prems(2)] rest [of "with_hist _ w'"]
    by (auto simp: wp_rules ready_def intro!: wp_check_code)
  show ?case
    unfolding with_overrides.simps using Cons.prems(1,2)
    by (intro fails_scoped) (auto simp: ready_def intro!: fails_scoped_ref add)
qed

lemma fails_locking:
  assumes "safe w" "no_fingerprint (nix w)" "ready w ([(KContext, rc), (KFetchers, gp), (KFlakeSettings, fp), (KState, st),
      (KParseFlags, ps)] @ ref_opt r)"
  shows "fails (scoped (check_ptr rc (F (FlakeLockFlagsNew rc fp)) fmt args)
      (\<lambda>p. F (FlakeLockFlagsFree p)) (\<lambda>ls.
      chk (apply_lock_mode rc ls mode) wrap (\<lambda>_.
      chk (set_reference_lock render rc ls info) (\<lambda>e. e) (\<lambda>_.
      with_overrides rc gp fp ps ls os (flake_lock rc gp fp st ls r s build))))) w"
proof (rule fails_scoped)
  fix p h
  let ?w = "with_hist h (gain (kind_of (F (FlakeLockFlagsNew rc fp)), p) w)"
  have ready: "ready ?w (([(KContext, rc), (KFetchers, gp), (KFlakeSettings, fp), (KState, st),
      (KLockFlags, p)] @ ref_opt r) @ [(KParseFlags, ps)])"
    using assms(1,3) by (auto simp: ready_def)
  have lock: "fails (flake_lock rc gp fp st p r s build) w'" if "wider ?w w'" "safe w'" for w'
    using wider_ready [OF that ready] that assms(2)
    by (intro fails_lock) (auto simp: ready_def wider_def ext_def)
  have "fails (with_overrides rc gp fp ps p os (flake_lock rc gp fp st p r s build)) (with_hist h' ?w)" for h'
    using ready assms(1) by (intro fails_overrides lock) (auto simp: ready_def)
  then show "fails (chk (apply_lock_mode rc p mode) wrap (\<lambda>_.
      chk (set_reference_lock render rc p info) (\<lambda>e. e) (\<lambda>_.
      with_overrides rc gp fp ps p os (flake_lock rc gp fp st p r s build)))) ?w"
    using ready assms(1)
    by (auto simp: wp_rules ready_def intro!: set_reference_lock_same split: sum.split)
qed (use assms in \<open>auto simp: ready_def\<close>)

text \<open>
  C38: a flake without a fingerprint cannot be opened. The code means to leave the fingerprint empty when
  the native library returns none and no error is pending, but it keeps the pending error in a variable
  of the interface type, which is not nil even when the error is: \<^verbatim>\<open>flake.New\<close> always fails.
\<close>

theorem flake_needs_fingerprint:
  assumes "safe w" "no_fingerprint (nix w)"
  shows "isl (fst (run_state (flake_new render ctx s fs fls e ref opts) w))"
proof -
  have "fails (flake_new render ctx s fs fls e ref opts) w"
    unfolding flake_new_def Let_def using assms
    by (auto simp: wp_rules ready_def
        intro!: ctx.wp_borrow eva.wp_borrow fetch.wp_borrow flset.wp_borrow fails_scoped fails_scoped_ref
          set_base_directory_same wp_take_raw fails_locking split: sum.split)
  then show ?thesis by (simp add: wp_def split: prod.splits)
qed

definition anonymous :: native where
  "anonymous = obliging\<lparr>ans_str := (\<lambda>h c. case c of F (LockedFlakeGetFingerprint a b d e) \<Rightarrow> None
     | _ \<Rightarrow> Some (length h, ''text''))\<rparr>"

lemma flake_needs_fingerprint_witness:
  "isl (fst (run_state lock_sample (sample_world anonymous)))"
proof -
  have "no_fingerprint (nix (sample_world anonymous))"
    by (simp add: no_fingerprint_def anonymous_def sample_world_def)
  then show ?thesis unfolding lock_sample_def by (rule flake_needs_fingerprint [OF safe_sample])
qed

end
