(* ===== verification/Value_Guarantees.thy ===== *)
theory Value_Guarantees
  imports Samples Value_Ownership Unmarshal_Types
begin

text \<open>
  What the evaluator component guarantees its callers: reading values, decoding them into Go variables,
  converting Go values, and the handles all of this leaves.
\<close>

section \<open>Reading values\<close>

context getter
begin

lemma get_mismatch:
  assumes "ptr_at KValue (val_id v) w = Some p" "ptr_at KState (ev_id (val_owner v)) w \<noteq> None"
    "ptr_at KContext (ctx_id (val_ctx v)) w = Some rc"
    "ans_code (nix w) (hist w) (V (GetType rc p)) = actual" "actual \<noteq> expected"
    "ans_code (nix w) (V (GetType rc p) # hist w) (U (ErrCode rc)) = ErrorCodeOK"
  shows "fst (run_state (get v) w) = Inl (ValueTypeErr actual expected)"
proof -
  have "wp (get v) (\<lambda>r w'. r = Inl (ValueTypeErr actual expected)) w"
    using assms
    by (auto simp: get_eq with_value_def value_validate_def context_borrow_def require_type_def check_pending_def
        from_context_def wp_rules wp_raw)
  then show ?thesis by (auto simp: wp_def split: prod.splits)
qed

end

text \<open>
  C28: no getter reads a value as something it is not: when the native type differs from the getter's,
  the getter returns a \<^verbatim>\<open>ValueTypeError\<close> that names both types.
\<close>

theorem getters_check_type:
  assumes "ptr_at KValue (val_id v) w = Some p" "ptr_at KState (ev_id (val_owner v)) w \<noteq> None"
    "ptr_at KContext (ctx_id (val_ctx v)) w = Some rc"
    "ans_code (nix w) (hist w) (V (GetType rc p)) = actual"
    "ans_code (nix w) (V (GetType rc p) # hist w) (U (ErrCode rc)) = ErrorCodeOK"
  shows "(actual \<noteq> ValueTypeBool \<longrightarrow> fst (run_state (get_bool v) w) = Inl (ValueTypeErr actual ValueTypeBool)) \<and>
    (actual \<noteq> ValueTypeInt \<longrightarrow> fst (run_state (get_int v) w) = Inl (ValueTypeErr actual ValueTypeInt)) \<and>
    (actual \<noteq> ValueTypeFloat \<longrightarrow> fst (run_state (get_float v) w) = Inl (ValueTypeErr actual ValueTypeFloat)) \<and>
    (actual \<noteq> ValueTypeString \<longrightarrow> fst (run_state (get_string v) w) = Inl (ValueTypeErr actual ValueTypeString)) \<and>
    (actual \<noteq> ValueTypePath \<longrightarrow> fst (run_state (get_path_string v) w) = Inl (ValueTypeErr actual ValueTypePath)) \<and>
    (actual \<noteq> ValueTypeList \<longrightarrow> fst (run_state (list_len v) w) = Inl (ValueTypeErr actual ValueTypeList)) \<and>
    (actual \<noteq> ValueTypeAttrs \<longrightarrow> fst (run_state (attr_len v) w) = Inl (ValueTypeErr actual ValueTypeAttrs))"
  using assms
  by (intro conjI impI bool.get_mismatch int.get_mismatch float.get_mismatch str.get_mismatch pstr.get_mismatch
      llen.get_mismatch alen.get_mismatch) auto

lemma getters_check_type_witness:
  "fst (run_state (get_int sample_value) (busy_world obliging)) = Inl (ValueTypeErr ValueTypeThunk ValueTypeInt)"
  using getters_check_type [of sample_value "busy_world obliging" 106 100 ValueTypeThunk]
  by (simp add: busy_world_def obliging_def ValueTypeThunk_def ValueTypeInt_def ErrorCodeOK_def)

section \<open>Decoding\<close>

text \<open>
  C12: \<^verbatim>\<open>Unmarshal\<close> keeps the Go variable well typed, whatever the native library answers and
  wherever it stops: an error leaves it partly written, never with a value of another type, an array of
  another length, a duplicate map key or a number out of range.
\<close>

theorem unmarshal_keeps_type:
  assumes "has_gtype ty x" "run_state (unmarshal tab e v (OutPtr ty x)) w = ((out, r), w')"
  shows "\<exists>x'. out = OutPtr ty x' \<and> has_gtype ty x'"
proof -
  let ?P = "\<lambda>r. \<exists>x'. fst r = OutPtr ty x' \<and> has_gtype ty x'"
  have "yields (do { r \<leftarrow> unmarshal_value tab e ty u x ''$''; State_Monad.return (OutPtr ty (fst r), snd r) }) ?P" for u
    by (rule yields_bind [OF unmarshal_value_typed(1) [OF assms(1), unfolded keeps_type_def]])
      (auto intro: yields_return)
  then have "yields (unmarshal tab e v (OutPtr ty x)) ?P"
    unfolding unmarshal_def using assms(1)
    by (intro yields_bind [OF yields_any]) (auto intro!: yields_return yields_attempt split: option.split)
  then have "wp (unmarshal tab e v (OutPtr ty x)) (\<lambda>r w'. \<exists>x'. fst r = OutPtr ty x' \<and> has_gtype ty x') w"
    by (simp add: yields_def)
  from wp_run [OF assms(2) this] show ?thesis by simp
qed

lemma unmarshal_keeps_type_witness:
  "\<exists>x'. fst (fst (run_state (unmarshal ascii_tables sample_evaluator (Some sample_value)
       (OutPtr (GSlice (GInt 8)) (VSlice None))) (busy_world obliging))) = OutPtr (GSlice (GInt 8)) x' \<and>
     has_gtype (GSlice (GInt 8)) x'"
  using unmarshal_keeps_type [of "GSlice (GInt 8)" "VSlice None" ascii_tables sample_evaluator "Some sample_value"
      "busy_world obliging"]
  by (metis has_gtype.simps(6) prod.collapse)

text \<open>
  C13: \<^verbatim>\<open>Unmarshal\<close> closes every value it opens on the way, on success, on every error and for
  every target type: the ledger is as before.
\<close>

theorem unmarshal_leaves_nothing: "settles (unmarshal tab e v out)"
  unfolding settles_def by (auto intro: unmarshal_settles)

lemma bit_sint_min: "bit (sint x) m = bit x (min m 63)" for x :: "64 word"
proof -
  have "bit x m \<Longrightarrow> m < 64" using bit_imp_le_length [of x m] by simp
  then show ?thesis by (cases "m < 64") (auto simp: bit_sint_iff min_def)
qed

lemma sint_signed_take_bit: "sint (signed_take_bit k x) = signed_take_bit k (sint x)" if "k < 64" for x :: "64 word"
proof (rule bit_eqI)
  fix m
  have "bit (sint (signed_take_bit k x)) m = bit x (min (min m 63) k)"
    by (simp add: bit_sint_min bit_signed_take_bit_iff min.commute min.strict_coboundedI2)
  also have "min (min m 63) k = min (min m k) 63" by (simp add: min_def)
  also have "bit x (min (min m k) 63) = bit (signed_take_bit k (sint x)) m"
    by (simp add: bit_sint_min bit_signed_take_bit_iff min.commute)
  finally show "bit (sint (signed_take_bit k x)) m = bit (signed_take_bit k (sint x)) m" .
qed

lemma overflow_int_range:
  assumes "0 < n" "n \<le> 64"
  shows "overflow_int n x \<longleftrightarrow> \<not> (- (2 ^ (n - 1)) \<le> sint x \<and> sint x < 2 ^ (n - 1))"
proof -
  have "n - 1 < 64" using assms by simp
  moreover have "signed_take_bit (n - 1) x = x \<longleftrightarrow> sint (signed_take_bit (n - 1) x) = sint x"
    by (auto intro: signed_word_eqI)
  ultimately have "overflow_int n x \<longleftrightarrow> signed_take_bit (n - 1) (sint x) \<noteq> sint x"
    by (simp only: overflow_int_def sint_signed_take_bit)
  moreover have "signed_take_bit (n - 1) (sint x) = sint x \<longleftrightarrow> - (2 ^ (n - 1)) \<le> sint x \<and> sint x < 2 ^ (n - 1)"
    by (metis signed_take_bit_int_eq_self signed_take_bit_int_greater_eq_minus_exp signed_take_bit_int_less_exp)
  ultimately show ?thesis by blast
qed

lemma overflow_uint_range: "overflow_uint n x \<longleftrightarrow> \<not> uint x < 2 ^ n"
  unfolding overflow_uint_def
  by (metis take_bit_int_eq_self_iff uint_ge_0 unsigned_take_bit_eq unsigned_word_eqI)

lemma uint_nonneg: "0 \<le> sint x \<Longrightarrow> uint x = sint x" for x :: "64 word"
proof (rule bit_eqI)
  fix m assume "0 \<le> sint x"
  then have "\<not> bit x 63" by (simp add: sint_uint signed_take_bit_nonnegative_iff bit_uint_iff)
  moreover have "bit x m \<Longrightarrow> m < 64" using bit_imp_le_length [of x m] by simp
  ultimately show "bit (uint x) m = bit (sint x) m"
    by (cases "m < 64") (auto simp: bit_sint_min bit_uint_iff min_def)
qed

text \<open>
  C14: an integer is never truncated: with \<open>n\<close> bits in the variable, the Nix integer is stored as it
  is when it lies in the variable's range, and otherwise the variable is left alone and the error names
  the integer; in particular a negative one is never stored in an unsigned variable.
\<close>

theorem integers_exact:
  assumes "0 < n" "n \<le> 64" "run_state (get_int v) w = (Inr got, w')"
  shows "run_state (unmarshal_int n v ValueTypeInt target ty path) w =
      (if - (2 ^ (n - 1)) \<le> sint got \<and> sint got < 2 ^ (n - 1) then (VInt got, Inr ())
       else (target, Inl (UnmarshalTypeErr (''integer '' @ itoa (sint got)) ty path)), w') \<and>
    run_state (unmarshal_uint n v ValueTypeInt target ty path) w =
      (if 0 \<le> sint got \<and> sint got < 2 ^ n then (VUint got, Inr ())
       else (target, Inl (UnmarshalTypeErr (''integer '' @ itoa (sint got)) ty path)), w')"
  using assms(3) uint_nonneg [of got]
  by (auto simp: unmarshal_int_def unmarshal_uint_def attempt_def integer_error_def refuse_def store_def
      overflow_int_range [OF assms(1,2)] overflow_uint_range word_sless_alt)

text \<open>A library in which every value is the integer 300.\<close>

definition three_hundred :: native where
  "three_hundred = obliging\<lparr>
     ans_code := (\<lambda>h c. case c of V (GetType x p) \<Rightarrow> ValueTypeInt | _ \<Rightarrow> 0), ans_64 := (\<lambda>h c. 300)\<rparr>"

lemma get_three_hundred: "wp (get_int sample_value) (\<lambda>r w'. r = Inr 300) (busy_world three_hundred)"
  by (simp add: get_int_def with_value_def value_validate_def context_borrow_def require_type_def check_pending_def
      from_context_def wp_rules wp_raw busy_world_def three_hundred_def obliging_def open_world_def ptr_at_def
      sample_value_def sample_context_def sample_evaluator_def sample_client_def ErrorCodeOK_def)

lemma integers_exact_witness:
  "fst (run_state (unmarshal_int 8 sample_value ValueTypeInt (VInt 7) (GInt 8) ''$'') (busy_world three_hundred)) =
     (VInt 7, Inl (UnmarshalTypeErr ''integer 300'' (GInt 8) ''$'')) \<and>
   fst (run_state (unmarshal_uint 16 sample_value ValueTypeInt (VUint 7) (GUint 16) ''$'') (busy_world three_hundred)) =
     (VUint 300, Inr ())"
proof -
  obtain r w' where run: "run_state (get_int sample_value) (busy_world three_hundred) = (r, w')" by fastforce
  with wp_run [OF run get_three_hundred]
  have got: "run_state (get_int sample_value) (busy_world three_hundred) = (Inr 300, w')" by simp
  have "itoa 300 = ''300''" by code_simp
  then show ?thesis
    using integers_exact [OF _ _ got, of 8 "VInt 7" "GInt 8" "''$''"]
      integers_exact [OF _ _ got, of 16 "VUint 7" "GUint 16" "''$''"] by simp
qed

section \<open>Converting Go values\<close>

text \<open>
  C33: the Go values that can become Nix values are exactly those made of nil, booleans, strings, floats,
  signed integers, unsigned integers up to \<^verbatim>\<open>MaxInt64\<close>, and slices and string-keyed maps of
  such values, at any depth.
\<close>

theorem convertible_values: "(\<exists>gv. from_any tab v path = Inr gv) \<longleftrightarrow> (case v of None \<Rightarrow> True | Some x \<Rightarrow> convertible x)"
  by (cases v) (auto simp: from_any_def from_reflect_convertible)

text \<open>
  The attribute set built from a Go map does not depend on the order in which Go iterates over it:
  the attributes are inserted in the order of their names.
\<close>

theorem attrs_iteration_irrelevant:
  assumes "distinct (map fst m)" "distinct (map fst m')" "map_of m = map_of m'"
  shows "go_attrs m = go_attrs m'"
proof -
  have "sort_strings (map fst m) = sort_strings (map fst m')"
    by (intro sort_strings_cong map_of_keys assms)
  moreover have "attr_items e rc b out m names = attr_items e rc b out m' names" for e rc b out names
    by (induction names) (simp_all add: assms(3))
  ultimately show ?thesis by (simp add: go_attrs_def fun_eq_iff map_of_keys(2) [OF assms])
qed

lemma attrs_iteration_irrelevant_witness:
  "go_attrs [(''a'', go_null), (''b'', go_bool True)] = go_attrs [(''b'', go_bool True), (''a'', go_null)]"
  by (rule attrs_iteration_irrelevant) (auto simp: fun_eq_iff)

section \<open>Evaluation\<close>

text \<open>
  \<^verbatim>\<open>EvalString\<close> returns exactly one new value, open on a live native value, and adds
  nothing else; when it fails it has released the value it had allocated.
\<close>

theorem eval_string_handles:
  assumes "safe w" "run_state (eval_string e expr path) w = (r, w')"
  shows "one_value w r w'"
  by (rule wp_run [OF assms(2) eval_string_one [OF assms(1)]])

lemma eval_string_handles_witness:
  "one_value (sample_world obliging) (fst (run_state (eval_string sample_evaluator ''1'' ''p'') (sample_world obliging)))
     (snd (run_state (eval_string sample_evaluator ''1'' ''p'') (sample_world obliging)))"
  by (rule eval_string_handles [OF safe_sample]) simp

text \<open>
  C40: the message of a failed evaluation is lost. \<^verbatim>\<open>EvalString\<close> closes the value it had
  allocated before it reads the pending error, and the call that releases the value clears the error of
  its context (so \<^verbatim>\<open>nix_value_decref\<close> documents it): the caller is told that the
  evaluation failed, with no Nix error, whatever the reason was.
\<close>

theorem eval_error_lost:
  assumes "safe w" "cells w (ev_id e) = Some (KState, sp)" "cells w (ctx_id (ev_ctx e)) = Some (KContext, rc)"
    "ans_ptr (nix w) (hist w) (E (AllocValue rc sp)) = Some p"
    "ans_code (nix w) (E (AllocValue rc sp) # hist w) (E (ExprEvalFromString rc sp x path p)) \<noteq> ErrorCodeOK"
    "\<forall>h v. ans_code (nix w) h (E (ValueDecref rc v)) = ErrorCodeOK"
    "\<forall>h v. ans_code (nix w) (E (ValueDecref rc v) # h) (U (ErrCode rc)) = ErrorCodeOK"
  shows "fst (run_state (eval_string e x path) w) =
    Inl (wrapf ''eval: failed to evaluate string: %w'' [] NilNixError)"
proof -
  have "ctx_id (ev_ctx e) \<noteq> next_ref w" using cells_bound [OF safe_wf [OF assms(1)] assms(3)] by simp
  then have "wp (eval_string e x path) (\<lambda>r w'. r = Inl (wrapf ''eval: failed to evaluate string: %w'' [] NilNixError)) w"
    using assms(2-)
    by (simp add: eval_string_def with_eval_def alloc_value_def context_borrow_def check_ptr_def fill_value_def
        value_close_def fail_status_def from_context_def nix_err_def wp_rules wp_raw ptr_at_def)
  then show ?thesis by (auto simp: wp_def split: prod.splits)
qed

definition is_evaluation :: "call \<Rightarrow> bool" where
  "is_evaluation c = (case c of E (ExprEvalFromString x s t q v) \<Rightarrow> True | _ \<Rightarrow> False)"

lemma eval_error_lost_witness:
  "fst (run_state (eval_string sample_evaluator ''1 +'' ''p'') (sample_world (failing is_evaluation obliging))) =
     Inl (wrapf ''eval: failed to evaluate string: %w'' [] NilNixError)"
proof (rule eval_error_lost [where sp = 102 and rc = 100 and p = 0])
  show "cells (sample_world (failing is_evaluation obliging)) (ev_id sample_evaluator) = Some (KState, 102)"
    "cells (sample_world (failing is_evaluation obliging)) (ctx_id (ev_ctx sample_evaluator)) = Some (KContext, 100)"
    by (simp_all add: sample_world_def open_world_def)
qed (simp_all add: sample_world_def failing_def is_evaluation_def obliging_def ErrorCodeOK_def)



end
