(* ===== verification/Spec2Isabelle.thy ===== *)
theory Spec2Isabelle
  imports Nix32 System_Id Store_Config Client_Config Store_GC Store_Copy Derivation
    Realised_String Go_Value Unmarshal_Types Unmarshal_Ledger Lock_Info Client_Middleware Samples Sdk
    Client_Guarantees Client_Effects Client_Refinement Client_History Derivation_Data Error_Text Example_Program
    Store_Guarantees Flake_Guarantees Value_Guarantees Wrapper_Guarantees
begin

text \<open>
  A verification of gonix, a Go SDK over the Nix C API: a client (\<^verbatim>\<open>client.go\<close>) owns a native context, a
  store, an evaluator, fetcher and flake settings and the flakes it opened; below it are packages that
  wrap one kind of native handle each (\<^verbatim>\<open>nixcontext\<close>, \<^verbatim>\<open>store\<close>, \<^verbatim>\<open>storepath\<close>, \<^verbatim>\<open>eval\<close>, \<^verbatim>\<open>flake\<close>, \<^verbatim>\<open>fetchers\<close>,
  \<^verbatim>\<open>flakesettings\<close>), and pure code (settings, systems, base-32, JSON codecs, conversions by reflection).

  The model. A Go function with effects is a function on a \<open>world\<close> (state monad \<open>io\<close>): the ledger of live
  native handles, the wrapper objects with their pointer field (\<open>cells\<close>, so that aliases of a wrapper share
  its state), a fault flag that a use or a release of a dead handle sets, and the history of native calls.
  The native library is not modelled: its answer to a call is an arbitrary function of the history
  (\<open>native\<close>), so every theorem holds for all behaviours of the library, failures at every call included.
  What the model fixes of the C API is only which handles a call creates, uses and releases (\<open>Ledger\<close>), as
  its documentation states. A Go error is a value of \<open>err\<close>, an operation that may fail returns \<open>err + 'a\<close>, and
  machine integers are words. What Go leaves open is a parameter: the iteration order of maps, the
  Unicode tables and the printing of floats (\<open>go_tables\<close>), the names of reflected types (\<open>go_names\<close>), the
  text syntax of JSON (\<open>parse\<close>, \<open>render\<close>).

  Theories, from the bottom up.

  \<^item> Foundations: Prelude (Go strings, sorting, maps), Go_Error (errors, reflected types), Native (the
    calls of \<^verbatim>\<open>pkg/raw\<close> as a datatype), Ledger and Machine (worlds, steps, weakest preconditions), Reasoning
    and Balance (invariants of worlds and rules to run code symbolically).

  \<^item> Wrappers: Status (\<^verbatim>\<open>internal/status\<close>, \<^verbatim>\<open>pkg/utils/string.go\<close>), Lifecycle (the locale \<open>wrapper\<close> of
    Borrow and Close, and \<open>cloneable\<close>), Nix_Context, Settings, Store_Path, Store_Core (\<^verbatim>\<open>store/store.go\<close>),
    Store_Closure, Store_Copy, Store_GC (with \<^verbatim>\<open>util/interrupt.go\<close>), Derivation, Evaluator, Value_Getters
    (\<^verbatim>\<open>eval/value.go\<close>), Eval_Ops, Builders, Realised_String, Locked_Flake. The locale is interpreted on
    every wrapper's own operations where they are defined.

  \<^item> Pure code: Nix32, System_Id, Store_Config, Client_Config, Go_Fields (\<^verbatim>\<open>strings.Fields\<close>), Json and
    Json_Decode (what \<^verbatim>\<open>encoding/json\<close> does with trees), Lock_Info, Derivation_Data, Attr_Path, Go_Value
    (\<^verbatim>\<open>eval/go_value.go\<close>), Unmarshal (\<^verbatim>\<open>eval/unmarshal.go\<close>), Error_Text (\<^verbatim>\<open>eval/errors.go\<close> and formatting).

  \<^item> The client: Client (creation and release), Client_Ops (operations and middleware), Daemon_Connection
    (descriptors), Client_Middleware (the middleware's goroutines as a step relation), Client_Refinement
    (each operation is a run of that relation), Client_History (sequences of calls by any goroutines),
    Example_Program (\<^verbatim>\<open>cmd/example\<close>).

  \<^item> Results: Ownership and Value_Ownership (which wrappers an operation opens and closes), Allocations
    (how many, hence no others), Unmarshal_Ledger, Unmarshal_Types, Store_Settled, Client_Contract (what a
    handler may do inside the middleware), Sdk (any program over the SDK as a step relation), Samples
    (concrete libraries and worlds), and Wrapper_, Store_, Flake_, Value_ and Client_Guarantees and
    Client_Effects, which state the properties component by component; this theory states those of the
    whole.

  What is shown. No program over the SDK uses or releases a dead handle, and what it can lose is store
  path handles only (\<open>sdk_accounting\<close>); sessions and the example program lose nothing. Each wrapper refines
  one abstract life cycle. \<^verbatim>\<open>NewClient\<close> and \<^verbatim>\<open>flake.New\<close> return exactly what they own; a cancelled or failed operation
  releases what it had opened, with the exceptions that are theorems of their own (\<open>new_client_log_sink_leak\<close>,
  \<open>conversion_leaks\<close>, \<open>cancelled_value_stays_open\<close>). The middleware excludes concurrent handlers, clears the
  global interrupt and returns once its handler does, for any interleaving of any number of goroutines. Every history
  of calls is one of its runs (\<open>client_history_runs\<close>) and treats the client as a machine with two states, open and
  closed (\<open>client_history_two_states\<close>). Decoding keeps Go
  variables well typed and integers exact; codecs round trip; settings, parameters and identifiers are what
  the documentation says. Errors keep codes and causes.

  Bounds. The numbers of loop iterations come from the native library's counts, over which recursion is
  structural, so no fuel is used. A call of the middleware makes at most 17 steps of its own
  under any scheduling (\<open>middleware_terminates\<close>) and is never stuck (\<open>middleware_call_returns\<close>). Decoding recurses on the Go type, which is a finite tree: recursive Go types
  are outside the model, as are cyclic Go values in conversions.

  Not modelled: the generated bindings \<^verbatim>\<open>pkg/raw\<close> beyond the signatures of their calls (one cgo call per
  function), the behaviour of Nix itself, what programs print, memory allocation and the Go runtime apart
  from the goroutines of the middleware. Within \<^verbatim>\<open>encoding/json\<close> two details are left out: a repeated
  member that reuses the elements of the slice read before, and which of several mismatches is reported.
\<close>

section \<open>The SDK as a whole\<close>


lemma fresh_context: "ptr_at KContext 0 (snd (run_state (context_new True) (empty_world obliging))) = Some 0"
proof -
  have "wp (context_new True) (\<lambda>r w'. ptr_at KContext 0 w' = Some 0) (empty_world obliging)"
    by (simp add: context_new_def wp_rules wp_raw attempt_def check_code_def empty_world_def obliging_def
        from_context_def ErrorCodeOK_def ptr_at_def)
  then show ?thesis by (simp add: wp_def split: prod.splits)
qed

definition first_world :: world where
  "first_world = after (context_new True) (empty_world obliging)"

lemma first_program: "program (empty_world obliging) first_world"
  unfolding first_world_def
  by (rule followed, rule sdk_context, rule context_step.intros(1), rule finished)


section \<open>Sessions\<close>

text \<open>A client from \<^verbatim>\<open>NewClient\<close> to \<^verbatim>\<open>Close\<close>, with any sequence of requests in between.\<close>

datatype request =
    Evaluate string out_arg
  | Decode "value_ref option" out_arg
  | Serve int int bool bool

fun handle_request :: "go_tables \<Rightarrow> request \<Rightarrow> client \<Rightarrow> client io" where
  "handle_request tab (Evaluate expr out) c = do { res \<leftarrow> client_eval tab None c expr out; State_Monad.return (fst res) }"
| "handle_request tab (Decode v out) c = do { res \<leftarrow> client_unmarshal tab None c v out; State_Monad.return (fst res) }"
| "handle_request tab (Serve ifd ofd trusted recursive) c = do {
     res \<leftarrow> process_daemon_connection None c ifd ofd trusted recursive;
     State_Monad.return (fst res)
   }"

fun handle_requests :: "go_tables \<Rightarrow> request list \<Rightarrow> client \<Rightarrow> client io" where
  "handle_requests tab [] c = State_Monad.return c"
| "handle_requests tab (r # rs) c = do { c' \<leftarrow> handle_request tab r c; handle_requests tab rs c' }"

definition session ::
  "go_tables \<Rightarrow> (string list \<Rightarrow> string list) \<Rightarrow> ((string \<times> string) list \<Rightarrow> (string \<times> string) list) \<Rightarrow>
   client_config \<Rightarrow> request list \<Rightarrow> err option io"
where
  "session tab order porder cfg rs = do {
     opened \<leftarrow> new_client order porder cfg;
     (case opened of
        Inl e \<Rightarrow> State_Monad.return (Some e)
      | Inr c \<Rightarrow> do {
          c' \<leftarrow> handle_requests tab rs c;
          closed \<leftarrow> client_close False c';
          State_Monad.return None
        })
   }"

lemma wp_keeps_client: "keeps_client c w m \<Longrightarrow> (\<And>x r w'. settled w w' \<Longrightarrow> Q (c, x, r) w') \<Longrightarrow> wp m Q w"
  by (auto simp: keeps_client_def wp_def split: prod.splits)

lemma wp_handle_request: "safe w \<Longrightarrow> c_ctx c \<noteq> None \<Longrightarrow> wp (handle_request tab r c) (\<lambda>c' w'. c' = c \<and> settled w w') w"
  by (cases r)
    (auto simp: wp_rules intro!: wp_keeps_client [OF keeps_client_eval] wp_keeps_client [OF keeps_client_unmarshal]
      wp_keeps_client [OF keeps_process_daemon_connection])

lemma wp_handle_requests:
  "safe w \<Longrightarrow> c_ctx c \<noteq> None \<Longrightarrow> wp (handle_requests tab rs c) (\<lambda>c' w'. c' = c \<and> settled w w') w"
proof (induction rs arbitrary: w)
  case Nil
  then show ?case by (simp add: wp_rules)
next
  case (Cons r rs)
  show ?case
    unfolding handle_requests.simps wp_rules
    by (rule wp_mono [OF wp_handle_request [OF Cons.prems]])
      (use Cons in \<open>auto intro!: wp_mono [OF Cons.IH] intro: settled_trans simp: settled_safe\<close>)
qed

lemma wp_session:
  assumes "safe w"
  shows "wp (session tab order porder cfg rs)
    (\<lambda>r w'. case r of None \<Rightarrow> settled w w'
     | Some e \<Rightarrow> if log_sink_failure e then \<exists>i. only [(KContext, i)] w w' else settled w w') w"
  unfolding session_def wp_rules
proof (rule wp_mono [OF new_client_outcome [OF assms]], goal_cases)
  case (1 opened w1)
  show ?case
  proof (cases opened)
    case (Inl e)
    with 1 assms show ?thesis
      by (auto simp: client_outcome_def wp_rules intro: only_nil_settled)
  next
    case (Inr c)
    with 1 have o: "only (parts c) w w1" and c: "c_ctx c \<noteq> None"
      by (auto simp: client_outcome_def complete_def)
    have safe: "safe w1" using o assms by (rule only_safe)
    have close: "wp (client_close False c) (\<lambda>r w'. settled w w') w2" if s: "settled w1 w2" for w2
    proof (rule wp_mono [OF wp_client_close [OF _ c]])
      show "safe w2" using s safe by (simp add: settled_safe)
      fix r w3 assume "r = (zero_client, Inr ()) \<and> shut (parts c) w2 w3"
      then have "only [] w w3"
        using only_settled [OF o s assms] assms by (blast intro: only_close_all)
      then show "settled w w3" using assms by (rule only_nil_settled)
    qed
    show ?thesis
      unfolding Inr sum.case wp_rules
      by (rule wp_mono [OF wp_handle_requests [OF safe c]]) (auto simp: wp_rules intro: close)
  qed
qed

lemma next_ref_empty: "next_ref (empty_world lib) = 0"
  by (simp add: empty_world_def)

lemma one_context_left:
  assumes "only [(KContext, i)] (empty_world lib) w'" shows "\<not> fault w' \<and> size (live w') = 1"
proof -
  have safe: "safe w'" using assms safe_empty by (rule only_safe)
  have g: "grows (empty_world lib) w'" using assms by (rule only_grows)
  then have sound: "sound {#} w'"
    using sound_self [OF safe_empty, of lib] by (simp add: grows_sound temps_def empty_world_def)
  have cells: "ptr_at k j w' = None \<longleftrightarrow> (k, j) \<noteq> (KContext, i)" for k j
  proof -
    have "0 \<le> j \<longrightarrow> (ptr_at k j w' \<noteq> None) = ((k, j) \<in> set [(KContext, i)])"
      using assms unfolding only_def next_ref_empty by blast
    then show ?thesis by (cases "ptr_at k j w'") auto
  qed
  obtain p where "ptr_at KContext i w' = Some p"
    using cells [of KContext i] by (cases "ptr_at KContext i w'") auto
  then have p: "cells w' i = Some (KContext, p)" by (simp add: ptr_at_Some)
  have "cells (clear_cell i w') j = None" for j
  proof (cases "cells (clear_cell i w') j")
    case (Some h)
    then show ?thesis using cells [of "fst h" j] by (auto simp: ptr_at_def split: if_splits prod.splits)
  qed
  then have "owned (clear_cell i w') = {#}" by (simp add: owned_def)
  then have "owned w' = {#(KContext, p)#}"
    using owned_clear_cell [OF sound_wf [OF sound] p] by simp
  with sound show ?thesis by (simp add: sound_def)
qed

text \<open>
  C2: a session leaks nothing. Whatever the configuration, the requests and the native library's
  answers, once a client that was opened is closed no native handle is live; and when \<^verbatim>\<open>NewClient\<close>
  fails at most one is.
\<close>

theorem session_leaves_nothing:
  "case run_state (session tab order porder cfg rs) (empty_world lib) of (why, w') \<Rightarrow>
     \<not> fault w' \<and> size (live w') = (case why of None \<Rightarrow> 0 | Some e \<Rightarrow> if log_sink_failure e then 1 else 0)"
proof -
  have "wp (session tab order porder cfg rs) (\<lambda>why w'. \<not> fault w' \<and>
      size (live w') = (case why of None \<Rightarrow> 0 | Some e \<Rightarrow> if log_sink_failure e then 1 else 0)) (empty_world lib)"
  proof (rule wp_mono [OF wp_session [OF safe_empty]], goal_cases)
    case (1 why w')
    have settled: "\<not> fault w' \<and> live w' = {#}" if "settled (empty_world lib) w'"
    proof
      show "\<not> fault w'" using settled_safe [OF that] safe_empty by (intro safe_not_fault) (rule iffD2)
      show "live w' = {#}" using that live_empty [of lib] by (simp only: settled_def)
    qed
    have leaked: "\<not> fault w' \<and> size (live w') = 1" if "only [(KContext, i)] (empty_world lib) w'" for i
      using one_context_left [OF that] by simp
    show ?case
    proof (cases why)
      case None
      then show ?thesis using 1 settled by simp
    next
      case (Some e)
      then show ?thesis using 1 settled leaked by (cases "log_sink_failure e") auto
    qed
  qed
  then show ?thesis by (simp add: wp_def)
qed

end
